(* ===== verification/Go_Prelude.thy ===== *)
theory Go_Prelude
  imports Main "HOL-Library.Word" "HOL-Library.Multiset"
begin

text \<open>
  The part of the Go language and of its standard library that the components share, and the
  generic lemmas about it: fixed-width integers with their wrap-around, run-time panics as
  values, the zero value of a map read, string prefixes and decimal rendering, the binary search
  of \<^verbatim>\<open>sort.Search\<close>, the contract of \<^verbatim>\<open>sort.Slice\<close>, and the CRC-32 checksum of
  \<^verbatim>\<open>hash/crc32\<close>. Nothing here is specific to the gateway.

  A value of type \<open>int\<close> that Go keeps in a signed w-bit integer is passed through
  \<open>swrap w\<close> after every operation that may overflow. Unsigned 32-bit values that the gateway
  adds, multiplies or compares are \<open>32 word\<close>.
\<close>

unbundle bit_operations_syntax

named_theorems go_simps \<open>equations that unfold the Go library operations\<close>

type_synonym uint32 = "32 word"
type_synonym uint64 = "64 word"
type_synonym float64 = "64 word"
type_synonym duration = int
type_synonym time = int

datatype go_panic = DivideByZero | InvalidArgument | IndexOutOfRange | NilDereference | AbortHandler

type_synonym 'a go = "go_panic + 'a"

subsection \<open>Signed wrap-around\<close>

definition swrap :: "nat \<Rightarrow> int \<Rightarrow> int" where
  "swrap w x = (x + 2 ^ (w - 1)) mod 2 ^ w - 2 ^ (w - 1)"

definition fits :: "nat \<Rightarrow> int \<Rightarrow> bool" where
  "fits w x \<longleftrightarrow> - (2 ^ (w - 1)) \<le> x \<and> x < 2 ^ (w - 1)"

lemma swrap_id:
  assumes "0 < w" and "fits w x"
  shows "swrap w x = x"
proof -
  obtain v where w: "w = Suc v" using assms(1) by (cases w) auto
  have "(x + 2 ^ v) mod 2 ^ Suc v = x + 2 ^ v"
    using assms(2) by (intro mod_pos_pos_trivial) (auto simp: fits_def w)
  then show ?thesis by (simp add: swrap_def w)
qed

lemma swrap_fits:
  assumes "0 < w"
  shows "fits w (swrap w x)"
proof -
  obtain v where w: "w = Suc v" using assms by (cases w) auto
  have "0 \<le> (x + 2 ^ v) mod 2 ^ Suc v" by (rule pos_mod_sign) simp
  moreover have "(x + 2 ^ v) mod 2 ^ Suc v < 2 ^ Suc v" by (rule pos_mod_bound) simp
  ultimately show ?thesis unfolding fits_def swrap_def w by simp
qed

text \<open>\<^verbatim>\<open>Time.Sub\<close> and \<^verbatim>\<open>time.Since\<close> saturate at the ends of the 64-bit duration range.\<close>

definition timeSub :: "time \<Rightarrow> time \<Rightarrow> duration" where
  "timeSub t u = max (- (2 ^ 63)) (min (2 ^ 63 - 1) (t - u))"

lemma timeSub_exact: "fits 64 (t - u) \<Longrightarrow> timeSub t u = t - u"
  by (simp add: fits_def timeSub_def)

text \<open>Go's integer division truncates towards zero.\<close>

definition quot :: "int \<Rightarrow> int \<Rightarrow> int" where
  "quot a b = sgn a * sgn b * (\<bar>a\<bar> div \<bar>b\<bar>)"

lemma quot_nonneg: "0 \<le> a \<Longrightarrow> 0 < b \<Longrightarrow> quot a b = a div b"
  by (cases "a = 0") (simp_all add: quot_def)

subsection \<open>Map reads\<close>

text \<open>Reading a missing key yields the zero value of the element type.\<close>

definition mapInt :: "('k \<rightharpoonup> int) \<Rightarrow> 'k \<Rightarrow> int" where
  "mapInt m k = (case m k of None \<Rightarrow> 0 | Some v \<Rightarrow> v)"

definition mapBool :: "('k \<rightharpoonup> bool) \<Rightarrow> 'k \<Rightarrow> bool" where
  "mapBool m k = (case m k of None \<Rightarrow> False | Some v \<Rightarrow> v)"

lemma mapInt_upd [simp]: "mapInt (m(k \<mapsto> v)) k' = (if k' = k then v else mapInt m k')"
  by (simp add: mapInt_def)

lemma mapInt_if [simp]:
  "mapInt (\<lambda>a. if a = k then Some v else m a) k' = (if k' = k then v else mapInt m k')"
  by (simp add: mapInt_def)

lemma mapInt_empty [simp]: "mapInt Map.empty k = 0"
  by (simp add: mapInt_def)

lemma mapBool_upd [simp]: "mapBool (m(k \<mapsto> v)) k' = (if k' = k then v else mapBool m k')"
  by (simp add: mapBool_def)

lemma mapBool_if [simp]:
  "mapBool (\<lambda>a. if a = k then Some v else m a) k' = (if k' = k then v else mapBool m k')"
  by (simp add: mapBool_def)

lemma mapBool_empty [simp]: "mapBool Map.empty k = False"
  by (simp add: mapBool_def)

text \<open>A loop that stores every element of a slice under its key.\<close>

definition mapFromSlice :: "('a \<Rightarrow> 'k) \<Rightarrow> 'a list \<Rightarrow> ('k \<rightharpoonup> 'a)" where
  "mapFromSlice key xs = foldl (\<lambda>m x. m(key x \<mapsto> x)) Map.empty xs"

lemma foldl_upd_eq:
  "foldl (\<lambda>m x. m(key x \<mapsto> x)) m0 xs =
     (\<lambda>k. case find (\<lambda>x. key x = k) (rev xs) of None \<Rightarrow> m0 k | Some x \<Rightarrow> Some x)"
proof (induction xs rule: rev_induct)
  case Nil
  show ?case by simp
next
  case (snoc x xs)
  then show ?case by (auto simp: fun_eq_iff)
qed

lemma mapFromSlice_find: "mapFromSlice key xs k = find (\<lambda>x. key x = k) (rev xs)"
  by (simp add: mapFromSlice_def foldl_upd_eq split: option.split)

lemma mapFromSlice_SomeD: "mapFromSlice key xs k = Some x \<Longrightarrow> x \<in> set xs \<and> key x = k"
  unfolding mapFromSlice_find find_Some_iff by (metis nth_mem set_rev)

lemma mapFromSlice_dom: "dom (mapFromSlice key xs) = key ` set xs"
proof (intro set_eqI iffI)
  fix k assume "k \<in> key ` set xs"
  then have "find (\<lambda>x. key x = k) (rev xs) \<noteq> None" by (auto simp: find_None_iff)
  then show "k \<in> dom (mapFromSlice key xs)" by (auto simp: mapFromSlice_find)
qed (auto dest!: mapFromSlice_SomeD)

lemma mapFromSlice_in: "x \<in> set xs \<Longrightarrow> \<exists>y. mapFromSlice key xs (key x) = Some y"
  using mapFromSlice_dom [of key xs] by (metis domD imageI)

subsection \<open>Strings\<close>

definition hasPrefix :: "string \<Rightarrow> string \<Rightarrow> bool" where
  "hasPrefix s p \<longleftrightarrow> length p \<le> length s \<and> take (length p) s = p"

lemma hasPrefix_iff: "hasPrefix s p \<longleftrightarrow> (\<exists>t. s = p @ t)"
proof
  assume "hasPrefix s p"
  then have "s = p @ drop (length p) s" by (metis append_take_drop_id hasPrefix_def)
  then show "\<exists>t. s = p @ t" ..
qed (auto simp: hasPrefix_def)

fun digits_rev :: "nat \<Rightarrow> nat list" where
  "digits_rev n = (if n < 10 then [n] else n mod 10 # digits_rev (n div 10))"

declare digits_rev.simps [simp del]

definition digit_char :: "nat \<Rightarrow> char" where
  "digit_char d = char_of (48 + d)"

text \<open>Decimal rendering, the \<^verbatim>\<open>%d\<close> verb on a non-negative argument.\<close>

definition decimal :: "nat \<Rightarrow> string" where
  "decimal n = map digit_char (rev (digits_rev n))"

lemma digit_char_eval [go_simps]:
  "digit_char 0 = CHR ''0''" "digit_char (Suc 0) = CHR ''1''" "digit_char 2 = CHR ''2''"
  "digit_char 3 = CHR ''3''" "digit_char 4 = CHR ''4''" "digit_char 5 = CHR ''5''"
  "digit_char 6 = CHR ''6''" "digit_char 7 = CHR ''7''" "digit_char 8 = CHR ''8''"
  "digit_char 9 = CHR ''9''"
  by code_simp+

fun digits_value :: "nat list \<Rightarrow> nat" where
  "digits_value [] = 0"
| "digits_value (d # ds) = d + 10 * digits_value ds"

lemma digits_value_rev: "digits_value (digits_rev n) = n"
proof (induction n rule: digits_rev.induct)
  case (1 n)
  show ?case
  proof (cases "n < 10")
    case True
    then show ?thesis by (simp add: digits_rev.simps [of n])
  next
    case False
    with 1 show ?thesis by (simp add: digits_rev.simps [of n])
  qed
qed

lemma digits_rev_less: "d \<in> set (digits_rev n) \<Longrightarrow> d < 10"
proof (induction n rule: digits_rev.induct)
  case (1 n)
  then show ?case by (cases "n < 10") (auto simp: digits_rev.simps [of n])
qed

lemma digit_char_inj: "inj_on digit_char {..<10}"
proof (rule inj_onI)
  fix a b assume ab: "a \<in> {..<10::nat}" "b \<in> {..<10}" and eq: "digit_char a = digit_char b"
  have "of_char (digit_char a) = (of_char (digit_char b) :: nat)" using eq by simp
  then have "(48 + a) mod 256 = (48 + b) mod 256" by (simp add: digit_char_def)
  with ab show "a = b" by simp
qed

lemma decimal_inj: "decimal m = decimal n \<Longrightarrow> m = n"
proof -
  assume "decimal m = decimal n"
  then have eq: "map digit_char (digits_rev m) = map digit_char (digits_rev n)"
    by (simp add: decimal_def rev_map [symmetric])
  have "inj_on digit_char (set (digits_rev m) \<union> set (digits_rev n))"
    by (rule inj_on_subset [OF digit_char_inj]) (auto dest: digits_rev_less)
  with eq have "digits_rev m = digits_rev n" by (simp add: inj_on_map_eq_map)
  then show "m = n" by (metis digits_value_rev)
qed

subsection \<open>Binary search: sort.Search\<close>

function sortSearch_loop :: "(nat \<Rightarrow> bool) \<Rightarrow> nat \<Rightarrow> nat \<Rightarrow> nat" where
  "sortSearch_loop f i j =
     (if i < j then
        (let h = (i + j) div 2 in
         if \<not> f h then sortSearch_loop f (Suc h) j else sortSearch_loop f i h)
      else i)"
  by pat_completeness auto
termination
  by (relation "measure (\<lambda>(f, i, j). j - i)") auto

declare sortSearch_loop.simps [simp del]

definition sortSearch :: "nat \<Rightarrow> (nat \<Rightarrow> bool) \<Rightarrow> nat" where
  "sortSearch n f = sortSearch_loop f 0 n"

lemma sortSearch_loop_range:
  assumes "i \<le> j" shows "i \<le> sortSearch_loop f i j \<and> sortSearch_loop f i j \<le> j"
  using assms
proof (induction f i j rule: sortSearch_loop.induct)
  case (1 f i j)
  show ?case
  proof (cases "i < j")
    case False
    with "1.prems" show ?thesis by (subst (1 2) sortSearch_loop.simps) simp
  next
    case True
    define h where "h = (i + j) div 2"
    have h: "i \<le> h" "h < j" using True by (auto simp: h_def)
    show ?thesis
    proof (cases "f h")
      case fh: True
      with "1.IH"(2) [OF True h_def] h True show ?thesis
        by (simp add: sortSearch_loop.simps [of f i j] h_def [symmetric] Let_def)
    next
      case fh: False
      with "1.IH"(1) [OF True h_def] h True show ?thesis
        by (simp add: sortSearch_loop.simps [of f i j] h_def [symmetric] Let_def)
    qed
  qed
qed

text \<open>For a predicate that is false below a threshold and true from it on, the search returns
  the threshold.\<close>

lemma sortSearch_loop_threshold:
  assumes "\<And>k. i \<le> k \<Longrightarrow> k < j \<Longrightarrow> f k \<longleftrightarrow> c \<le> k" and "i \<le> c" and "c \<le> j"
  shows "sortSearch_loop f i j = c"
  using assms
proof (induction f i j rule: sortSearch_loop.induct)
  case (1 f i j)
  show ?case
  proof (cases "i < j")
    case False
    with 1 show ?thesis by (simp add: sortSearch_loop.simps [of f i j])
  next
    case True
    define h where "h = (i + j) div 2"
    have h: "i \<le> h" "h < j" using True by (auto simp: h_def)
    have fh: "f h \<longleftrightarrow> c \<le> h" using "1.prems"(1) h by simp
    have step: "sortSearch_loop f i j =
        (if \<not> f h then sortSearch_loop f (Suc h) j else sortSearch_loop f i h)"
      using True by (simp add: sortSearch_loop.simps [of f i j] h_def Let_def)
    show ?thesis
    proof (cases "c \<le> h")
      case le: True
      have "sortSearch_loop f i h = c"
        by (rule "1.IH"(2) [OF True h_def]) (use "1.prems" h le fh in auto)
      then show ?thesis using step fh le by simp
    next
      case gt: False
      have "sortSearch_loop f (Suc h) j = c"
        by (rule "1.IH"(1) [OF True h_def]) (use "1.prems" h gt fh in auto)
      then show ?thesis using step fh gt by simp
    qed
  qed
qed

lemma sortSearch_le: "sortSearch n f \<le> n"
  using sortSearch_loop_range [of 0 n f] by (simp add: sortSearch_def)

lemma sorted_threshold:
  fixes key :: "'a \<Rightarrow> 'b::linorder"
  assumes "sorted (map key xs)" and "k < length xs"
  shows "h \<le> key (xs ! k) \<longleftrightarrow> length (takeWhile (\<lambda>x. key x < h) xs) \<le> k"
  using assms
proof (induction xs arbitrary: k)
  case Nil
  then show ?case by simp
next
  case (Cons x xs)
  show ?case
  proof (cases "key x < h")
    case True
    then show ?thesis using Cons by (cases k) auto
  next
    case False
    have "key x \<le> key ((x # xs) ! k)" using Cons.prems by (cases k) auto
    with False show ?thesis by simp
  qed
qed

lemma sortSearch_sorted:
  fixes key :: "'a \<Rightarrow> 'b::linorder"
  assumes "sorted (map key xs)"
  shows "sortSearch (length xs) (\<lambda>i. h \<le> key (xs ! i)) = length (takeWhile (\<lambda>x. key x < h) xs)"
  unfolding sortSearch_def
  by (rule sortSearch_loop_threshold) (auto simp: sorted_threshold [OF assms] length_takeWhile_le)

subsection \<open>Sorting: the contract of sort.Slice\<close>

text \<open>
  \<^verbatim>\<open>sort.Slice\<close> permutes the slice into an order that the key respects. It is not stable,
  so the order of elements with equal keys is not determined: the components take the sorting
  function as an argument and rely on this contract only.
\<close>

locale slice_sort =
  fixes srt :: "('a \<Rightarrow> 'k::linorder) \<Rightarrow> 'a list \<Rightarrow> 'a list"
  assumes mset_srt: "mset (srt key xs) = mset xs"
    and sorted_srt: "sorted (map key (srt key xs))"
begin

lemma set_srt [simp]: "set (srt key xs) = set xs"
  by (rule mset_eq_setD [OF mset_srt])

lemma length_srt [simp]: "length (srt key xs) = length xs"
  by (rule mset_eq_length [OF mset_srt])

lemma count_list_srt: "count_list (srt key xs) x = count_list xs x"
  by (metis count_mset mset_srt)

lemma length_filter_srt: "length (filter P (srt key xs)) = length (filter P xs)"
  by (metis mset_srt mset_filter size_mset)

lemma srt_Nil_iff [simp]: "srt key xs = [] \<longleftrightarrow> xs = []"
  by (metis length_0_conv length_srt)

lemma search_srt:
  "sortSearch (length xs) (\<lambda>i. h \<le> key (srt key xs ! i)) =
     length (takeWhile (\<lambda>x. key x < h) (srt key xs))"
  using sortSearch_sorted [OF sorted_srt, of key xs h] by simp

end

interpretation stable_sort: slice_sort sort_key
  by unfold_locales simp_all

subsection \<open>CRC-32 (IEEE), hash/crc32\<close>

definition crc32_shift :: "uint32 \<Rightarrow> uint32" where
  "crc32_shift c = (if bit c 0 then drop_bit 1 c XOR 0xEDB88320 else drop_bit 1 c)"

definition crc32_byte :: "uint32 \<Rightarrow> char \<Rightarrow> uint32" where
  "crc32_byte c b = (crc32_shift ^^ 8) (c XOR of_char b)"

definition checksumIEEE :: "string \<Rightarrow> uint32" where
  "checksumIEEE s = NOT (foldl crc32_byte (NOT 0) s)"

text \<open>The same computation on integers, which the simplifier evaluates.\<close>

definition crc_int_shift :: "int \<Rightarrow> int" where
  "crc_int_shift c = (if c mod 2 = 1 then (c div 2) XOR 0xEDB88320 else c div 2)"

definition crc_int_byte :: "int \<Rightarrow> char \<Rightarrow> int" where
  "crc_int_byte c b =
     crc_int_shift (crc_int_shift (crc_int_shift (crc_int_shift
       (crc_int_shift (crc_int_shift (crc_int_shift (crc_int_shift (c XOR of_char b))))))))"

lemma uint_crc32_shift: "uint (crc32_shift c) = crc_int_shift (uint c)"
proof -
  have "bit c 0 = bit (uint c) 0" by (simp add: bit_uint_iff)
  then have b: "bit c 0 \<longleftrightarrow> uint c mod 2 = 1" by (simp only: bit_0 odd_iff_mod_2_eq_one)
  have d: "uint (drop_bit 1 c) = uint c div 2"
    by (simp only: drop_bit_eq_div uint_div_distrib) simp
  show ?thesis unfolding crc32_shift_def crc_int_shift_def using b d by (simp add: unsigned_xor_eq)
qed

lemma uint_of_char: "uint (of_char b :: uint32) = of_char b"
proof -
  have "(of_char b :: uint32) = word_of_int (of_char b)" by (simp add: of_char_def)
  moreover have "(of_char b :: int) = int (of_char b)" by (simp add: of_char_def)
  moreover have "(of_char b :: nat) < 2 ^ 32" by (rule less_trans [OF nat_of_char_less_256]) simp
  ultimately show ?thesis
    by (simp only: uint_word_of_int of_nat_mod [symmetric])
      (simp add: take_bit_nat_eq_self uint_nat unat_of_nat)
qed

lemma uint_crc32_byte: "uint (crc32_byte c b) = crc_int_byte (uint c) b"
  by (simp add: crc32_byte_def crc_int_byte_def uint_crc32_shift unsigned_xor_eq uint_of_char
      numeral_eq_Suc)

lemma uint_foldl_crc32: "uint (foldl crc32_byte c s) = foldl crc_int_byte (uint c) s"
  by (induction s arbitrary: c) (simp_all add: uint_crc32_byte)

lemma checksumIEEE_code [code]:
  "checksumIEEE s = word_of_int (0xFFFFFFFF XOR foldl crc_int_byte 0xFFFFFFFF s)"
proof -
  have m: "uint (- 1 :: uint32) = 0xFFFFFFFF"
    by (simp add: unsigned_minus_1_eq_mask mask_eq_exp_minus_1)
  have "checksumIEEE s = foldl crc32_byte (- 1) s XOR (- 1)"
    by (simp add: checksumIEEE_def)
  then have "uint (checksumIEEE s) = foldl crc_int_byte 0xFFFFFFFF s XOR 0xFFFFFFFF"
    by (simp only: unsigned_xor_eq uint_foldl_crc32 m)
  then show ?thesis by (metis word_of_int_uint xor.commute)
qed

lemmas crc_eval [go_simps] = checksumIEEE_code crc_int_byte_def crc_int_shift_def of_char_def

text \<open>The check value that the CRC-32 standard publishes.\<close>

lemma checksumIEEE_check: "checksumIEEE ''123456789'' = 0xCBF43926"
  by (simp add: go_simps)

end
