(* ===== verification/Model.thy ===== *)
theory Model
  imports Go_Prelude
begin

text \<open>
  The configuration entities of \<^verbatim>\<open>server/internal/model\<close>: one record per struct, with the
  struct's name and its fields in source order, each field prefixed by the name of the struct. A
  pointer field is an \<open>option\<close>, a slice a list, a map a partial function, a \<^verbatim>\<open>uint32\<close> a
  32-bit word and a \<^verbatim>\<open>float64\<close> its IEEE bit pattern. Go's string-typed enumerations stay
  strings, because a value outside the declared constants is representable in the program and
  reaches the default branch of its switches.
\<close>

subsection \<open>String enumerations\<close>

type_synonym DiscoveryType = string

abbreviation DiscoveryTypeKubernetes :: DiscoveryType where
  "DiscoveryTypeKubernetes \<equiv> ''kubernetes''"

type_synonym EndpointLBPolicy = string

abbreviation EndpointLBRoundRobin :: EndpointLBPolicy where
  "EndpointLBRoundRobin \<equiv> ''ROUND_ROBIN''"
abbreviation EndpointLBLeastRequest :: EndpointLBPolicy where
  "EndpointLBLeastRequest \<equiv> ''LEAST_REQUEST''"
abbreviation EndpointLBRingHash :: EndpointLBPolicy where
  "EndpointLBRingHash \<equiv> ''RING_HASH''"
abbreviation EndpointLBMaglev :: EndpointLBPolicy where
  "EndpointLBMaglev \<equiv> ''MAGLEV''"
abbreviation EndpointLBRandom :: EndpointLBPolicy where
  "EndpointLBRandom \<equiv> ''RANDOM''"
abbreviation EndpointLBSticky :: EndpointLBPolicy where
  "EndpointLBSticky \<equiv> ''STICKY''"

type_synonym TLSMode = string

abbreviation TLSModeNone :: TLSMode where
  "TLSModeNone \<equiv> ''none''"
abbreviation TLSModeTLS :: TLSMode where
  "TLSModeTLS \<equiv> ''tls''"
abbreviation TLSModeMTLS :: TLSMode where
  "TLSModeMTLS \<equiv> ''mtls''"

type_synonym ProxyErrorDetail = string

abbreviation ProxyErrorDetailMinimal :: ProxyErrorDetail where
  "ProxyErrorDetailMinimal \<equiv> ''minimal''"
abbreviation ProxyErrorDetailStandard :: ProxyErrorDetail where
  "ProxyErrorDetailStandard \<equiv> ''standard''"
abbreviation ProxyErrorDetailFull :: ProxyErrorDetail where
  "ProxyErrorDetailFull \<equiv> ''full''"

type_synonym MiddlewareType = string

abbreviation MiddlewareTypeCORS :: MiddlewareType where
  "MiddlewareTypeCORS \<equiv> ''cors''"
abbreviation MiddlewareTypeJWT :: MiddlewareType where
  "MiddlewareTypeJWT \<equiv> ''jwt''"
abbreviation MiddlewareTypeExtAuthz :: MiddlewareType where
  "MiddlewareTypeExtAuthz \<equiv> ''extAuthz''"
abbreviation MiddlewareTypeExtProc :: MiddlewareType where
  "MiddlewareTypeExtProc \<equiv> ''extProc''"
abbreviation MiddlewareTypeRateLimit :: MiddlewareType where
  "MiddlewareTypeRateLimit \<equiv> ''rateLimit''"
abbreviation MiddlewareTypeHeaders :: MiddlewareType where
  "MiddlewareTypeHeaders \<equiv> ''headers''"
abbreviation MiddlewareTypeAccessLog :: MiddlewareType where
  "MiddlewareTypeAccessLog \<equiv> ''accessLog''"
abbreviation MiddlewareTypeInlineAuthz :: MiddlewareType where
  "MiddlewareTypeInlineAuthz \<equiv> ''inlineAuthz''"

type_synonym PhaseMode = string

abbreviation PhaseModeSend :: PhaseMode where
  "PhaseModeSend \<equiv> ''send''"
abbreviation PhaseModeSkip :: PhaseMode where
  "PhaseModeSkip \<equiv> ''skip''"

type_synonym BodyMode = string

abbreviation BodyModeNone :: BodyMode where
  "BodyModeNone \<equiv> ''none''"
abbreviation BodyModeBuffered :: BodyMode where
  "BodyModeBuffered \<equiv> ''buffered''"
abbreviation BodyModeBufferedPartial :: BodyMode where
  "BodyModeBufferedPartial \<equiv> ''bufferedPartial''"
abbreviation BodyModeStreamed :: BodyMode where
  "BodyModeStreamed \<equiv> ''streamed''"

type_synonym ProxyErrorType = string

abbreviation ProxyErrConnectionRefused :: ProxyErrorType where
  "ProxyErrConnectionRefused \<equiv> ''connection_refused''"
abbreviation ProxyErrConnectionReset :: ProxyErrorType where
  "ProxyErrConnectionReset \<equiv> ''connection_reset''"
abbreviation ProxyErrDNSFailure :: ProxyErrorType where
  "ProxyErrDNSFailure \<equiv> ''dns_failure''"
abbreviation ProxyErrTimeout :: ProxyErrorType where
  "ProxyErrTimeout \<equiv> ''timeout''"
abbreviation ProxyErrTLSHandshakeFailure :: ProxyErrorType where
  "ProxyErrTLSHandshakeFailure \<equiv> ''tls_handshake_failure''"
abbreviation ProxyErrCircuitOpen :: ProxyErrorType where
  "ProxyErrCircuitOpen \<equiv> ''circuit_open''"
abbreviation ProxyErrNoDestination :: ProxyErrorType where
  "ProxyErrNoDestination \<equiv> ''no_destination''"
abbreviation ProxyErrNoEndpoint :: ProxyErrorType where
  "ProxyErrNoEndpoint \<equiv> ''no_endpoint''"

type_synonym DestinationLBPolicy = string

abbreviation DestinationLBWeightedRandom :: DestinationLBPolicy where
  "DestinationLBWeightedRandom \<equiv> ''WEIGHTED_RANDOM''"
abbreviation DestinationLBWeightedConsistentHash :: DestinationLBPolicy where
  "DestinationLBWeightedConsistentHash \<equiv> ''WEIGHTED_CONSISTENT_HASH''"
abbreviation DestinationLBSticky :: DestinationLBPolicy where
  "DestinationLBSticky \<equiv> ''STICKY''"

type_synonym RetryCondition = string

abbreviation RetryOnServerError :: RetryCondition where
  "RetryOnServerError \<equiv> ''server-error''"
abbreviation RetryOnConnectionFailure :: RetryCondition where
  "RetryOnConnectionFailure \<equiv> ''connection-failure''"
abbreviation RetryOnGatewayError :: RetryCondition where
  "RetryOnGatewayError \<equiv> ''gateway-error''"
abbreviation RetryOnRetriableCodes :: RetryCondition where
  "RetryOnRetriableCodes \<equiv> ''retriable-codes''"

subsection \<open>Entities\<close>

record AccessLogEntry =
  AccessLogEntry_Fields :: "(string \<rightharpoonup> string)"

record AccessLogConfig =
  AccessLogConfig_Path :: string
  AccessLogConfig_JSON :: bool
  AccessLogConfig_OnRequest :: "AccessLogEntry option"
  AccessLogConfig_OnResponse :: "AccessLogEntry option"

record Endpoint =
  Endpoint_Host :: string
  Endpoint_Port :: uint32

record DestinationTimeouts =
  DestinationTimeouts_Request :: string
  DestinationTimeouts_Connect :: string
  DestinationTimeouts_DualStackFallback :: string
  DestinationTimeouts_TLSHandshake :: string
  DestinationTimeouts_ResponseHeader :: string
  DestinationTimeouts_ExpectContinue :: string
  DestinationTimeouts_IdleConnection :: string

record TLSOptions =
  TLSOptions_Mode :: TLSMode
  TLSOptions_Cert :: string
  TLSOptions_Key :: string
  TLSOptions_CA :: string
  TLSOptions_SNI :: string
  TLSOptions_MinVersion :: string
  TLSOptions_MaxVersion :: string

record RingSizeOptions =
  RingSizeOptions_Min :: uint64
  RingSizeOptions_Max :: uint64

record HashPolicyHeader =
  HashPolicyHeader_Name :: string

record HashPolicyCookie =
  HashPolicyCookie_Name :: string
  HashPolicyCookie_TTL :: string

record HashPolicySourceIP =
  HashPolicySourceIP_Enabled :: bool

record HashPolicy =
  HashPolicy_Header :: "HashPolicyHeader option"
  HashPolicy_Cookie :: "HashPolicyCookie option"
  HashPolicy_SourceIP :: "HashPolicySourceIP option"

record RingHashOptions =
  RingHashOptions_RingSize :: "RingSizeOptions option"
  RingHashOptions_HashPolicy :: "HashPolicy list"

record MaglevOptions =
  MaglevOptions_TableSize :: uint64
  MaglevOptions_HashPolicy :: "HashPolicy list"

record LeastRequestOptions =
  LeastRequestOptions_ChoiceCount :: uint32

record EndpointPinCookie =
  EndpointPinCookie_Name :: string
  EndpointPinCookie_TTL :: string

record EndpointStickyOptions =
  EndpointStickyOptions_Cookie :: "EndpointPinCookie option"

record EndpointBalancing =
  EndpointBalancing_Algorithm :: EndpointLBPolicy
  EndpointBalancing_RingHash :: "RingHashOptions option"
  EndpointBalancing_Maglev :: "MaglevOptions option"
  EndpointBalancing_LeastRequest :: "LeastRequestOptions option"
  EndpointBalancing_Sticky :: "EndpointStickyOptions option"

record CircuitBreakerOptions =
  CircuitBreakerOptions_MaxConnections :: uint32
  CircuitBreakerOptions_MaxPendingRequests :: uint32
  CircuitBreakerOptions_MaxRequests :: uint32
  CircuitBreakerOptions_MaxRetries :: uint32
  CircuitBreakerOptions_FailureThreshold :: uint32
  CircuitBreakerOptions_OpenDuration :: string

record HealthCheckOptions =
  HealthCheckOptions_Path :: string
  HealthCheckOptions_Interval :: string
  HealthCheckOptions_Timeout :: string
  HealthCheckOptions_UnhealthyThreshold :: uint32
  HealthCheckOptions_HealthyThreshold :: uint32

record OutlierDetectionOptions =
  OutlierDetectionOptions_Consecutive5xx :: uint32
  OutlierDetectionOptions_ConsecutiveGatewayErrors :: uint32
  OutlierDetectionOptions_Interval :: string
  OutlierDetectionOptions_BaseEjectionTime :: string
  OutlierDetectionOptions_MaxEjectionPercent :: uint32

record DestinationDiscovery =
  DestinationDiscovery_Type :: DiscoveryType

record DestinationOptions =
  DestinationOptions_Timeouts :: "DestinationTimeouts option"
  DestinationOptions_TLS :: "TLSOptions option"
  DestinationOptions_EndpointBalancing :: "EndpointBalancing option"
  DestinationOptions_CircuitBreaker :: "CircuitBreakerOptions option"
  DestinationOptions_HealthCheck :: "HealthCheckOptions option"
  DestinationOptions_OutlierDetection :: "OutlierDetectionOptions option"
  DestinationOptions_Discovery :: "DestinationDiscovery option"
  DestinationOptions_HTTP2 :: bool
  DestinationOptions_MaxConnsPerHost :: uint32

record Destination =
  Destination_ID :: string
  Destination_Name :: string
  Destination_Host :: string
  Destination_Port :: uint32
  Destination_Endpoints :: "Endpoint list"
  Destination_Options :: "DestinationOptions option"

record DestinationRef =
  DestinationRef_DestinationID :: string
  DestinationRef_Weight :: uint32

record HeaderMatcher =
  HeaderMatcher_Name :: string
  HeaderMatcher_Value :: string
  HeaderMatcher_Regex :: bool

record HeaderValue =
  HeaderValue_Key :: string
  HeaderValue_Value :: string
  HeaderValue_Append :: bool

record HeadersConfig =
  HeadersConfig_RequestHeadersToAdd :: "HeaderValue list"
  HeadersConfig_RequestHeadersToRemove :: "string list"
  HeadersConfig_ResponseHeadersToAdd :: "HeaderValue list"
  HeadersConfig_ResponseHeadersToRemove :: "string list"

record ExtProcPhases =
  ExtProcPhases_RequestHeaders :: PhaseMode
  ExtProcPhases_ResponseHeaders :: PhaseMode
  ExtProcPhases_RequestBody :: BodyMode
  ExtProcPhases_ResponseBody :: BodyMode
  ExtProcPhases_MaxBodyBytes :: int

record ExtProcOverride =
  ExtProcOverride_Phases :: "ExtProcPhases option"
  ExtProcOverride_AllowOnError :: "bool option"

record MiddlewareOverride =
  MiddlewareOverride_Disabled :: bool
  MiddlewareOverride_SkipWhen :: "string list"
  MiddlewareOverride_OnlyWhen :: "string list"
  MiddlewareOverride_Headers :: "HeadersConfig option"
  MiddlewareOverride_ExtProc :: "ExtProcOverride option"

record RetryBackoff =
  RetryBackoff_Base :: string
  RetryBackoff_Max :: string

record RouteRetry =
  RouteRetry_Attempts :: uint32
  RouteRetry_PerAttemptTimeout :: string
  RouteRetry_On :: "RetryCondition list"
  RouteRetry_RetriableCodes :: "uint32 list"
  RouteRetry_Backoff :: "RetryBackoff option"

record RouteGroup =
  RouteGroup_ID :: string
  RouteGroup_Name :: string
  RouteGroup_RouteIDs :: "string list"
  RouteGroup_PathPrefix :: string
  RouteGroup_PathRegex :: string
  RouteGroup_Hostnames :: "string list"
  RouteGroup_Headers :: "HeaderMatcher list"
  RouteGroup_MiddlewareIDs :: "string list"
  RouteGroup_MiddlewareOverrides :: "(string \<rightharpoonup> MiddlewareOverride)"
  RouteGroup_RetryDefault :: "RouteRetry option"
  RouteGroup_IncludeAttemptCount :: bool

record QueryParamMatcher =
  QueryParamMatcher_Name :: string
  QueryParamMatcher_Value :: string
  QueryParamMatcher_Regex :: bool

record MatchRule =
  MatchRule_Path :: string
  MatchRule_PathPrefix :: string
  MatchRule_PathRegex :: string
  MatchRule_Methods :: "string list"
  MatchRule_Hostnames :: "string list"
  MatchRule_Headers :: "HeaderMatcher list"
  MatchRule_QueryParams :: "QueryParamMatcher list"
  MatchRule_GRPC :: bool
  MatchRule_CEL :: string

record InlineAuthzRule =
  InlineAuthzRule_CEL :: string
  InlineAuthzRule_Action :: string

record InlineAuthzConfig =
  InlineAuthzConfig_Rules :: "InlineAuthzRule list"
  InlineAuthzConfig_DefaultAction :: string
  InlineAuthzConfig_DenyStatus :: uint32
  InlineAuthzConfig_DenyBody :: string

record ListenerClientAuth =
  ListenerClientAuth_Mode :: string
  ListenerClientAuth_CA :: string

record ListenerTLS =
  ListenerTLS_Cert :: string
  ListenerTLS_Key :: string
  ListenerTLS_MinVersion :: string
  ListenerTLS_MaxVersion :: string
  ListenerTLS_ClientAuth :: "ListenerClientAuth option"

record MetricsCollectConfig =
  MetricsCollectConfig_Route :: "bool option"
  MetricsCollectConfig_Destination :: "bool option"
  MetricsCollectConfig_Endpoint :: "bool option"
  MetricsCollectConfig_Middleware :: "bool option"
  MetricsCollectConfig_Listener :: "bool option"

record MetricsHistogramConfig =
  MetricsHistogramConfig_DurationBuckets :: "float64 list"
  MetricsHistogramConfig_SizeBuckets :: "float64 list"

record ListenerMetrics =
  ListenerMetrics_Path :: string
  ListenerMetrics_Collect :: "MetricsCollectConfig option"
  ListenerMetrics_Histograms :: "MetricsHistogramConfig option"

record ListenerTimeouts =
  ListenerTimeouts_ClientHeader :: string
  ListenerTimeouts_ClientRequest :: string
  ListenerTimeouts_ClientResponse :: string
  ListenerTimeouts_IdleBetweenRequests :: string

record ProxyErrors =
  ProxyErrors_Detail :: ProxyErrorDetail

record Listener =
  Listener_ID :: string
  Listener_Name :: string
  Listener_Address :: string
  Listener_Port :: uint32
  Listener_TLS :: "ListenerTLS option"
  Listener_HTTP2 :: bool
  Listener_ServerName :: string
  Listener_MaxRequestHeadersKB :: uint32
  Listener_Metrics :: "ListenerMetrics option"
  Listener_Timeouts :: "ListenerTimeouts option"
  Listener_ProxyErrors :: "ProxyErrors option"

record CORSOrigin =
  CORSOrigin_Value :: string
  CORSOrigin_Regex :: bool

record CORSConfig =
  CORSConfig_AllowOrigins :: "CORSOrigin list"
  CORSConfig_AllowMethods :: "string list"
  CORSConfig_AllowHeaders :: "string list"
  CORSConfig_ExposeHeaders :: "string list"
  CORSConfig_MaxAge :: int
  CORSConfig_AllowCredentials :: bool

record JWTClaimHeader =
  JWTClaimHeader_Expr :: string
  JWTClaimHeader_Header :: string

record JWTConfig =
  JWTConfig_Issuer :: string
  JWTConfig_Audiences :: "string list"
  JWTConfig_JWKsPath :: string
  JWTConfig_JWKsDestinationID :: string
  JWTConfig_JWKsInline :: string
  JWTConfig_JWKsRetrievalTimeout :: string
  JWTConfig_ForwardJWT :: bool
  JWTConfig_ClaimToHeaders :: "JWTClaimHeader list"
  JWTConfig_AssertClaims :: "string list"

record ExtAuthzOnCheck =
  ExtAuthzOnCheck_ForwardHeaders :: "string list"
  ExtAuthzOnCheck_InjectHeaders :: "HeaderValue list"

record ExtAuthzOnAllow =
  ExtAuthzOnAllow_CopyToUpstream :: "string list"

record ExtAuthzOnDeny =
  ExtAuthzOnDeny_CopyToClient :: "string list"

record ExtAuthzConfig =
  ExtAuthzConfig_DestinationID :: string
  ExtAuthzConfig_Mode :: string
  ExtAuthzConfig_Path :: string
  ExtAuthzConfig_DecisionTimeout :: string
  ExtAuthzConfig_FailureModeAllow :: bool
  ExtAuthzConfig_IncludeBody :: bool
  ExtAuthzConfig_OnCheck :: "ExtAuthzOnCheck option"
  ExtAuthzConfig_OnAllow :: "ExtAuthzOnAllow option"
  ExtAuthzConfig_OnDeny :: "ExtAuthzOnDeny option"

record MutationRules =
  MutationRules_AllowHeaders :: "string list"
  MutationRules_DenyHeaders :: "string list"

record ForwardRules =
  ForwardRules_AllowHeaders :: "string list"
  ForwardRules_DenyHeaders :: "string list"

record ObserveModeConfig =
  ObserveModeConfig_Enabled :: bool
  ObserveModeConfig_Workers :: int
  ObserveModeConfig_QueueSize :: int

record ExtProcConfig =
  ExtProcConfig_DestinationID :: string
  ExtProcConfig_Mode :: string
  ExtProcConfig_PhaseTimeout :: string
  ExtProcConfig_Phases :: "ExtProcPhases option"
  ExtProcConfig_AllowOnError :: bool
  ExtProcConfig_StatusOnError :: uint32
  ExtProcConfig_AllowedMutations :: "MutationRules option"
  ExtProcConfig_ForwardRules :: "ForwardRules option"
  ExtProcConfig_DisableReject :: bool
  ExtProcConfig_ObserveMode :: "ObserveModeConfig option"
  ExtProcConfig_MetricsPrefix :: string

record RateLimitConfig =
  RateLimitConfig_RequestsPerSecond :: float64
  RateLimitConfig_Burst :: int
  RateLimitConfig_TrustedProxies :: "string list"

record Middleware =
  Middleware_ID :: string
  Middleware_Name :: string
  Middleware_Type :: MiddlewareType
  Middleware_CORS :: "CORSConfig option"
  Middleware_JWT :: "JWTConfig option"
  Middleware_ExtAuthz :: "ExtAuthzConfig option"
  Middleware_ExtProc :: "ExtProcConfig option"
  Middleware_RateLimit :: "RateLimitConfig option"
  Middleware_Headers :: "HeadersConfig option"
  Middleware_AccessLog :: "AccessLogConfig option"
  Middleware_InlineAuthz :: "InlineAuthzConfig option"

record DestinationPinCookie =
  DestinationPinCookie_Name :: string
  DestinationPinCookie_TTL :: string

record WeightedConsistentHashOptions =
  WeightedConsistentHashOptions_Cookie :: "DestinationPinCookie option"

record StickyOptions =
  StickyOptions_Cookie :: "DestinationPinCookie option"

record DestinationBalancing =
  DestinationBalancing_Algorithm :: DestinationLBPolicy
  DestinationBalancing_WeightedConsistentHash :: "WeightedConsistentHashOptions option"
  DestinationBalancing_Sticky :: "StickyOptions option"

record RouteTimeouts =
  RouteTimeouts_Request :: string

record RewriteRegex =
  RewriteRegex_Pattern :: string
  RewriteRegex_Substitution :: string

record RouteRewrite =
  RouteRewrite_Path :: string
  RouteRewrite_PathRegex :: "RewriteRegex option"
  RouteRewrite_Host :: string
  RouteRewrite_HostFromHeader :: string
  RouteRewrite_AutoHost :: bool

record RouteMirror =
  RouteMirror_DestinationID :: string
  RouteMirror_Percentage :: uint32

record ForwardAction =
  ForwardAction_Destinations :: "DestinationRef list"
  ForwardAction_DestinationBalancing :: "DestinationBalancing option"
  ForwardAction_Timeouts :: "RouteTimeouts option"
  ForwardAction_Retry :: "RouteRetry option"
  ForwardAction_Rewrite :: "RouteRewrite option"
  ForwardAction_Mirror :: "RouteMirror option"
  ForwardAction_MaxGRPCTimeout :: string

record RouteRedirect =
  RouteRedirect_URL :: string
  RouteRedirect_Scheme :: string
  RouteRedirect_Host :: string
  RouteRedirect_Path :: string
  RouteRedirect_StripQuery :: bool
  RouteRedirect_Code :: uint32

record RouteDirectResponse =
  RouteDirectResponse_Status :: uint32
  RouteDirectResponse_Body :: string

record Route =
  Route_ID :: string
  Route_Name :: string
  Route_Match :: MatchRule
  Route_Forward :: "ForwardAction option"
  Route_Redirect :: "RouteRedirect option"
  Route_DirectResponse :: "RouteDirectResponse option"
  Route_MiddlewareIDs :: "string list"
  Route_MiddlewareOverrides :: "(string \<rightharpoonup> MiddlewareOverride)"

record Secret =
  Secret_ID :: string
  Secret_Name :: string
  Secret_Value :: string

record SecretSummary =
  SecretSummary_ID :: string
  SecretSummary_Name :: string

record Snapshot =
  Snapshot_Listeners :: "Listener list"
  Snapshot_Routes :: "Route list"
  Snapshot_Groups :: "RouteGroup list"
  Snapshot_Destinations :: "Destination list"
  Snapshot_Middlewares :: "Middleware list"

record VersionedSnapshot =
  VersionedSnapshot_ID :: string
  VersionedSnapshot_Name :: string
  VersionedSnapshot_CreatedAt :: time
  VersionedSnapshot_Snapshot :: Snapshot

record SnapshotSummary =
  SnapshotSummary_ID :: string
  SnapshotSummary_Name :: string
  SnapshotSummary_CreatedAt :: time
  SnapshotSummary_Active :: bool

subsection \<open>Methods of the entities\<close>

definition ResolvedEndpoints :: "Destination \<Rightarrow> Endpoint list" where
  "ResolvedEndpoints d =
     (if length (Destination_Endpoints d) > 0 then Destination_Endpoints d
      else [\<lparr>Endpoint_Host = Destination_Host d, Endpoint_Port = Destination_Port d\<rparr>])"

definition ResolvedPath :: "ListenerMetrics \<Rightarrow> string" where
  "ResolvedPath m = (if ListenerMetrics_Path m \<noteq> '''' then ListenerMetrics_Path m else ''/metrics'')"

definition collectFlag ::
  "(MetricsCollectConfig \<Rightarrow> bool option) \<Rightarrow> bool \<Rightarrow> ListenerMetrics \<Rightarrow> bool" where
  "collectFlag field dflt m =
     (case ListenerMetrics_Collect m of
        None \<Rightarrow> dflt
      | Some c \<Rightarrow> (case field c of None \<Rightarrow> dflt | Some b \<Rightarrow> b))"

definition CollectRoute :: "ListenerMetrics \<Rightarrow> bool" where
  "CollectRoute = collectFlag MetricsCollectConfig_Route True"

definition CollectDestination :: "ListenerMetrics \<Rightarrow> bool" where
  "CollectDestination = collectFlag MetricsCollectConfig_Destination True"

definition CollectEndpoint :: "ListenerMetrics \<Rightarrow> bool" where
  "CollectEndpoint = collectFlag MetricsCollectConfig_Endpoint False"

definition CollectMiddleware :: "ListenerMetrics \<Rightarrow> bool" where
  "CollectMiddleware = collectFlag MetricsCollectConfig_Middleware True"

definition CollectListener :: "ListenerMetrics \<Rightarrow> bool" where
  "CollectListener = collectFlag MetricsCollectConfig_Listener True"

definition bucketsOr ::
  "(MetricsHistogramConfig \<Rightarrow> float64 list) \<Rightarrow> float64 list \<Rightarrow> ListenerMetrics \<Rightarrow> float64 list" where
  "bucketsOr field dflt m =
     (case ListenerMetrics_Histograms m of
        Some h \<Rightarrow> if length (field h) > 0 then field h else dflt
      | None \<Rightarrow> dflt)"

definition ResolvedDurationBuckets :: "ListenerMetrics \<Rightarrow> float64 list" where
  "ResolvedDurationBuckets =
     bucketsOr MetricsHistogramConfig_DurationBuckets
       [0x3f747ae147ae147b, 0x3f847ae147ae147b, 0x3f9999999999999a, 0x3fa999999999999a,
        0x3fb999999999999a, 0x3fd0000000000000, 0x3fe0000000000000, 0x3ff0000000000000,
        0x4004000000000000, 0x4014000000000000, 0x4024000000000000]"

definition ResolvedSizeBuckets :: "ListenerMetrics \<Rightarrow> float64 list" where
  "ResolvedSizeBuckets =
     bucketsOr MetricsHistogramConfig_SizeBuckets
       [0x4059000000000000, 0x408f400000000000, 0x40c3880000000000, 0x40f86a0000000000,
        0x412e848000000000]"

definition ResolvedDetail :: "ProxyErrors option \<Rightarrow> ProxyErrorDetail" where
  "ResolvedDetail pe =
     (case pe of
        None \<Rightarrow> ProxyErrorDetailStandard
      | Some p \<Rightarrow> if ProxyErrors_Detail p = '''' then ProxyErrorDetailStandard
                  else ProxyErrors_Detail p)"

lemma ResolvedEndpoints_nonempty: "ResolvedEndpoints d \<noteq> []"
  by (simp add: ResolvedEndpoints_def)

lemma ResolvedDetail_nonempty: "ResolvedDetail pe \<noteq> ''''"
  by (simp add: ResolvedDetail_def split: option.split)

end
