(* ===== verification/Hash_Ring.thy ===== *)
theory Hash_Ring
  imports Model
begin

text \<open>
  The weighted consistent hash ring of \<^verbatim>\<open>server/internal/proxy/pinning.go\<close>, used to pin a
  client to a destination. The ring is a list of virtual nodes sorted by hash; a lookup finds
  the first node at or after the key by binary search and wraps around. The lemmas describe a
  lookup as a walk over the ring in clockwise order, and show that excluding destinations, adding
  them or raising a weight moves only the clients it has to.
\<close>

subsection \<open>Definitions\<close>

record ringNode =
  ringNode_hash :: uint32
  ringNode_destID :: string

record destinationRing =
  ring_entries :: "ringNode list"

definition vnodeMultiplier :: nat where
  "vnodeMultiplier = 100"

text \<open>The digits are appended least significant first and the buffer is reversed in place.\<close>

fun itoa_digits :: "nat \<Rightarrow> string \<Rightarrow> string" where
  "itoa_digits n buf = (if n > 0 then itoa_digits (n div 10) (buf @ [char_of (48 + n mod 10)]) else buf)"

declare itoa_digits.simps [simp del]

function itoa_swap :: "nat \<Rightarrow> nat \<Rightarrow> string \<Rightarrow> string" where
  "itoa_swap i j buf =
     (if i < j then itoa_swap (i + 1) (j - 1) (buf[i := buf ! j, j := buf ! i]) else buf)"
  by pat_completeness auto
termination
  by (relation "measure (\<lambda>(i, j, buf). j - i)") auto

declare itoa_swap.simps [simp del]

definition itoa :: "nat \<Rightarrow> string" where
  "itoa n =
     (if n < 10 then [char_of (48 + n)]
      else let buf = itoa_digits n [] in itoa_swap 0 (length buf - 1) buf)"

definition vnodes :: "DestinationRef \<Rightarrow> nat" where
  "vnodes b =
     (let v = unat (DestinationRef_Weight b) * vnodeMultiplier in if v < 1 then 1 else v)"

definition vnode :: "string \<Rightarrow> nat \<Rightarrow> ringNode" where
  "vnode d i = \<lparr>ringNode_hash = checksumIEEE (d @ '':'' @ itoa i), ringNode_destID = d\<rparr>"

definition ringNodes :: "DestinationRef list \<Rightarrow> ringNode list" where
  "ringNodes dests =
     concat (map (\<lambda>b. map (vnode (DestinationRef_DestinationID b)) [0..<vnodes b]) dests)"

definition buildDestinationRing ::
  "((ringNode \<Rightarrow> uint32) \<Rightarrow> ringNode list \<Rightarrow> ringNode list) \<Rightarrow> DestinationRef list \<Rightarrow> destinationRing" where
  "buildDestinationRing srt dests =
     (if length dests = 0 then \<lparr>ring_entries = []\<rparr>
      else \<lparr>ring_entries = srt ringNode_hash (ringNodes dests)\<rparr>)"

definition ring_search :: "('a \<Rightarrow> uint32) \<Rightarrow> 'a list \<Rightarrow> uint32 \<Rightarrow> nat" where
  "ring_search key es h = sortSearch (length es) (\<lambda>i. key (es ! i) \<ge> h)"

definition ring_Pick :: "destinationRing \<Rightarrow> uint32 \<Rightarrow> string" where
  "ring_Pick dr hashKey =
     (let es = ring_entries dr in
      if length es = 0 then ''''
      else let idx = ring_search ringNode_hash es hashKey;
               idx = (if idx \<ge> length es then 0 else idx)
           in ringNode_destID (es ! idx))"

fun ring_walk :: "nat \<Rightarrow> ringNode list \<Rightarrow> nat \<Rightarrow> (string \<rightharpoonup> bool) \<Rightarrow> string" where
  "ring_walk 0 es idx valid = ''''"
| "ring_walk (Suc k) es idx valid =
     (let idx = (if idx \<ge> length es then 0 else idx) in
      if mapBool valid (ringNode_destID (es ! idx)) then ringNode_destID (es ! idx)
      else ring_walk k es (idx + 1) valid)"

definition ring_PickValid :: "destinationRing \<Rightarrow> uint32 \<Rightarrow> (string \<rightharpoonup> bool) \<Rightarrow> string" where
  "ring_PickValid dr hashKey valid =
     (let es = ring_entries dr in
      if length es = 0 then ''''
      else ring_walk (length es) es (ring_search ringNode_hash es hashKey) valid)"

subsection \<open>Clockwise order\<close>

text \<open>The entries of a ring in the order a lookup of \<open>h\<close> visits them.\<close>

definition clockwise :: "('a \<Rightarrow> uint32) \<Rightarrow> uint32 \<Rightarrow> 'a list \<Rightarrow> 'a list" where
  "clockwise key h es = filter (\<lambda>e. h \<le> key e) es @ filter (\<lambda>e. key e < h) es"

lemma clockwise_filter: "clockwise key h (filter P es) = filter P (clockwise key h es)"
  by (simp add: clockwise_def conj_commute)

lemma set_clockwise [simp]: "set (clockwise key h es) = set es"
  by (auto simp: clockwise_def)

lemma clockwise_Nil_iff [simp]: "clockwise key h es = [] \<longleftrightarrow> es = []"
  by (metis set_clockwise set_empty)

lemma takeWhile_sorted:
  "sorted (map key es) \<Longrightarrow> takeWhile (\<lambda>e. key e < h) es = filter (\<lambda>e. key e < (h :: uint32)) es"
proof (induction es)
  case (Cons e es)
  then show ?case
    by (auto simp: not_less intro!: filter_False [symmetric]) (meson leD order_trans)
qed simp

lemma dropWhile_sorted:
  "sorted (map key es) \<Longrightarrow> dropWhile (\<lambda>e. key e < h) es = filter (\<lambda>e. (h :: uint32) \<le> key e) es"
proof (induction es)
  case (Cons e es)
  then show ?case by (auto simp: not_less intro!: filter_True [symmetric] intro: order_trans)
qed simp

lemma ring_search_sorted:
  assumes "sorted (map key es)"
  shows "ring_search key es h = length (takeWhile (\<lambda>e. key e < h) es)"
  unfolding ring_search_def by (rule sortSearch_sorted [OF assms])

lemma clockwise_rotate:
  assumes "sorted (map key es)"
  shows "clockwise key h es = drop (ring_search key es h) es @ take (ring_search key es h) es"
  unfolding clockwise_def ring_search_sorted [OF assms]
  by (simp only: takeWhile_eq_take [symmetric] dropWhile_eq_drop [symmetric])
    (simp only: takeWhile_sorted [OF assms] dropWhile_sorted [OF assms])

lemma ring_search_le: "ring_search key es h \<le> length es"
  by (simp add: ring_search_def sortSearch_le)

lemma ring_index:
  assumes "sorted (map key es)" and "es \<noteq> []"
  shows "es ! (if ring_search key es h \<ge> length es then 0 else ring_search key es h) =
    hd (clockwise key h es)"
proof (cases "ring_search key es h \<ge> length es")
  case True
  then show ?thesis using assms by (simp add: clockwise_rotate hd_conv_nth)
next
  case False
  then show ?thesis using assms by (simp add: clockwise_rotate hd_append hd_drop_conv_nth)
qed

subsection \<open>itoa\<close>

lemma itoa_digits_eq: "0 < n \<Longrightarrow> itoa_digits n buf = buf @ map digit_char (digits_rev n)"
proof (induction n buf rule: itoa_digits.induct)
  case (1 n buf)
  show ?case
  proof (cases "n < 10")
    case True
    with "1.prems" show ?thesis
      by (simp add: itoa_digits.simps [of n] itoa_digits.simps [of 0] digits_rev.simps [of n]
          digit_char_def)
  next
    case False
    with 1 show ?thesis
      by (simp add: itoa_digits.simps [of n] digits_rev.simps [of n] digit_char_def)
  qed
qed

lemma itoa_swap_nth:
  assumes "j < length buf"
  shows "length (itoa_swap i j buf) = length buf \<and>
    (\<forall>k < length buf. itoa_swap i j buf ! k = (if i \<le> k \<and> k \<le> j then buf ! (i + j - k) else buf ! k))"
  using assms
proof (induction i j buf rule: itoa_swap.induct)
  case (1 i j buf)
  show ?case
  proof (cases "i < j")
    case False
    then have "i + j - k = k" if "i \<le> k" "k \<le> j" for k using that by simp
    with False show ?thesis by (auto simp: itoa_swap.simps [of i j])
  next
    case True
    define buf' where "buf' = buf[i := buf ! j, j := buf ! i]"
    have len: "length buf' = length buf" by (simp add: buf'_def)
    have step: "itoa_swap i j buf = itoa_swap (i + 1) (j - 1) buf'"
      using True by (simp add: itoa_swap.simps [of i j] buf'_def)
    have IH: "length (itoa_swap (i + 1) (j - 1) buf') = length buf'"
      "\<And>k. k < length buf' \<Longrightarrow> itoa_swap (i + 1) (j - 1) buf' ! k =
         (if i + 1 \<le> k \<and> k \<le> j - 1 then buf' ! (i + 1 + (j - 1) - k) else buf' ! k)"
      using "1.IH" [OF True] "1.prems" True by (simp_all add: buf'_def)
    have "itoa_swap i j buf ! k = (if i \<le> k \<and> k \<le> j then buf ! (i + j - k) else buf ! k)"
      if k: "k < length buf" for k
      using True k "1.prems" IH(2) [of k] len unfolding step
      by (auto simp: buf'_def nth_list_update)
    then show ?thesis using IH(1) len step by simp
  qed
qed

lemma itoa_swap_rev:
  assumes "buf \<noteq> []" shows "itoa_swap 0 (length buf - 1) buf = rev buf"
  using assms itoa_swap_nth [of "length buf - 1" buf 0]
  by (intro nth_equalityI) (auto simp: rev_nth)

lemma itoa_decimal: "itoa n = decimal n"
proof (cases "n < 10")
  case True
  then show ?thesis by (simp add: itoa_def decimal_def digits_rev.simps [of n] digit_char_def)
next
  case False
  then have "itoa_digits n [] = map digit_char (digits_rev n)" by (simp add: itoa_digits_eq)
  moreover have "map digit_char (digits_rev n) \<noteq> []" by (simp add: digits_rev.simps [of n])
  ultimately show ?thesis using False itoa_swap_rev [of "map digit_char (digits_rev n)"]
    by (simp add: itoa_def decimal_def Let_def rev_map)
qed

subsection \<open>Lookups\<close>

lemma ring_Pick_hd:
  assumes "sorted (map ringNode_hash (ring_entries dr))" and "ring_entries dr \<noteq> []"
  shows "ring_Pick dr h = ringNode_destID (hd (clockwise ringNode_hash h (ring_entries dr)))"
  using assms by (simp add: ring_Pick_def Let_def ring_index [OF assms, symmetric])

lemma take_rotate_step:
  assumes "i < length es" and "k < length es"
  shows "take (Suc k) (drop i es @ take i es) =
    es ! i # take k (drop (Suc i) es @ take (Suc i) es)"
  using assms by (simp add: Cons_nth_drop_Suc [symmetric] take_Suc_conv_app_nth)

lemma ring_walk_find:
  assumes "k \<le> length es" and "idx \<le> length es"
  shows "ring_walk k es idx valid =
    (case find (\<lambda>e. mapBool valid (ringNode_destID e)) (take k (drop idx es @ take idx es)) of
       None \<Rightarrow> '''' | Some e \<Rightarrow> ringNode_destID e)"
  using assms
proof (induction k arbitrary: idx)
  case (Suc k)
  define i where "i = (if idx \<ge> length es then 0 else idx)"
  have i: "i < length es" and rot: "drop idx es @ take idx es = drop i es @ take i es"
    using Suc.prems by (auto simp: i_def)
  have step: "ring_walk (Suc k) es idx valid =
      (if mapBool valid (ringNode_destID (es ! i)) then ringNode_destID (es ! i)
       else ring_walk k es (i + 1) valid)"
    by (simp add: i_def Let_def)
  show ?case unfolding step rot take_rotate_step [OF i Suc_le_lessD [OF Suc.prems(1)]]
    using Suc.IH [of "i + 1"] Suc.prems i by simp
qed simp

lemma ring_PickValid_find:
  assumes "sorted (map ringNode_hash (ring_entries dr))"
  shows "ring_PickValid dr h valid =
    (case find (\<lambda>e. mapBool valid (ringNode_destID e)) (clockwise ringNode_hash h (ring_entries dr)) of
       None \<Rightarrow> '''' | Some e \<Rightarrow> ringNode_destID e)"
proof -
  let ?es = "ring_entries dr" and ?i = "ring_search ringNode_hash (ring_entries dr) h"
  have "take (length ?es) (drop ?i ?es @ take ?i ?es) = drop ?i ?es @ take ?i ?es"
    using ring_search_le [of ringNode_hash ?es h] by (intro take_all) simp
  then show ?thesis
    using ring_walk_find [OF order_refl ring_search_le, of ?es ringNode_hash h valid]
    by (simp add: ring_PickValid_def Let_def clockwise_rotate [OF assms])
qed

lemma find_hd_filter: "find P xs = (if filter P xs = [] then None else Some (hd (filter P xs)))"
  by (induction xs) auto

lemma ring_PickValid_filter:
  assumes "sorted (map ringNode_hash (ring_entries dr))"
  shows "ring_PickValid dr h valid =
    ring_Pick \<lparr>ring_entries = filter (\<lambda>e. mapBool valid (ringNode_destID e)) (ring_entries dr)\<rparr> h"
    (is "_ = ring_Pick ?dr h")
proof (cases "ring_entries ?dr = []")
  case True
  then have "find (\<lambda>e. mapBool valid (ringNode_destID e)) (clockwise ringNode_hash h (ring_entries dr)) = None"
    by (simp add: find_None_iff filter_empty_conv)
  with True show ?thesis by (simp add: ring_PickValid_find [OF assms] ring_Pick_def)
next
  case False
  moreover have "sorted (map ringNode_hash (ring_entries ?dr))"
    using assms by (simp add: sorted_filter)
  ultimately show ?thesis
    by (simp add: ring_PickValid_find [OF assms] ring_Pick_hd clockwise_filter find_hd_filter)
      (metis clockwise_Nil_iff clockwise_filter)
qed

subsection \<open>Growing a ring\<close>

lemma clockwise_growth:
  assumes s: "sorted (map ringNode_hash es)" and s': "sorted (map ringNode_hash es')"
    and dist: "distinct (map ringNode_hash es')"
    and m: "mset es' = mset es + mset extra"
    and d: "\<And>e. e \<in> set extra \<Longrightarrow> ringNode_destID e = d" and ne: "es \<noteq> []"
  shows "ringNode_destID (hd (clockwise ringNode_hash h es')) \<in>
    {ringNode_destID (hd (clockwise ringNode_hash h es)), d}"
proof -
  let ?P = "\<lambda>e. e \<in> set es"
  have "mset (map ringNode_hash es') = mset (map ringNode_hash (es @ extra))" using m by simp
  then have "distinct (map ringNode_hash (es @ extra))" using dist mset_eq_imp_distinct_iff by blast
  then have dist_es: "distinct (map ringNode_hash es)" by simp
  have set_eq: "set es' = set es \<union> set extra"
    using m by (metis set_mset_mset set_mset_union)
  have es_eq: "es = filter ?P es'"
  proof (rule map_sorted_distinct_set_unique [of ringNode_hash])
    show "inj_on ringNode_hash (set es \<union> set (filter ?P es'))"
      using dist set_eq by (auto simp: distinct_map intro: inj_on_subset)
    show "distinct (map ringNode_hash (filter ?P es'))" using dist by (simp add: distinct_map_filter)
    show "sorted (map ringNode_hash (filter ?P es'))" using s' by (rule sorted_filter)
    show "set es = set (filter ?P es')" using set_eq by auto
  qed (use s dist_es in simp_all)
  have ne': "clockwise ringNode_hash h es' \<noteq> []" using set_eq ne by auto
  then obtain e rest where cw: "clockwise ringNode_hash h es' = e # rest"
    by (cases "clockwise ringNode_hash h es'") auto
  have cw_es: "clockwise ringNode_hash h es = filter ?P (e # rest)"
    by (metis clockwise_filter cw es_eq)
  have "e \<in> set es \<union> set extra" using cw set_eq by (metis list.set_intros(1) set_clockwise)
  then show ?thesis
    using d cw cw_es by (cases "e \<in> set es") auto
qed

text \<open>What the pinning code relies on of the sorting function, and what it then gets of a ring.\<close>

locale ring_sort = slice_sort srt
  for srt :: "(ringNode \<Rightarrow> uint32) \<Rightarrow> ringNode list \<Rightarrow> ringNode list"
begin

lemma build_mset: "mset (ring_entries (buildDestinationRing srt dests)) = mset (ringNodes dests)"
  by (simp add: buildDestinationRing_def mset_srt ringNodes_def)

lemma build_sorted: "sorted (map ringNode_hash (ring_entries (buildDestinationRing srt dests)))"
  by (simp add: buildDestinationRing_def sorted_srt)

lemma build_set: "set (ring_entries (buildDestinationRing srt dests)) = set (ringNodes dests)"
  by (rule mset_eq_setD [OF build_mset])

lemma build_nonempty: "ringNodes dests \<noteq> [] \<Longrightarrow> ring_entries (buildDestinationRing srt dests) \<noteq> []"
  using build_set [of dests] by auto

lemma build_growth:
  assumes "mset (ringNodes dests') = mset (ringNodes dests) + mset extra"
    and "\<And>e. e \<in> set extra \<Longrightarrow> ringNode_destID e = d"
    and "distinct (map ringNode_hash (ringNodes dests'))" and "ringNodes dests \<noteq> []"
  shows "ring_Pick (buildDestinationRing srt dests') h \<in> {ring_Pick (buildDestinationRing srt dests) h, d}"
proof -
  have "mset (map ringNode_hash (ring_entries (buildDestinationRing srt dests'))) =
      mset (map ringNode_hash (ringNodes dests'))"
    by (simp add: build_mset)
  then have dist: "distinct (map ringNode_hash (ring_entries (buildDestinationRing srt dests')))"
    using assms(3) mset_eq_imp_distinct_iff by blast
  have m: "mset (ring_entries (buildDestinationRing srt dests')) =
      mset (ring_entries (buildDestinationRing srt dests)) + mset extra"
    by (simp add: build_mset assms(1))
  have ne: "ring_entries (buildDestinationRing srt dests) \<noteq> []"
    by (rule build_nonempty [OF assms(4)])
  moreover have "ring_entries (buildDestinationRing srt dests') \<noteq> []"
    using ne m by auto
  ultimately show ?thesis
    using clockwise_growth [OF build_sorted build_sorted dist m assms(2) ne]
    by (simp add: ring_Pick_hd [OF build_sorted])
qed

end

interpretation stable_ring: ring_sort sort_key
  by unfold_locales

lemma vnodes_pos: "0 < vnodes b"
  by (simp add: vnodes_def Let_def)

lemma ringNodes_Nil_iff [simp]: "ringNodes dests = [] \<longleftrightarrow> dests = []"
  using vnodes_pos by (cases dests) (auto simp: ringNodes_def)

lemma ringNodes_simps [simp]:
  "ringNodes [] = []"
  "ringNodes (b # bs) = map (vnode (DestinationRef_DestinationID b)) [0..<vnodes b] @ ringNodes bs"
  "ringNodes (xs @ ys) = ringNodes xs @ ringNodes ys"
  by (simp_all add: ringNodes_def)

lemma vnode_destID [simp]: "ringNode_destID (vnode d i) = d"
  by (simp add: vnode_def)

lemma ringNodes_destIDs: "ringNode_destID ` set (ringNodes dests) = DestinationRef_DestinationID ` set dests"
proof (induction dests)
  case (Cons b bs)
  have "set [0..<vnodes b] \<noteq> {}" using vnodes_pos [of b] by simp
  then have "(\<lambda>i. DestinationRef_DestinationID b) ` set [0..<vnodes b] = {DestinationRef_DestinationID b}"
    by (simp add: image_constant_conv)
  with Cons show ?case by (simp add: image_Un image_image)
qed simp

lemma count_ringNodes:
  "length (filter (\<lambda>e. ringNode_destID e = d) (ringNodes dests)) =
     sum_list (map vnodes (filter (\<lambda>b. DestinationRef_DestinationID b = d) dests))"
  by (induction dests) (simp_all add: comp_def)

lemma vnodes_mono:
  assumes "w \<le> w'"
  shows "vnodes \<lparr>DestinationRef_DestinationID = d, DestinationRef_Weight = w\<rparr> \<le>
    vnodes \<lparr>DestinationRef_DestinationID = d, DestinationRef_Weight = w'\<rparr>"
  using word_le_nat_alt [THEN iffD1, OF assms] by (simp add: vnodes_def vnodeMultiplier_def Let_def)

lemma ringNodes_grow:
  assumes "bs = [] \<or> (\<exists>w \<le> w'. bs = [\<lparr>DestinationRef_DestinationID = d, DestinationRef_Weight = w\<rparr>])"
  shows "\<exists>extra. (\<forall>e\<in>set extra. ringNode_destID e = d) \<and>
    mset (ringNodes (xs @ \<lparr>DestinationRef_DestinationID = d, DestinationRef_Weight = w'\<rparr> # ys)) =
    mset (ringNodes (xs @ bs @ ys)) + mset extra"
proof -
  let ?v' = "vnodes \<lparr>DestinationRef_DestinationID = d, DestinationRef_Weight = w'\<rparr>"
  obtain v where v: "v \<le> ?v'" "ringNodes bs = map (vnode d) [0..<v]"
    using assms vnodes_mono by (cases "bs = []") (force intro: that [of 0])+
  have "[0..<?v'] = [0..<v] @ [v..<?v']"
    using upt_add_eq_append [of 0 v "?v' - v"] v(1) by simp
  then have "mset (ringNodes (xs @ \<lparr>DestinationRef_DestinationID = d, DestinationRef_Weight = w'\<rparr> # ys)) =
    mset (ringNodes (xs @ bs @ ys)) + mset (map (vnode d) [v..<?v'])"
    by (simp add: v(2))
  moreover have "\<forall>e\<in>set (map (vnode d) [v..<?v']). ringNode_destID e = d" by simp
  ultimately show ?thesis by blast
qed

subsection \<open>Properties\<close>

text \<open>C20: Selecting a pinned destination among the valid ones is the plain lookup on the ring from
  which the virtual nodes of every other destination have been removed. So a client whose
  destination is valid is never moved by another destination leaving, and the result is empty
  exactly when no destination on the ring is valid.\<close>

theorem PickValid_restricts_ring:
  assumes "ring_sort srt"
  shows "ring_PickValid (buildDestinationRing srt dests) h valid =
    ring_Pick \<lparr>ring_entries = filter (\<lambda>e. mapBool valid (ringNode_destID e))
                 (ring_entries (buildDestinationRing srt dests))\<rparr> h"
  by (rule ring_PickValid_filter [OF ring_sort.build_sorted [OF assms]])

theorem PickValid_restricts_ring_witness:
  "ring_PickValid (buildDestinationRing sort_key
     [\<lparr>DestinationRef_DestinationID = ''a'', DestinationRef_Weight = 0\<rparr>,
      \<lparr>DestinationRef_DestinationID = ''b'', DestinationRef_Weight = 0\<rparr>]) 7 [''b'' \<mapsto> True] =
   ring_Pick \<lparr>ring_entries = filter (\<lambda>e. mapBool [''b'' \<mapsto> True] (ringNode_destID e))
     (ring_entries (buildDestinationRing sort_key
       [\<lparr>DestinationRef_DestinationID = ''a'', DestinationRef_Weight = 0\<rparr>,
        \<lparr>DestinationRef_DestinationID = ''b'', DestinationRef_Weight = 0\<rparr>]))\<rparr> 7"
  by (rule PickValid_restricts_ring) (rule stable_ring.ring_sort_axioms)

text \<open>C21: Adding a destination to the ring, or raising its weight (the hashes of the virtual nodes
  being distinct), keeps every client where it was or moves it to that destination. This is the
  consistency property of the ring: a weight change moves only the clients of the ring space
  that changes owner.\<close>

theorem growth_moves_only_to_grown:
  assumes "ring_sort srt"
    and "bs = [] \<or> (\<exists>w \<le> w'. bs = [\<lparr>DestinationRef_DestinationID = d, DestinationRef_Weight = w\<rparr>])"
    and "xs @ bs @ ys \<noteq> []"
    and "distinct (map ringNode_hash
           (ringNodes (xs @ \<lparr>DestinationRef_DestinationID = d, DestinationRef_Weight = w'\<rparr> # ys)))"
  shows "ring_Pick (buildDestinationRing srt
           (xs @ \<lparr>DestinationRef_DestinationID = d, DestinationRef_Weight = w'\<rparr> # ys)) h \<in>
         {ring_Pick (buildDestinationRing srt (xs @ bs @ ys)) h, d}"
proof -
  obtain extra where "\<And>e. e \<in> set extra \<Longrightarrow> ringNode_destID e = d"
    and "mset (ringNodes (xs @ \<lparr>DestinationRef_DestinationID = d, DestinationRef_Weight = w'\<rparr> # ys)) =
      mset (ringNodes (xs @ bs @ ys)) + mset extra"
    using ringNodes_grow [OF assms(2)] by blast
  then show ?thesis
    by (intro ring_sort.build_growth [OF assms(1) _ _ assms(4)])
      (use assms(3) ringNodes_Nil_iff [of "xs @ bs @ ys"] in auto)
qed

theorem growth_moves_only_to_grown_witness:
  "ring_Pick (buildDestinationRing sort_key
     ([\<lparr>DestinationRef_DestinationID = ''a'', DestinationRef_Weight = 0\<rparr>] @
      \<lparr>DestinationRef_DestinationID = ''b'', DestinationRef_Weight = 0\<rparr> # [])) 5 \<in>
   {ring_Pick (buildDestinationRing sort_key
     ([\<lparr>DestinationRef_DestinationID = ''a'', DestinationRef_Weight = 0\<rparr>] @ [] @ [])) 5, ''b''}"
  by (rule growth_moves_only_to_grown [OF stable_ring.ring_sort_axioms])
    (simp_all add: vnode_def vnodes_def itoa_decimal decimal_def digits_rev.simps go_simps)

text \<open>A built ring is sorted by hash and gives every destination exactly the number of virtual
  nodes its weight asks for: one hundred per unit of weight, and one for a weight of zero.\<close>

theorem build_ring_share:
  assumes "ring_sort srt"
  shows "sorted (map ringNode_hash (ring_entries (buildDestinationRing srt dests))) \<and>
    length (filter (\<lambda>e. ringNode_destID e = d) (ring_entries (buildDestinationRing srt dests))) =
      sum_list (map (\<lambda>b. max 1 (100 * unat (DestinationRef_Weight b)))
        (filter (\<lambda>b. DestinationRef_DestinationID b = d) dests))"
proof -
  have v: "vnodes = (\<lambda>b. max 1 (100 * unat (DestinationRef_Weight b)))"
    by (auto simp: vnodes_def vnodeMultiplier_def Let_def max_def)
  have "length (filter (\<lambda>e. ringNode_destID e = d) (ring_entries (buildDestinationRing srt dests))) =
      length (filter (\<lambda>e. ringNode_destID e = d) (ringNodes dests))"
    by (metis ring_sort.build_mset [OF assms] mset_filter size_mset)
  then show ?thesis
    using ring_sort.build_sorted [OF assms] by (simp add: count_ringNodes v)
qed

theorem build_ring_share_witness:
  "length (filter (\<lambda>e. ringNode_destID e = ''a'') (ring_entries (buildDestinationRing sort_key
     [\<lparr>DestinationRef_DestinationID = ''a'', DestinationRef_Weight = 3\<rparr>,
      \<lparr>DestinationRef_DestinationID = ''b'', DestinationRef_Weight = 0\<rparr>]))) = 300"
  using build_ring_share [OF stable_ring.ring_sort_axioms, of
     "[\<lparr>DestinationRef_DestinationID = ''a'', DestinationRef_Weight = 3\<rparr>,
       \<lparr>DestinationRef_DestinationID = ''b'', DestinationRef_Weight = 0\<rparr>]" "''a''"]
  by simp

end
