(* ===== verification/Go_Net.thy ===== *)
theory Go_Net
  imports Go_Prelude
begin

text \<open>
  What the gateway uses of Go's \<^verbatim>\<open>net\<close> and \<^verbatim>\<open>net/http\<close> packages: the request with its
  header map under canonical keys, cookies, and the splitting of a host and port. The URL query and
  the cookies are the already parsed values that \<^verbatim>\<open>URL.Query()\<close> and \<^verbatim>\<open>Request.Cookie\<close> read.
\<close>

subsection \<open>Characters\<close>

definition isLower :: "char \<Rightarrow> bool" where
  "isLower c \<longleftrightarrow> 97 \<le> (of_char c :: nat) \<and> (of_char c :: nat) \<le> 122"

definition isUpper :: "char \<Rightarrow> bool" where
  "isUpper c \<longleftrightarrow> 65 \<le> (of_char c :: nat) \<and> (of_char c :: nat) \<le> 90"

definition toUpperChar :: "char \<Rightarrow> char" where
  "toUpperChar c = (if isLower c then char_of ((of_char c :: nat) - 32) else c)"

definition toLowerChar :: "char \<Rightarrow> char" where
  "toLowerChar c = (if isUpper c then char_of ((of_char c :: nat) + 32) else c)"

definition toUpperStr :: "string \<Rightarrow> string" where
  "toUpperStr s = map toUpperChar s"

definition toLowerStr :: "string \<Rightarrow> string" where
  "toLowerStr s = map toLowerChar s"

definition isDigit :: "char \<Rightarrow> bool" where
  "isDigit c \<longleftrightarrow> 48 \<le> (of_char c :: nat) \<and> (of_char c :: nat) \<le> 57"

definition validHeaderFieldByte :: "char \<Rightarrow> bool" where
  "validHeaderFieldByte c \<longleftrightarrow>
     isDigit c \<or> isLower c \<or> isUpper c \<or> c \<in> set (CHR 39 # ''!#$%&*+-.^_`|~'')"

subsection \<open>Headers\<close>

type_synonym header = "string \<rightharpoonup> string list"

fun canonical_from :: "bool \<Rightarrow> string \<Rightarrow> string" where
  "canonical_from upper [] = []"
| "canonical_from upper (c # cs) =
     (if upper then toUpperChar c else toLowerChar c) # canonical_from (c = CHR ''-'') cs"

definition canonicalKey :: "string \<Rightarrow> string" where
  "canonicalKey s = (if list_all validHeaderFieldByte s then canonical_from True s else s)"

definition headerGet :: "header \<Rightarrow> string \<Rightarrow> string" where
  "headerGet h k =
     (case h (canonicalKey k) of None \<Rightarrow> '''' | Some [] \<Rightarrow> '''' | Some (v # vs) \<Rightarrow> v)"

definition headerValues :: "header \<Rightarrow> string \<Rightarrow> string list" where
  "headerValues h k = (case h (canonicalKey k) of None \<Rightarrow> [] | Some vs \<Rightarrow> vs)"

definition headerSet :: "header \<Rightarrow> string \<Rightarrow> string \<Rightarrow> header" where
  "headerSet h k v = h(canonicalKey k \<mapsto> [v])"

definition headerAdd :: "header \<Rightarrow> string \<Rightarrow> string \<Rightarrow> header" where
  "headerAdd h k v = h(canonicalKey k \<mapsto> headerValues h k @ [v])"

definition headerDel :: "header \<Rightarrow> string \<Rightarrow> header" where
  "headerDel h k = h(canonicalKey k := None)"

subsection \<open>Requests and cookies\<close>

text \<open>
  A client certificate of a TLS connection, the JSON values that a request body and the variables of
  an expression consist of, and what the request context carries: the buffered body, the detail
  level of error responses and the metrics collectors, by number.
\<close>

record PeerCert =
  pc_URIs :: "string list"
  pc_DNSNames :: "string list"
  pc_Subject :: string
  pc_Serial :: string

datatype json =
  JNull | JBool bool | JNum string | JStr string | JArr "json list" | JObj "string \<rightharpoonup> json"

record BodyData =
  bd_Raw :: string
  bd_JSON :: "(string \<rightharpoonup> json) option"

record Request =
  Req_Method :: string
  Req_Host :: string
  Req_Scheme :: string
  Req_URLHost :: string
  Req_Path :: string
  Req_RawQuery :: string
  Req_Query :: "string \<rightharpoonup> string list"
  Req_Header :: header
  Req_RemoteAddr :: string
  Req_Cookies :: "(string \<times> string) list"
  Req_TLS :: "PeerCert list option"
  Req_Body :: "string option"
  Req_BodyData :: "BodyData option"
  Req_Detail :: "string option"
  Req_ContentLength :: int
  Req_Metrics :: "nat list"

record Cookie =
  Cookie_Name :: string
  Cookie_Value :: string
  Cookie_Path :: string
  Cookie_MaxAge :: int
  Cookie_HttpOnly :: bool
  Cookie_SameSiteLax :: bool

record Response =
  Resp_Status :: int
  Resp_Header :: header
  Resp_Body :: string

definition reqCookie :: "Request \<Rightarrow> string \<Rightarrow> string option" where
  "reqCookie r name =
     (if name = '''' then None
      else map_option snd (find (\<lambda>(n, v). n = name) (Req_Cookies r)))"

definition queryGet :: "Request \<Rightarrow> string \<Rightarrow> string" where
  "queryGet r k = (case Req_Query r k of None \<Rightarrow> '''' | Some [] \<Rightarrow> '''' | Some (v # vs) \<Rightarrow> v)"

subsection \<open>net.SplitHostPort\<close>

fun indexByte :: "char \<Rightarrow> string \<Rightarrow> nat option" where
  "indexByte c [] = None"
| "indexByte c (x # xs) = (if x = c then Some 0 else map_option Suc (indexByte c xs))"

definition lastIndexByte :: "char \<Rightarrow> string \<Rightarrow> nat option" where
  "lastIndexByte c s = map_option (\<lambda>k. length s - 1 - k) (indexByte c (rev s))"

definition splitHostPort :: "string \<Rightarrow> (string \<times> string) option" where
  "splitHostPort s =
     (case lastIndexByte (CHR '':'') s of
        None \<Rightarrow> None
      | Some i \<Rightarrow>
          let finish = (\<lambda>host j k.
            if indexByte (CHR ''['') (drop j s) \<noteq> None then None
            else if indexByte (CHR '']'') (drop k s) \<noteq> None then None
            else Some (host, drop (i + 1) s))
          in
          if s ! 0 = CHR ''['' then
            (case indexByte (CHR '']'') s of
               None \<Rightarrow> None
             | Some e \<Rightarrow>
                 if e + 1 = length s then None
                 else if e + 1 = i then finish (drop 1 (take e s)) 1 (e + 1)
                 else None)
          else if indexByte (CHR '':'') (take i s) \<noteq> None then None
          else finish (take i s) 0 0)"

text \<open>The callers discard the error and use the host, which is empty on an error.\<close>

definition splitHost :: "string \<Rightarrow> string" where
  "splitHost s = (case splitHostPort s of None \<Rightarrow> '''' | Some (h, p) \<Rightarrow> h)"

subsection \<open>Lemmas\<close>

lemma headerGet_Set [simp]:
  "headerGet (headerSet h k v) k' = (if canonicalKey k = canonicalKey k' then v else headerGet h k')"
  by (simp add: headerGet_def headerSet_def)

lemma headerGet_Del [simp]:
  "headerGet (headerDel h k) k' = (if canonicalKey k = canonicalKey k' then '''' else headerGet h k')"
  by (simp add: headerGet_def headerDel_def)

lemma headerValues_Add [simp]:
  "headerValues (headerAdd h k v) k' =
     (if canonicalKey k = canonicalKey k' then headerValues h k' @ [v] else headerValues h k')"
  by (simp add: headerValues_def headerAdd_def)

lemma indexByte_None_iff: "indexByte c s = None \<longleftrightarrow> c \<notin> set s"
  by (induction s) auto

lemma indexByte_append: "c \<notin> set s \<Longrightarrow> indexByte c (s @ c # t) = Some (length s)"
  by (induction s) auto

lemma lastIndexByte_append:
  "c \<notin> set t \<Longrightarrow> lastIndexByte c (s @ c # t) = Some (length s)"
  using indexByte_append [of c "rev t" "rev s"] by (simp add: lastIndexByte_def)

lemma splitHostPort_join:
  assumes "CHR '':'' \<notin> set host" "CHR ''['' \<notin> set host" "CHR '']'' \<notin> set host"
    and "CHR '':'' \<notin> set port" "CHR ''['' \<notin> set port" "CHR '']'' \<notin> set port"
  shows "splitHostPort (host @ CHR '':'' # port) = Some (host, port)"
proof -
  have "(host @ CHR '':'' # port) ! 0 \<noteq> CHR ''[''" using assms(2) by (cases host) auto
  then show ?thesis
    using assms by (simp add: splitHostPort_def lastIndexByte_append indexByte_None_iff)
qed

lemma splitHostPort_join6:
  assumes "CHR ''['' \<notin> set host" "CHR '']'' \<notin> set host"
    and "CHR '':'' \<notin> set port" "CHR ''['' \<notin> set port" "CHR '']'' \<notin> set port"
  shows "splitHostPort ((CHR ''['' # host @ [CHR '']'']) @ CHR '':'' # port) = Some (host, port)"
proof -
  let ?s = "(CHR ''['' # host @ [CHR '']'']) @ CHR '':'' # port"
  have i: "lastIndexByte (CHR '':'') ?s = Some (length host + 2)"
    using lastIndexByte_append [OF assms(3), of "CHR ''['' # host @ [CHR '']'']"] by simp
  have e: "indexByte (CHR '']'') ?s = Some (length host + 1)"
    using indexByte_append [OF assms(2), of "CHR '':'' # port"] by simp
  show ?thesis unfolding splitHostPort_def i
    using assms e by (simp add: indexByte_None_iff)
qed

end
