(* ===== verification/Balancer.thy ===== *)
theory Balancer
  imports Hash_Ring Go_Net
begin

text \<open>
  The endpoint balancers of \<^verbatim>\<open>server/internal/proxy/balancer.go\<close> except Maglev, which has its
  own theory. Each balancer is its state and a pick that returns the chosen endpoint (\<open>None\<close> for
  nil) and the new state. The endpoint type is opaque to a balancer. A random draw is an argument
  (the value \<^verbatim>\<open>rand.Intn\<close> returned), and so is the order in which a map is iterated.
\<close>

subsection \<open>Round robin\<close>

record RoundRobinBalancer =
  rr_counter :: uint64

definition rr_Pick ::
  "RoundRobinBalancer \<Rightarrow> DestinationRef list \<Rightarrow> (string \<rightharpoonup> 'e) \<Rightarrow> 'e option \<times> RoundRobinBalancer" where
  "rr_Pick rr dests endpoints =
     (if length dests = 0 then (None, rr)
      else let c = rr_counter rr + 1; idx = unat (c mod of_nat (length dests))
           in (endpoints (DestinationRef_DestinationID (dests ! idx)), rr\<lparr>rr_counter := c\<rparr>))"

fun rr_Picks ::
  "nat \<Rightarrow> RoundRobinBalancer \<Rightarrow> DestinationRef list \<Rightarrow> (string \<rightharpoonup> 'e) \<Rightarrow> 'e option list" where
  "rr_Picks 0 rr dests endpoints = []"
| "rr_Picks (Suc k) rr dests endpoints =
     (let (e, rr') = rr_Pick rr dests endpoints in e # rr_Picks k rr' dests endpoints)"

subsection \<open>Least request\<close>

record LeastRequestBalancer =
  lr_inflight :: "string \<rightharpoonup> int"

definition NewLeastRequestBalancer :: LeastRequestBalancer where
  "NewLeastRequestBalancer = \<lparr>lr_inflight = Map.empty\<rparr>"

fun lr_scan :: "(string \<rightharpoonup> int) \<Rightarrow> DestinationRef list \<Rightarrow> string \<times> int \<Rightarrow> string \<times> int" where
  "lr_scan inflight [] acc = acc"
| "lr_scan inflight (b # bs) (best, bestCount) =
     (let count = mapInt inflight (DestinationRef_DestinationID b) in
      if count < bestCount then lr_scan inflight bs (DestinationRef_DestinationID b, count)
      else lr_scan inflight bs (best, bestCount))"

definition lr_Pick ::
  "LeastRequestBalancer \<Rightarrow> DestinationRef list \<Rightarrow> (string \<rightharpoonup> 'e) \<Rightarrow> 'e option \<times> LeastRequestBalancer" where
  "lr_Pick lb dests endpoints =
     (let (best, bestCount) = lr_scan (lr_inflight lb) dests ('''', 2 ^ 63 - 1) in
      if best = '''' then (None, lb)
      else (endpoints best,
            lb\<lparr>lr_inflight := (lr_inflight lb)(best \<mapsto> swrap 64 (mapInt (lr_inflight lb) best + 1))\<rparr>))"

definition lr_Done :: "LeastRequestBalancer \<Rightarrow> string \<Rightarrow> LeastRequestBalancer" where
  "lr_Done lb destID =
     (let m = (lr_inflight lb)(destID \<mapsto> swrap 64 (mapInt (lr_inflight lb) destID - 1)) in
      lb\<lparr>lr_inflight := if mapInt m destID < 0 then m(destID \<mapsto> 0) else m\<rparr>)"

subsection \<open>Random\<close>

definition random_Pick :: "nat \<Rightarrow> DestinationRef list \<Rightarrow> (string \<rightharpoonup> 'e) \<Rightarrow> 'e option" where
  "random_Pick draw dests endpoints =
     (if length dests = 0 then None
      else endpoints (DestinationRef_DestinationID (dests ! draw)))"

text \<open>\<open>keys\<close> is the order in which this run iterates the map.\<close>

definition pickRandomEndpoint :: "string list \<Rightarrow> nat \<Rightarrow> (string \<rightharpoonup> 'e) \<Rightarrow> 'e option" where
  "pickRandomEndpoint keys draw endpoints =
     (if length keys = 0 then None else endpoints (keys ! draw))"

definition weightedRandom_Pick :: "string list \<Rightarrow> nat \<Rightarrow> (string \<rightharpoonup> 'e) \<Rightarrow> 'e option" where
  "weightedRandom_Pick keys draw endpoints = pickRandomEndpoint keys draw endpoints"

subsection \<open>Ring hash\<close>

record ringEntry =
  ringEntry_hash :: uint32
  ringEntry_destID :: string

record RingHashBalancer =
  rh_ring :: "ringEntry list"
  rh_ringSize :: int

definition NewRingHashBalancer :: "int \<Rightarrow> int \<Rightarrow> RingHashBalancer" where
  "NewRingHashBalancer minSize maxSize =
     (let minSize = (if minSize \<le> 0 then 1024 else minSize);
          maxSize = (if maxSize \<le> 0 then 8388608 else maxSize);
          size = (if minSize > maxSize then maxSize else minSize)
      in \<lparr>rh_ring = [], rh_ringSize = size\<rparr>)"

definition rh_vnodes :: "RingHashBalancer \<Rightarrow> DestinationRef list \<Rightarrow> int" where
  "rh_vnodes rh dests =
     (let v = quot (rh_ringSize rh) (int (length dests)) in if v < 1 then 1 else v)"

definition rh_entry :: "string \<Rightarrow> nat \<Rightarrow> ringEntry" where
  "rh_entry d i =
     \<lparr>ringEntry_hash = checksumIEEE (d @ '':'' @ decimal i), ringEntry_destID = d\<rparr>"

definition rh_entries :: "RingHashBalancer \<Rightarrow> DestinationRef list \<Rightarrow> ringEntry list" where
  "rh_entries rh dests =
     concat (map (\<lambda>b. map (rh_entry (DestinationRef_DestinationID b)) [0..<nat (rh_vnodes rh dests)]) dests)"

definition rh_Build ::
  "((ringEntry \<Rightarrow> uint32) \<Rightarrow> ringEntry list \<Rightarrow> ringEntry list) \<Rightarrow>
   RingHashBalancer \<Rightarrow> DestinationRef list \<Rightarrow> RingHashBalancer" where
  "rh_Build srt rh dests =
     (if length dests = 0 then rh\<lparr>rh_ring := []\<rparr>
      else rh\<lparr>rh_ring := srt ringEntry_hash (rh_entries rh dests)\<rparr>)"

definition rh_PickByHash ::
  "RingHashBalancer \<Rightarrow> uint32 \<Rightarrow> string list \<Rightarrow> nat \<Rightarrow> (string \<rightharpoonup> 'e) \<Rightarrow> 'e option" where
  "rh_PickByHash rh h keys draw endpoints =
     (let ring = rh_ring rh in
      if length ring = 0 then pickRandomEndpoint keys draw endpoints
      else let idx = ring_search ringEntry_hash ring h;
               idx = (if idx \<ge> length ring then 0 else idx)
           in endpoints (ringEntry_destID (ring ! idx)))"

definition hashRequest :: "Request \<Rightarrow> uint32" where
  "hashRequest r = checksumIEEE (splitHost (Req_RemoteAddr r))"

definition rh_Pick ::
  "RingHashBalancer \<Rightarrow> Request \<Rightarrow> string list \<Rightarrow> nat \<Rightarrow> (string \<rightharpoonup> 'e) \<Rightarrow> 'e option" where
  "rh_Pick rh r keys draw endpoints = rh_PickByHash rh (hashRequest r) keys draw endpoints"

subsection \<open>Hash policies\<close>

text \<open>\<open>parseDuration\<close> is \<^verbatim>\<open>time.ParseDuration\<close> (\<open>None\<close> for its error).\<close>

definition parseTTL :: "(string \<Rightarrow> duration option) \<Rightarrow> string \<Rightarrow> duration \<Rightarrow> duration" where
  "parseTTL parseDuration s fallback =
     (if s = '''' then fallback
      else case parseDuration s of None \<Rightarrow> fallback | Some d \<Rightarrow> d)"

definition hour :: duration where
  "hour = 3600 * 10 ^ 9"

text \<open>\<^verbatim>\<open>int(d.Seconds())\<close>, exact as long as the floating-point quotient is not rounded to the next
  whole second, which needs more than 190 days.\<close>

definition seconds :: "duration \<Rightarrow> int" where
  "seconds d = quot d (10 ^ 9)"

definition pinCookie :: "string \<Rightarrow> string \<Rightarrow> duration \<Rightarrow> Cookie" where
  "pinCookie name sid ttl =
     \<lparr>Cookie_Name = name, Cookie_Value = sid, Cookie_Path = ''/'', Cookie_MaxAge = seconds ttl,
      Cookie_HttpOnly = True, Cookie_SameSiteLax = True\<rparr>"

definition hp_header :: "HashPolicy \<Rightarrow> string option" where
  "hp_header hp =
     (case HashPolicy_Header hp of
        None \<Rightarrow> None
      | Some hh \<Rightarrow> if HashPolicyHeader_Name hh \<noteq> '''' then Some (HashPolicyHeader_Name hh) else None)"

definition hp_cookie :: "HashPolicy \<Rightarrow> (string \<times> string) option" where
  "hp_cookie hp =
     (case HashPolicy_Cookie hp of
        None \<Rightarrow> None
      | Some hc \<Rightarrow> if HashPolicyCookie_Name hc \<noteq> ''''
                   then Some (HashPolicyCookie_Name hc, HashPolicyCookie_TTL hc) else None)"

definition hp_sourceIP :: "HashPolicy \<Rightarrow> bool" where
  "hp_sourceIP hp =
     (case HashPolicy_SourceIP hp of None \<Rightarrow> False | Some s \<Rightarrow> HashPolicySourceIP_Enabled s)"

text \<open>\<open>sid\<close> is the identifier that \<^verbatim>\<open>generateEndpointSessionID\<close> returns in this call; the second
  component is the cookie that is set on the response.\<close>

fun hashRequestWithPolicy ::
  "(string \<Rightarrow> duration option) \<Rightarrow> string \<Rightarrow> Request \<Rightarrow> HashPolicy list \<Rightarrow> string \<Rightarrow>
   uint32 \<times> Cookie option" where
  "hashRequestWithPolicy parseDuration sid r [] destID =
     (checksumIEEE (splitHost (Req_RemoteAddr r) @ '':'' @ destID), None)"
| "hashRequestWithPolicy parseDuration sid r (hp # policies) destID =
     (case hp_header hp of
        Some name \<Rightarrow>
          let val = headerGet (Req_Header r) name in
          if val \<noteq> '''' then (checksumIEEE (val @ '':'' @ destID), None)
          else hashRequestWithPolicy parseDuration sid r policies destID
      | None \<Rightarrow>
          (case hp_cookie hp of
             Some (name, ttl) \<Rightarrow>
               (case reqCookie r name of
                  Some v \<Rightarrow> (checksumIEEE (v @ '':'' @ destID), None)
                | None \<Rightarrow> (checksumIEEE (sid @ '':'' @ destID),
                           Some (pinCookie name sid (parseTTL parseDuration ttl hour))))
           | None \<Rightarrow>
               if hp_sourceIP hp
               then (checksumIEEE (splitHost (Req_RemoteAddr r) @ '':'' @ destID), None)
               else hashRequestWithPolicy parseDuration sid r policies destID))"

subsection \<open>The Balancer interface\<close>

text \<open>
  What the pool relies on of a balancer: it returns one of the endpoints it was given, or nil. A
  \<open>total_balancer\<close> moreover never returns nil when it is given some endpoint; the hash balancers
  keep this only for the endpoints they were built from.
\<close>

locale balancer =
  fixes pick :: "'s \<Rightarrow> 'i \<Rightarrow> DestinationRef list \<Rightarrow> (string \<rightharpoonup> 'e) \<Rightarrow> 'e option \<times> 's"
  assumes pick_ran: "fst (pick s i dests endpoints) = Some e \<Longrightarrow> e \<in> ran endpoints"
begin

lemma pick_satisfies:
  "(\<And>e. e \<in> ran endpoints \<Longrightarrow> P e) \<Longrightarrow> fst (pick s i dests endpoints) = Some e \<Longrightarrow> P e"
  using pick_ran by blast

end

definition refs_in :: "DestinationRef list \<Rightarrow> (string \<rightharpoonup> 'e) \<Rightarrow> bool" where
  "refs_in dests endpoints \<longleftrightarrow>
     (\<forall>b\<in>set dests. DestinationRef_DestinationID b \<noteq> '''' \<and>
        endpoints (DestinationRef_DestinationID b) \<noteq> None)"

locale total_balancer = balancer pick
  for pick :: "'s \<Rightarrow> 'i \<Rightarrow> DestinationRef list \<Rightarrow> (string \<rightharpoonup> 'e) \<Rightarrow> 'e option \<times> 's" +
  fixes inv :: "'s \<Rightarrow> bool" and drawn :: "'i \<Rightarrow> DestinationRef list \<Rightarrow> bool"
  assumes pick_some: "inv s \<Longrightarrow> drawn i dests \<Longrightarrow> dests \<noteq> [] \<Longrightarrow> refs_in dests endpoints \<Longrightarrow>
      fst (pick s i dests endpoints) \<noteq> None"
    and pick_inv: "inv s \<Longrightarrow> inv (snd (pick s i dests endpoints))"
begin

lemma pick_twice:
  "inv s \<Longrightarrow> drawn i dests \<Longrightarrow> dests \<noteq> [] \<Longrightarrow> refs_in dests endpoints \<Longrightarrow>
   fst (pick (snd (pick s j dests' endpoints')) i dests endpoints) \<noteq> None"
  by (intro pick_some pick_inv)

end

interpretation rr: total_balancer "\<lambda>s (i :: unit). rr_Pick s" "\<lambda>s. True" "\<lambda>i dests. int (length dests) < 2 ^ 64"
proof unfold_locales
  fix s :: RoundRobinBalancer and dests and endpoints :: "string \<rightharpoonup> 'e" and e
  assume "fst (rr_Pick s dests endpoints) = Some e"
  then show "e \<in> ran endpoints" by (auto simp: rr_Pick_def Let_def ranI split: if_splits)
next
  fix s :: RoundRobinBalancer and dests and endpoints :: "string \<rightharpoonup> 'e"
  assume "int (length dests) < 2 ^ 64" and ne: "dests \<noteq> []" and refs: "refs_in dests endpoints"
  then have "unat ((rr_counter s + 1) mod of_nat (length dests)) < length dests"
    by (simp add: unat_mod_distrib unat_of_nat)
  then show "fst (rr_Pick s dests endpoints) \<noteq> None"
    using refs ne by (auto simp: rr_Pick_def Let_def refs_in_def)
qed simp_all

interpretation random: total_balancer
  "\<lambda>(s :: unit) draw dests endpoints. (random_Pick draw dests endpoints, s)" "\<lambda>s. True"
  "\<lambda>draw dests. draw < length dests"
  by unfold_locales (auto simp: random_Pick_def refs_in_def ranI split: if_splits)

lemma pickRandomEndpoint_ran: "pickRandomEndpoint keys draw endpoints = Some e \<Longrightarrow> e \<in> ran endpoints"
  by (auto simp: pickRandomEndpoint_def ranI split: if_splits)

interpretation weightedRandom: balancer
  "\<lambda>(s :: unit) (keys, draw) dests endpoints. (weightedRandom_Pick keys draw endpoints, s)"
  by unfold_locales (auto simp: weightedRandom_Pick_def dest: pickRandomEndpoint_ran)

interpretation lr: balancer "\<lambda>s (i :: unit). lr_Pick s"
  by unfold_locales (auto simp: lr_Pick_def ranI split: prod.splits if_splits)

lemma rh_PickByHash_ran: "rh_PickByHash rh h keys draw endpoints = Some e \<Longrightarrow> e \<in> ran endpoints"
  by (auto simp: rh_PickByHash_def Let_def ranI dest: pickRandomEndpoint_ran split: if_splits)

interpretation ringHash: balancer
  "\<lambda>s (r, keys, draw) dests endpoints. (rh_Pick s r keys draw endpoints, s)"
  by unfold_locales (auto simp: rh_Pick_def dest: rh_PickByHash_ran)

subsection \<open>Round robin: lemmas\<close>

lemma rr_Pick_eq:
  assumes "dests \<noteq> []" and "length dests < 2 ^ 64" and "unat (rr_counter rr) + 1 < 2 ^ 64"
  shows "rr_Pick rr dests endpoints =
    (endpoints (DestinationRef_DestinationID (dests ! ((unat (rr_counter rr) + 1) mod length dests))),
     rr\<lparr>rr_counter := rr_counter rr + 1\<rparr>)"
proof -
  have "unat (rr_counter rr + 1) = unat (rr_counter rr) + 1"
    using assms(3) by (simp add: unat_word_ariths)
  then show ?thesis
    using assms by (simp add: rr_Pick_def Let_def unat_mod_distrib unat_of_nat)
qed

lemma rr_Picks_eq:
  assumes "dests \<noteq> []" and "length dests < 2 ^ 64" and "unat (rr_counter rr) + k < 2 ^ 64"
  shows "rr_Picks k rr dests endpoints =
    map (\<lambda>i. endpoints (DestinationRef_DestinationID
               (dests ! ((unat (rr_counter rr) + 1 + i) mod length dests)))) [0..<k]"
  using assms(3)
proof (induction k arbitrary: rr)
  case (Suc k)
  let ?rr = "rr\<lparr>rr_counter := rr_counter rr + 1\<rparr>"
  have c: "unat (rr_counter rr + 1) = unat (rr_counter rr) + 1"
    using Suc.prems by (simp add: unat_word_ariths)
  have step: "rr_Pick rr dests endpoints =
      (endpoints (DestinationRef_DestinationID (dests ! ((unat (rr_counter rr) + 1) mod length dests))), ?rr)"
    using Suc.prems by (intro rr_Pick_eq assms) simp
  have "rr_Picks k ?rr dests endpoints =
      map (\<lambda>i. endpoints (DestinationRef_DestinationID
                 (dests ! ((unat (rr_counter ?rr) + 1 + i) mod length dests)))) [0..<k]"
    using Suc.prems c by (intro Suc.IH) simp
  then show ?case by (simp add: step c upt_conv_Cons map_Suc_upt [symmetric] del: upt_Suc)
qed simp

subsection \<open>Least request: lemmas\<close>

lemma lr_scan_min:
  assumes "lr_scan m bs (best, cnt) = (r, c)"
  shows "c \<le> cnt \<and> (\<forall>b\<in>set bs. c \<le> mapInt m (DestinationRef_DestinationID b)) \<and>
    ((r, c) = (best, cnt) \<or>
     (\<exists>b\<in>set bs. r = DestinationRef_DestinationID b \<and> c = mapInt m r \<and> c < cnt))"
  using assms
proof (induction bs arbitrary: best cnt)
  case (Cons b bs)
  show ?case
  proof (cases "mapInt m (DestinationRef_DestinationID b) < cnt")
    case True
    with Cons.prems have "lr_scan m bs (DestinationRef_DestinationID b,
        mapInt m (DestinationRef_DestinationID b)) = (r, c)" by simp
    from Cons.IH [OF this] True show ?thesis by auto
  next
    case False
    with Cons.prems have "lr_scan m bs (best, cnt) = (r, c)" by simp
    from Cons.IH [OF this] False show ?thesis by auto
  qed
qed simp

lemma lr_Pick_cases:
  assumes "dests \<noteq> []" and "\<forall>b\<in>set dests. DestinationRef_DestinationID b \<noteq> ''''"
    and "\<forall>b\<in>set dests. 0 \<le> mapInt (lr_inflight lb) (DestinationRef_DestinationID b) \<and>
           mapInt (lr_inflight lb) (DestinationRef_DestinationID b) < 2 ^ 63 - 1"
  obtains b where "b \<in> set dests"
    and "\<forall>b'\<in>set dests. mapInt (lr_inflight lb) (DestinationRef_DestinationID b) \<le>
           mapInt (lr_inflight lb) (DestinationRef_DestinationID b')"
    and "lr_Pick lb dests endpoints =
      (endpoints (DestinationRef_DestinationID b),
       lb\<lparr>lr_inflight := (lr_inflight lb)(DestinationRef_DestinationID b \<mapsto>
             mapInt (lr_inflight lb) (DestinationRef_DestinationID b) + 1)\<rparr>)"
proof -
  obtain r c where rc: "lr_scan (lr_inflight lb) dests ('''', 2 ^ 63 - 1) = (r, c)" by fastforce
  note min = lr_scan_min [OF rc]
  obtain b0 where b0: "b0 \<in> set dests" using assms(1) by (cases dests) auto
  then have "c < 2 ^ 63 - 1" using min assms(3) by (meson le_less_trans)
  then obtain b where b: "b \<in> set dests" "r = DestinationRef_DestinationID b" "c = mapInt (lr_inflight lb) r"
    using min by auto
  have "fits 64 (c + 1)" using b assms(3) by (auto simp: fits_def)
  then have "swrap 64 (c + 1) = c + 1" by (simp add: swrap_id)
  then have "lr_Pick lb dests endpoints =
      (endpoints (DestinationRef_DestinationID b),
       lb\<lparr>lr_inflight := (lr_inflight lb)(DestinationRef_DestinationID b \<mapsto>
             mapInt (lr_inflight lb) (DestinationRef_DestinationID b) + 1)\<rparr>)"
    using rc b assms(2) by (simp add: lr_Pick_def)
  with b min show ?thesis by (intro that [of b]) auto
qed

fun lr_Picks :: "nat \<Rightarrow> LeastRequestBalancer \<Rightarrow> DestinationRef list \<Rightarrow> LeastRequestBalancer" where
  "lr_Picks 0 lb dests = lb"
| "lr_Picks (Suc k) lb dests = snd (lr_Pick (lr_Picks k lb dests) dests Some)"

abbreviation lr_count :: "LeastRequestBalancer \<Rightarrow> DestinationRef \<Rightarrow> int" where
  "lr_count lb b \<equiv> mapInt (lr_inflight lb) (DestinationRef_DestinationID b)"

lemma sum_counts_upd:
  assumes "distinct (map DestinationRef_DestinationID dests)" and "b0 \<in> set dests"
  shows "sum_list (map (\<lambda>b. mapInt (m(DestinationRef_DestinationID b0 \<mapsto> v)) (DestinationRef_DestinationID b)) dests) =
    sum_list (map (\<lambda>b. mapInt m (DestinationRef_DestinationID b)) dests) + v - mapInt m (DestinationRef_DestinationID b0)"
  using assms
proof (induction dests)
  case (Cons b bs)
  have other: "sum_list (map (\<lambda>b. mapInt (m(DestinationRef_DestinationID b0 \<mapsto> v)) (DestinationRef_DestinationID b)) bs) =
      sum_list (map (\<lambda>b. mapInt m (DestinationRef_DestinationID b)) bs)"
    if "DestinationRef_DestinationID b0 \<notin> DestinationRef_DestinationID ` set bs"
    using that by (intro arg_cong [where f = sum_list] map_cong refl) (metis imageI mapInt_upd)
  show ?case
  proof (cases "b0 = b")
    case True
    with Cons.prems other show ?thesis by simp
  next
    case False
    with Cons.prems have "DestinationRef_DestinationID b0 \<in> DestinationRef_DestinationID ` set bs" by simp
    with Cons.prems have "DestinationRef_DestinationID b0 \<noteq> DestinationRef_DestinationID b" by auto
    with Cons False show ?thesis by simp
  qed
qed simp

lemma lr_Picks_inv:
  assumes "dests \<noteq> []" and ne: "\<forall>b\<in>set dests. DestinationRef_DestinationID b \<noteq> ''''"
    and d: "distinct (map DestinationRef_DestinationID dests)" and "int k < 2 ^ 63"
  shows "(\<forall>b\<in>set dests. 0 \<le> lr_count (lr_Picks k NewLeastRequestBalancer dests) b \<and>
            lr_count (lr_Picks k NewLeastRequestBalancer dests) b \<le> int k) \<and>
    (\<forall>b\<in>set dests. \<forall>b'\<in>set dests. lr_count (lr_Picks k NewLeastRequestBalancer dests) b \<le>
            lr_count (lr_Picks k NewLeastRequestBalancer dests) b' + 1) \<and>
    sum_list (map (lr_count (lr_Picks k NewLeastRequestBalancer dests)) dests) = int k"
  using assms(4)
proof (induction k)
  case 0
  show ?case by (simp add: NewLeastRequestBalancer_def)
next
  case (Suc k)
  let ?lb = "lr_Picks k NewLeastRequestBalancer dests"
  have IH: "\<forall>b\<in>set dests. 0 \<le> lr_count ?lb b \<and> lr_count ?lb b \<le> int k"
    "\<forall>b\<in>set dests. \<forall>b'\<in>set dests. lr_count ?lb b \<le> lr_count ?lb b' + 1"
    "sum_list (map (lr_count ?lb) dests) = int k"
    using Suc by auto
  then have "\<forall>b\<in>set dests. 0 \<le> lr_count ?lb b \<and> lr_count ?lb b < 2 ^ 63 - 1"
    using Suc.prems by force
  then obtain b where b: "b \<in> set dests" "\<forall>b'\<in>set dests. lr_count ?lb b \<le> lr_count ?lb b'"
    and p: "lr_Pick ?lb dests Some = (Some (DestinationRef_DestinationID b),
       ?lb\<lparr>lr_inflight := (lr_inflight ?lb)(DestinationRef_DestinationID b \<mapsto> lr_count ?lb b + 1)\<rparr>)"
    using lr_Pick_cases [OF assms(1) ne] by metis
  have "\<forall>b'\<in>set dests. lr_count ?lb b' \<le> lr_count ?lb b + 1" using IH(2) b(1) by blast
  then show ?case
    using IH b sum_counts_upd [OF d b(1), of "lr_inflight ?lb" "lr_count ?lb b + 1"]
    by (force simp: p)
qed

lemma near_equal_div:
  fixes f :: "'a \<Rightarrow> int"
  assumes "xs \<noteq> []" and "\<forall>x\<in>set xs. \<forall>y\<in>set xs. f x \<le> f y + 1" and "sum_list (map f xs) = k"
    and "x \<in> set xs"
  shows "f x = k div int (length xs) \<or> f x = k div int (length xs) + 1"
proof -
  define m where "m = arg_min_on f (set xs)"
  have m: "m \<in> set xs" "\<forall>y\<in>set xs. f m \<le> f y"
    using assms(1) arg_min_if_finite [of "set xs" f] by (auto simp: m_def not_less [symmetric])
  define e where "e = sum_list (map (\<lambda>y. f y - f m) xs)"
  have k: "k = int (length xs) * f m + e"
    using assms(3) by (simp add: e_def sum_list_subtractf sum_list_triv)
  have "e = sum_list (map (\<lambda>y. f y - f m) (remove1 m xs))"
    using m(1) by (simp add: e_def sum_list_map_remove1)
  also have "\<dots> \<le> sum_list (map (\<lambda>y. 1) (remove1 m xs))"
    by (intro sum_list_mono)
      (metis assms(2) diff_le_eq add.commute m(1) notin_set_remove1)
  also have "\<dots> < int (length xs)"
    using m(1) length_pos_if_in_set [OF m(1)] by (simp add: sum_list_triv length_remove1)
  finally have "e < int (length xs)" .
  moreover have "0 \<le> e" unfolding e_def using m(2) by (intro sum_list_nonneg) auto
  ultimately have "k div int (length xs) = f m" using k assms(1) by simp
  moreover have "f x \<le> f m + 1" "f m \<le> f x" using assms(2,4) m by auto
  ultimately show ?thesis by linarith
qed

subsection \<open>Properties\<close>

text \<open>As long as the 64-bit counter does not wrap, one pick per destination visits every
  destination exactly once, in list order, starting after the one picked last.\<close>

theorem rr_round_is_rotation:
  assumes "dests \<noteq> []" and "unat (rr_counter rr) + length dests < 2 ^ 64"
  shows "rr_Picks (length dests) rr dests endpoints =
    map (\<lambda>b. endpoints (DestinationRef_DestinationID b)) (rotate (unat (rr_counter rr) + 1) dests)"
proof -
  have "rr_Picks (length dests) rr dests endpoints =
    map (\<lambda>i. endpoints (DestinationRef_DestinationID
               (dests ! ((unat (rr_counter rr) + 1 + i) mod length dests)))) [0..<length dests]"
    using assms by (intro rr_Picks_eq) auto
  also have "\<dots> = map (\<lambda>b. endpoints (DestinationRef_DestinationID b)) (rotate (unat (rr_counter rr) + 1) dests)"
    by (rule nth_equalityI) (simp_all add: nth_rotate del: rotate_Suc)
  finally show ?thesis .
qed

theorem rr_round_is_rotation_witness:
  "rr_Picks (Suc (Suc 0)) \<lparr>rr_counter = 0\<rparr>
     [\<lparr>DestinationRef_DestinationID = ''a'', DestinationRef_Weight = 1\<rparr>,
      \<lparr>DestinationRef_DestinationID = ''b'', DestinationRef_Weight = 1\<rparr>]
     [''a'' \<mapsto> (1 :: nat), ''b'' \<mapsto> 2] = [Some 2, Some 1]"
  using rr_round_is_rotation [of
     "[\<lparr>DestinationRef_DestinationID = ''a'', DestinationRef_Weight = 1\<rparr>,
       \<lparr>DestinationRef_DestinationID = ''b'', DestinationRef_Weight = 1\<rparr>]"
     "\<lparr>rr_counter = 0\<rparr>" "[''a'' \<mapsto> (1 :: nat), ''b'' \<mapsto> 2]"]
  by simp

text \<open>Least request picks an endpoint with the fewest requests in flight and counts the new
  request on it and on nothing else.\<close>

theorem lr_Pick_least:
  assumes "dests \<noteq> []" and "\<forall>b\<in>set dests. DestinationRef_DestinationID b \<noteq> ''''"
    and "\<forall>b\<in>set dests. 0 \<le> lr_count lb b \<and> lr_count lb b < 2 ^ 63 - 1"
  shows "\<exists>b\<in>set dests. (\<forall>b'\<in>set dests. lr_count lb b \<le> lr_count lb b') \<and>
    lr_Pick lb dests endpoints =
      (endpoints (DestinationRef_DestinationID b),
       lb\<lparr>lr_inflight := (lr_inflight lb)(DestinationRef_DestinationID b \<mapsto> lr_count lb b + 1)\<rparr>)"
  using lr_Pick_cases [OF assms, of endpoints] by metis

theorem lr_Pick_least_witness:
  "\<exists>b\<in>set [\<lparr>DestinationRef_DestinationID = ''a'', DestinationRef_Weight = 1\<rparr>,
            \<lparr>DestinationRef_DestinationID = ''b'', DestinationRef_Weight = 1\<rparr>].
     fst (lr_Pick \<lparr>lr_inflight = [''a'' \<mapsto> 3]\<rparr>
       [\<lparr>DestinationRef_DestinationID = ''a'', DestinationRef_Weight = 1\<rparr>,
        \<lparr>DestinationRef_DestinationID = ''b'', DestinationRef_Weight = 1\<rparr>] [''a'' \<mapsto> (1 :: nat), ''b'' \<mapsto> 2]) =
     [''a'' \<mapsto> 1, ''b'' \<mapsto> 2] (DestinationRef_DestinationID b)"
  using lr_Pick_least [of
     "[\<lparr>DestinationRef_DestinationID = ''a'', DestinationRef_Weight = 1\<rparr>,
       \<lparr>DestinationRef_DestinationID = ''b'', DestinationRef_Weight = 1\<rparr>]"
     "\<lparr>lr_inflight = [''a'' \<mapsto> 3]\<rparr>" "[''a'' \<mapsto> (1 :: nat), ''b'' \<mapsto> 2]"]
  by auto

text \<open>From a fresh least-request balancer, after any number of picks that are still in flight,
  every endpoint holds its even share of them: the quotient of the picks by the number of
  endpoints, or one more.\<close>

theorem lr_even_share:
  assumes "dests \<noteq> []" and "\<forall>b\<in>set dests. DestinationRef_DestinationID b \<noteq> ''''"
    and "distinct (map DestinationRef_DestinationID dests)" and "int k < 2 ^ 63" and "b \<in> set dests"
  shows "lr_count (lr_Picks k NewLeastRequestBalancer dests) b \<in>
    {int k div int (length dests), int k div int (length dests) + 1}"
  using near_equal_div [OF assms(1) _ _ assms(5), of "lr_count (lr_Picks k NewLeastRequestBalancer dests)" "int k"]
    lr_Picks_inv [OF assms(1-4)] by blast

theorem lr_even_share_witness:
  "lr_count (lr_Picks 5 NewLeastRequestBalancer
     [\<lparr>DestinationRef_DestinationID = ''a'', DestinationRef_Weight = 1\<rparr>,
      \<lparr>DestinationRef_DestinationID = ''b'', DestinationRef_Weight = 1\<rparr>])
     \<lparr>DestinationRef_DestinationID = ''b'', DestinationRef_Weight = 1\<rparr> \<in> {2, 3}"
  using lr_even_share [of
     "[\<lparr>DestinationRef_DestinationID = ''a'', DestinationRef_Weight = 1\<rparr>,
       \<lparr>DestinationRef_DestinationID = ''b'', DestinationRef_Weight = 1\<rparr>]" 5
     "\<lparr>DestinationRef_DestinationID = ''b'', DestinationRef_Weight = 1\<rparr>"]
  by simp

end
