(* ===== verification/Maglev.thy ===== *)
theory Maglev
  imports Balancer
begin

text \<open>
  The Maglev balancer of \<^verbatim>\<open>server/internal/proxy/balancer.go\<close>. The two 64-bit halves of the
  MD5 digest are a function argument. The search for a free slot and the filling of the table are
  loops whose end depends on the table size, so they are partial functions in the option monad
  where \<open>None\<close> is a loop that never ends; the remainder by a zero divisor is a panic value. The
  lemmas show that a prime table size makes the construction end with a full table in which the
  destinations differ by at most one slot, and that a composite size can make it run forever.
\<close>

subsection \<open>Definitions\<close>

record MaglevBalancer =
  mg_table :: "int list"
  mg_dests :: "string list"
  mg_tableSize :: nat

definition NewMaglevBalancer :: "int \<Rightarrow> MaglevBalancer" where
  "NewMaglevBalancer tableSize =
     \<lparr>mg_table = [], mg_dests = [], mg_tableSize = nat (if tableSize \<le> 0 then 65537 else tableSize)\<rparr>"

partial_function (option) mg_probe :: "int list \<Rightarrow> nat \<Rightarrow> nat \<Rightarrow> nat \<Rightarrow> nat option" where
  "mg_probe table M skip c =
     (if table ! c \<noteq> -1 then mg_probe table M skip ((c + skip) mod M) else Some c)"

fun mg_round ::
  "nat \<Rightarrow> nat list \<Rightarrow> nat list \<Rightarrow> int list \<Rightarrow> nat list \<Rightarrow> nat \<Rightarrow> (int list \<times> nat list \<times> nat) option" where
  "mg_round M skip [] table nxt filled = Some (table, nxt, filled)"
| "mg_round M skip (i # is) table nxt filled =
     (case mg_probe table M (skip ! i) (nxt ! i) of
        None \<Rightarrow> None
      | Some c \<Rightarrow>
          let table = table[c := int i];
              nxt = nxt[i := (c + skip ! i) mod M];
              filled = filled + 1
          in if filled \<ge> M then Some (table, nxt, filled)
             else mg_round M skip is table nxt filled)"

partial_function (option) mg_fill ::
  "nat \<Rightarrow> nat list \<Rightarrow> nat \<Rightarrow> int list \<Rightarrow> nat list \<Rightarrow> nat \<Rightarrow> int list option" where
  "mg_fill M skip n table nxt filled =
     (if filled < M then
        (case mg_round M skip [0..<n] table nxt filled of
           None \<Rightarrow> None
         | Some (table', nxt', filled') \<Rightarrow> mg_fill M skip n table' nxt' filled')
      else Some table)"

definition mg_offset :: "(string \<Rightarrow> uint64 \<times> uint64) \<Rightarrow> nat \<Rightarrow> DestinationRef \<Rightarrow> nat" where
  "mg_offset md5 M b = unat (fst (md5 (DestinationRef_DestinationID b))) mod M"

definition mg_skip :: "(string \<Rightarrow> uint64 \<times> uint64) \<Rightarrow> nat \<Rightarrow> DestinationRef \<Rightarrow> nat" where
  "mg_skip md5 M b = unat (snd (md5 (DestinationRef_DestinationID b))) mod (M - 1) + 1"

text \<open>The table size is positive: it is only ever set by the constructor.\<close>

definition mg_Build ::
  "(string \<Rightarrow> uint64 \<times> uint64) \<Rightarrow> MaglevBalancer \<Rightarrow> DestinationRef list \<Rightarrow> MaglevBalancer option go" where
  "mg_Build md5 m dests =
     (let n = length dests; M = mg_tableSize m in
      if n = 0 then Inr (Some (m\<lparr>mg_table := [], mg_dests := []\<rparr>))
      else if M - 1 = 0 then Inl DivideByZero
      else let ids = map DestinationRef_DestinationID dests;
               table = replicate M (-1);
               offset = map (mg_offset md5 M) dests;
               skip = map (mg_skip md5 M) dests
           in Inr (map_option (\<lambda>t. m\<lparr>mg_table := t, mg_dests := ids\<rparr>)
                     (mg_fill M skip n table offset 0)))"

text \<open>The remainder is taken by the low 32 bits of the table length.\<close>

definition mg_PickByHash ::
  "MaglevBalancer \<Rightarrow> uint32 \<Rightarrow> string list \<Rightarrow> nat \<Rightarrow> (string \<rightharpoonup> 'e) \<Rightarrow> 'e option go" where
  "mg_PickByHash m h keys draw endpoints =
     (if length (mg_table m) = 0 \<or> length (mg_dests m) = 0
      then Inr (pickRandomEndpoint keys draw endpoints)
      else let len = (of_nat (length (mg_table m)) :: uint32) in
        if len = 0 then Inl DivideByZero
        else let idx = mg_table m ! unat (h mod len) in
          if idx < 0 \<or> idx \<ge> int (length (mg_dests m))
          then Inr (pickRandomEndpoint keys draw endpoints)
          else Inr (endpoints (mg_dests m ! nat idx)))"

definition mg_Pick ::
  "MaglevBalancer \<Rightarrow> Request \<Rightarrow> string list \<Rightarrow> nat \<Rightarrow> (string \<rightharpoonup> 'e) \<Rightarrow> 'e option go" where
  "mg_Pick m r keys draw endpoints = mg_PickByHash m (hashRequest r) keys draw endpoints"

subsection \<open>The probe sequence\<close>

lemma coprime_step_inj:
  assumes "coprime s M"
  shows "inj_on (\<lambda>k. (c + k * s) mod M) {..<M :: nat}"
proof (rule linorder_inj_onI)
  fix k k' assume kk: "k < k'" and "k \<in> {..<M}" "k' \<in> {..<M}"
  have sub: "c + k' * s - (c + k * s) = (k' - k) * s" by (simp add: diff_mult_distrib)
  show "(c + k * s) mod M \<noteq> (c + k' * s) mod M"
  proof
    assume "(c + k * s) mod M = (c + k' * s) mod M"
    moreover have "c + k * s \<le> c + k' * s" using kk by simp
    ultimately have "M dvd (c + k' * s) - (c + k * s)" by (simp only: mod_eq_dvd_iff_nat [symmetric])
    then have "M dvd (k' - k) * s" by (simp only: sub)
    then have "M dvd k' - k" using assms by (simp add: coprime_dvd_mult_left_iff coprime_commute)
    with kk \<open>k' \<in> {..<M}\<close> show False by (auto dest: dvd_imp_le)
  qed
qed auto

lemma coprime_reaches:
  assumes "coprime s M" and "f < (M :: nat)"
  shows "\<exists>k. (c + k * s) mod M = f"
proof -
  have "(\<lambda>k. (c + k * s) mod M) ` {..<M} = {..<M}"
    by (rule endo_inj_surj [OF _ _ coprime_step_inj [OF assms(1)]]) (use assms(2) in auto)
  moreover have "f \<in> {..<M}" using assms(2) by simp
  ultimately have "f \<in> (\<lambda>k. (c + k * s) mod M) ` {..<M}" by (simp only:)
  then show ?thesis by blast
qed

lemma mg_probe_stop: "table ! c = -1 \<Longrightarrow> mg_probe table M s c = Some c"
  by (simp add: mg_probe.simps [of table M s c])

lemma mg_probe_next: "table ! c \<noteq> -1 \<Longrightarrow> mg_probe table M s c = mg_probe table M s ((c + s) mod M)"
  by (subst mg_probe.simps) simp

lemma mg_probe_reaches:
  assumes "table ! ((c + k * s) mod M) = -1" and "c < M"
  shows "\<exists>c'. mg_probe table M s c = Some c' \<and> c' < M \<and> table ! c' = -1"
  using assms
proof (induction k arbitrary: c)
  case 0
  then show ?case by (simp add: mg_probe_stop)
next
  case (Suc k)
  show ?case
  proof (cases "table ! c = -1")
    case True
    with Suc.prems show ?thesis by (auto simp: mg_probe_stop)
  next
    case False
    have "((c + s) mod M + k * s) mod M = (c + Suc k * s) mod M"
      by (simp only: mod_add_left_eq mult_Suc add.assoc)
    then have "table ! (((c + s) mod M + k * s) mod M) = -1" using Suc.prems(1) by simp
    moreover have "(c + s) mod M < M" using Suc.prems(2) by simp
    ultimately show ?thesis unfolding mg_probe_next [OF False] by (rule Suc.IH)
  qed
qed

lemma mg_probe_free:
  assumes "coprime s M" and "c < M" and "f < M" and "table ! f = -1"
  shows "\<exists>c'. mg_probe table M s c = Some c' \<and> c' < M \<and> table ! c' = -1"
proof -
  obtain k where "(c + k * s) mod M = f" using coprime_reaches [OF assms(1,3)] by blast
  with assms show ?thesis by (intro mg_probe_reaches) auto
qed

subsection \<open>The filling invariant\<close>

text \<open>After \<open>f\<close> slots are filled, destination \<open>i\<close> of \<open>n\<close> holds this many.\<close>

definition mg_share :: "nat \<Rightarrow> nat \<Rightarrow> nat \<Rightarrow> nat" where
  "mg_share n f i = f div n + (if i < f mod n then 1 else 0)"

definition mg_inv :: "nat \<Rightarrow> nat \<Rightarrow> int list \<Rightarrow> nat list \<Rightarrow> nat \<Rightarrow> bool" where
  "mg_inv M n table nxt f \<longleftrightarrow>
     length table = M \<and> length nxt = n \<and> f \<le> M \<and> (\<forall>i<n. nxt ! i < M) \<and>
     set table \<subseteq> {-1} \<union> int ` {..<n} \<and> count_list table (-1) = M - f \<and>
     (\<forall>i<n. count_list table (int i) = mg_share n f i)"

lemma mg_share_step:
  assumes "i < n"
  shows "mg_share n (Suc f) i = mg_share n f i + (if i = f mod n then 1 else 0)"
proof (cases "Suc (f mod n) = n")
  case True
  then have "Suc f mod n = 0" "Suc f div n = Suc (f div n)" by (simp_all add: mod_Suc div_Suc)
  then show ?thesis using True assms by (auto simp: mg_share_def)
next
  case False
  then have m: "Suc f mod n = Suc (f mod n)" by (simp add: mod_Suc)
  then have "Suc f div n = f div n" by (simp add: div_Suc)
  then show ?thesis using m by (simp add: mg_share_def less_Suc_eq)
qed

lemma count_list_update:
  assumes "c < length xs" and "y \<noteq> xs ! c"
  shows "count_list (xs[c := y]) z =
    (if z = y then count_list xs z + 1 else if z = xs ! c then count_list xs z - 1 else count_list xs z)"
proof -
  have "xs = take c xs @ xs ! c # drop (Suc c) xs" using assms(1) by (simp add: id_take_nth_drop)
  then have "count_list xs z = count_list (take c xs @ xs ! c # drop (Suc c) xs) z" by simp
  then show ?thesis using assms by (auto simp: upd_conv_take_nth_drop)
qed

lemma mg_inv_step:
  assumes inv: "mg_inv M n table nxt f" and "f < M" and "0 < n" and i: "i = f mod n"
    and c: "c < M" "table ! c = -1" and "0 < M"
  shows "mg_inv M n (table[c := int i]) (nxt[i := (c + s) mod M]) (Suc f)"
proof -
  have len: "length table = M" and "i < n" using inv i \<open>0 < n\<close> by (auto simp: mg_inv_def)
  have cnt: "count_list (table[c := int i]) z =
      (if z = int i then count_list table z + 1 else if z = -1 then count_list table z - 1 else count_list table z)" for z
    using c len by (subst count_list_update) auto
  have "set (table[c := int i]) \<subseteq> {-1} \<union> int ` {..<n}"
    using inv \<open>i < n\<close> set_update_subset_insert [of table c "int i"] by (auto simp: mg_inv_def)
  moreover have "count_list (table[c := int i]) (int k) = mg_share n (Suc f) k" if "k < n" for k
    using inv that i unfolding cnt by (simp add: mg_share_step mg_inv_def)
  moreover have "nxt[i := (c + s) mod M] ! k < M" if "k < n" for k
    using inv that \<open>0 < M\<close> by (cases "k = i") (auto simp: mg_inv_def)
  ultimately show ?thesis
    using inv \<open>f < M\<close> cnt [of "-1"] by (simp add: mg_inv_def)
qed

lemma mg_inv_free:
  assumes "mg_inv M n table nxt f" and "f < M"
  shows "\<exists>p<M. table ! p = -1"
proof -
  have "count_list table (-1) \<noteq> 0" using assms by (simp add: mg_inv_def)
  then have "-1 \<in> set table" by (simp add: count_list_0_iff)
  then show ?thesis using assms(1) by (auto simp: mg_inv_def in_set_conv_nth)
qed

lemma mg_round_ok:
  assumes "mg_inv M n table nxt f" and "f < M" and "0 < n"
    and "is = [f mod n..<n]" and "\<forall>i<n. coprime (skip ! i) M"
  shows "\<exists>t' nx' f'. mg_round M skip is table nxt f = Some (t', nx', f') \<and> mg_inv M n t' nx' f' \<and>
    f < f' \<and> (f' = M \<or> f' mod n = 0)"
  using assms
proof (induction "is" arbitrary: table nxt f)
  case Nil
  have "f mod n < n" using Nil.prems(3) by simp
  then show ?case using Nil.prems(4) [symmetric] by simp
next
  case (Cons i "is")
  have "f mod n < n" using Cons.prems(3) by simp
  then have "i # is = f mod n # [Suc (f mod n)..<n]" using Cons.prems(4) by (simp add: upt_conv_Cons)
  then have i: "i = f mod n" and is': "is = [Suc i..<n]" by auto
  then have "i < n" using \<open>f mod n < n\<close> by simp
  have "nxt ! i < M" "0 < M" using Cons.prems(1,2) \<open>i < n\<close> by (auto simp: mg_inv_def)
  then obtain c where c: "mg_probe table M (skip ! i) (nxt ! i) = Some c" "c < M" "table ! c = -1"
    using mg_probe_free Cons.prems(5) \<open>i < n\<close> mg_inv_free [OF Cons.prems(1,2)] by blast
  let ?t = "table[c := int i]" and ?nx = "nxt[i := (c + skip ! i) mod M]"
  have inv: "mg_inv M n ?t ?nx (Suc f)"
    by (rule mg_inv_step) (use Cons.prems i c \<open>0 < M\<close> in auto)
  show ?case
  proof (cases "Suc f \<ge> M")
    case True
    moreover have "Suc f = M" using True Cons.prems(2) by simp
    ultimately show ?thesis using c inv by auto
  next
    case less: False
    show ?thesis
    proof (cases "Suc i = n")
      case True
      then have "Suc f mod n = 0" using i by (simp add: mod_Suc)
      with True is' less c inv show ?thesis by auto
    next
      case False
      then have m: "Suc f mod n = Suc i" using i \<open>i < n\<close> by (simp add: mod_Suc)
      have "\<exists>t' nx' f'. mg_round M skip is ?t ?nx (Suc f) = Some (t', nx', f') \<and> mg_inv M n t' nx' f' \<and>
          Suc f < f' \<and> (f' = M \<or> f' mod n = 0)"
        using inv less Cons.prems m is' \<open>i < n\<close> False by (intro Cons.IH) auto
      with c less show ?thesis by auto
    qed
  qed
qed

lemma mg_fill_ok:
  assumes "mg_inv M n table nxt f" and "0 < n" and "f = M \<or> f mod n = 0"
    and "\<forall>i<n. coprime (skip ! i) M"
  shows "\<exists>t nx. mg_fill M skip n table nxt f = Some t \<and> mg_inv M n t nx M"
  using assms
proof (induction "M - f" arbitrary: table nxt f rule: less_induct)
  case less
  show ?case
  proof (cases "f < M")
    case False
    then have "f = M" using less.prems(1) by (simp add: mg_inv_def)
    with less.prems(1) show ?thesis by (subst mg_fill.simps) auto
  next
    case True
    then have "f mod n = 0" using less.prems(3) by simp
    then obtain t' nx' f' where r: "mg_round M skip [0..<n] table nxt f = Some (t', nx', f')"
      "mg_inv M n t' nx' f'" "f < f'" "f' = M \<or> f' mod n = 0"
      using mg_round_ok [OF less.prems(1) True less.prems(2) _ less.prems(4), of "[0..<n]"] by auto
    have "f' \<le> M" using r(2) by (simp add: mg_inv_def)
    then have "M - f' < M - f" using r(3) True by simp
    then obtain t nx where "mg_fill M skip n t' nx' f' = Some t" "mg_inv M n t nx M"
      using less.hyps [OF _ r(2) less.prems(2) r(4) less.prems(4)] by blast
    with r True show ?thesis by (subst mg_fill.simps) auto
  qed
qed

lemma count_list_replicate: "count_list (replicate k x) y = (if x = y then k else 0)"
  by (induction k) auto

lemma mg_Build_ok:
  assumes "dests \<noteq> []" and "1 < mg_tableSize m"
    and "\<forall>b\<in>set dests. coprime (mg_skip md5 (mg_tableSize m) b) (mg_tableSize m)"
  shows "\<exists>t nx. mg_Build md5 m dests =
      Inr (Some (m\<lparr>mg_table := t, mg_dests := map DestinationRef_DestinationID dests\<rparr>)) \<and>
    mg_inv (mg_tableSize m) (length dests) t nx (mg_tableSize m)"
proof -
  let ?M = "mg_tableSize m" and ?n = "length dests"
  have "mg_inv ?M ?n (replicate ?M (-1)) (map (mg_offset md5 ?M) dests) 0"
    using assms(2) by (auto simp: mg_inv_def mg_offset_def mg_share_def count_list_replicate)
  moreover have "\<forall>i<?n. coprime (map (mg_skip md5 ?M) dests ! i) ?M" using assms(3) by simp
  ultimately obtain t nx where "mg_fill ?M (map (mg_skip md5 ?M) dests) ?n (replicate ?M (-1))
      (map (mg_offset md5 ?M) dests) 0 = Some t" "mg_inv ?M ?n t nx ?M"
    using mg_fill_ok [of ?M ?n "replicate ?M (-1)" "map (mg_offset md5 ?M) dests" 0
        "map (mg_skip md5 ?M) dests"] assms(1) by auto
  then show ?thesis using assms(1,2) by (auto simp: mg_Build_def Let_def)
qed

lemma mg_PickByHash_ran: "mg_PickByHash m h keys draw endpoints = Inr (Some e) \<Longrightarrow> e \<in> ran endpoints"
  by (auto simp: mg_PickByHash_def Let_def ranI dest: pickRandomEndpoint_ran split: if_splits)

interpretation maglev: balancer
  "\<lambda>m (r, keys, draw) dests endpoints.
     (case mg_Pick m r keys draw endpoints of Inl p \<Rightarrow> None | Inr e \<Rightarrow> e, m)"
  by unfold_locales (auto simp: mg_Pick_def dest: mg_PickByHash_ran split: sum.splits)

subsection \<open>Prime table sizes\<close>

definition prime_size :: "nat \<Rightarrow> bool" where
  "prime_size M \<longleftrightarrow> 1 < M \<and> (\<forall>d. d dvd M \<longrightarrow> d = 1 \<or> d = M)"

lemma mg_skip_range: "1 < M \<Longrightarrow> 0 < mg_skip md5 M b \<and> mg_skip md5 M b < M"
proof -
  assume "1 < M"
  then have "unat (snd (md5 (DestinationRef_DestinationID b))) mod (M - 1) < M - 1"
    by (intro mod_less_divisor) simp
  then show ?thesis unfolding mg_skip_def by linarith
qed

lemma prime_size_coprime:
  assumes "prime_size M" and "0 < s" and "s < M"
  shows "coprime s M"
proof -
  have "gcd s M \<le> s" using assms(2) by (simp add: gcd_le1_nat)
  moreover have "gcd s M = 1 \<or> gcd s M = M" using assms(1) by (simp add: prime_size_def)
  ultimately have "gcd s M = 1" using assms(3) by auto
  then show ?thesis by (simp add: coprime_iff_gcd_eq_1)
qed

lemma mg_Build_prime:
  assumes "dests \<noteq> []" and "prime_size (mg_tableSize m)"
  obtains t nx where "mg_Build md5 m dests =
      Inr (Some (m\<lparr>mg_table := t, mg_dests := map DestinationRef_DestinationID dests\<rparr>))"
    and "mg_inv (mg_tableSize m) (length dests) t nx (mg_tableSize m)" and "-1 \<notin> set t"
proof -
  have M: "1 < mg_tableSize m" using assms(2) by (simp add: prime_size_def)
  then obtain t nx where t: "mg_Build md5 m dests =
      Inr (Some (m\<lparr>mg_table := t, mg_dests := map DestinationRef_DestinationID dests\<rparr>))"
    "mg_inv (mg_tableSize m) (length dests) t nx (mg_tableSize m)"
    using mg_Build_ok [OF assms(1) M] prime_size_coprime [OF assms(2)] mg_skip_range by blast
  moreover have "count_list t (-1) = 0" using t(2) by (simp add: mg_inv_def)
  then have "-1 \<notin> set t" by (simp add: count_list_0_iff)
  ultimately show ?thesis by (rule that)
qed

lemma trial_division:
  assumes "1 < M" and "M < K * K" and "\<forall>d\<in>{2..<K}. \<not> d dvd M"
  shows "prime_size M"
proof -
  have "d = 1 \<or> d = M" if "d dvd M" for d
  proof -
    from that obtain e where e: "M = d * e" by (rule dvdE)
    have "d < K \<or> e < K" using e assms(2) by (metis mult_le_mono not_le)
    moreover have "d dvd M" "e dvd M" using e by simp_all
    then have "d \<notin> {2..<K}" "e \<notin> {2..<K}" using assms(3) by blast+
    moreover have "0 < d * e" using e assms(1) by linarith
    then have "d \<noteq> 0" "e \<noteq> 0" by auto
    ultimately have "d = 1 \<or> e = 1" by auto
    then show ?thesis using e by auto
  qed
  then show ?thesis using assms(1) by (simp add: prime_size_def)
qed

lemma prime_size_65537: "prime_size 65537"
proof (rule trial_division [of _ 257])
  have "list_all (\<lambda>d. \<not> d dvd (65537 :: nat)) [2..<257]" by simp
  then show "\<forall>d\<in>{2..<257}. \<not> d dvd (65537 :: nat)" by (simp only: list_all_iff set_upt)
qed simp_all

subsection \<open>Table sizes that share a factor with a skip\<close>

lemma mod_class_step: "g dvd s \<Longrightarrow> g dvd M \<Longrightarrow> (c + s) mod M mod g = c mod (g :: nat)"
  by (subst mod_mod_cancel, assumption) (elim dvdE, simp)

lemma mg_probe_class:
  assumes "mg_probe table M s c = Some y"
  shows "table ! y = -1 \<and> (c < M \<longrightarrow> y < M) \<and> (g dvd s \<longrightarrow> g dvd M \<longrightarrow> y mod g = c mod g)"
proof (rule mg_probe.raw_induct
    [of "\<lambda>t M s c y. t ! y = -1 \<and> (c < M \<longrightarrow> y < M) \<and> (g dvd s \<longrightarrow> g dvd M \<longrightarrow> y mod g = c mod g)",
      OF _ assms], goal_cases)
  case (1 f table M s c y)
  show ?case
  proof (cases "table ! c = -1")
    case True
    with 1(2) show ?thesis by simp
  next
    case False
    with 1 have IH: "table ! y = -1 \<and> ((c + s) mod M < M \<longrightarrow> y < M) \<and>
        (g dvd s \<longrightarrow> g dvd M \<longrightarrow> y mod g = (c + s) mod M mod g)" by simp
    with mod_class_step [of g s M c] show ?thesis by auto
  qed
qed

text \<open>With a single destination every filled slot stays in the residue class of its offset.\<close>

definition mg_class :: "nat \<Rightarrow> nat \<Rightarrow> nat \<Rightarrow> int list \<Rightarrow> nat list \<Rightarrow> nat \<Rightarrow> bool" where
  "mg_class M g k table nxt f \<longleftrightarrow>
     length table = M \<and> (\<exists>x<M. nxt = [x] \<and> x mod g = k) \<and> f + count_list table (-1) = M \<and>
     (\<forall>c<M. table ! c \<noteq> -1 \<longrightarrow> c mod g = k)"

lemma mg_class_round:
  assumes "mg_class M g k table nxt f" and "g dvd s" and "g dvd M"
    and r: "mg_round M [s] [0] table nxt f = Some (t', nx', f')"
  shows "mg_class M g k t' nx' f'"
proof -
  obtain x where x: "nxt = [x]" "x < M" "x mod g = k" using assms(1) by (auto simp: mg_class_def)
  obtain c where c: "mg_probe table M s x = Some c"
    using r x by (auto split: option.splits)
  then have c': "table ! c = -1" "c < M" "c mod g = k"
    using mg_probe_class [OF c, of g] assms(2,3) x by auto
  have res: "t' = table[c := 0]" "nx' = [(c + s) mod M]" "f' = Suc f"
    using r x c by (auto simp: Let_def split: if_splits)
  have len: "length table = M" using assms(1) by (simp add: mg_class_def)
  have "count_list t' (-1) = count_list table (-1) - 1"
    using c' len by (simp add: res count_list_update)
  moreover have "count_list table (-1) \<noteq> 0"
    using c' len nth_mem [of c table] by (simp add: count_list_0_iff)
  moreover have "(c + s) mod M mod g = k"
    using c'(3) mod_class_step [OF assms(2,3)] by simp
  moreover have "(c + s) mod M < M" using x(2) by simp
  ultimately show ?thesis
    using assms(1) len c' by (auto simp: mg_class_def res nth_list_update)
qed

lemma mg_fill_class:
  assumes "mg_fill M [s] 1 table nxt f = Some t" and "mg_class M g k table nxt f"
    and "g dvd s" and "g dvd M"
  shows "\<forall>c<M. c mod g = k"
proof -
  have "sk = [s] \<and> n = 1 \<and> mg_class M g k table nxt f \<and> M' = M \<longrightarrow> (\<forall>c<M. c mod g = k)"
    if "mg_fill M' sk n table nxt f = Some t" for M' sk n
  proof (rule mg_fill.raw_induct
      [of "\<lambda>M' sk n table nxt f t. sk = [s] \<and> n = 1 \<and> mg_class M g k table nxt f \<and> M' = M \<longrightarrow>
             (\<forall>c<M. c mod g = k)", OF _ that], goal_cases)
    case (1 fill M' sk n table nxt f t)
    show ?case
    proof (intro impI)
      assume a: "sk = [s] \<and> n = 1 \<and> mg_class M g k table nxt f \<and> M' = M"
      show "\<forall>c<M. c mod g = k"
      proof (cases "f < M")
        case True
        then obtain t' nx' f' where r: "mg_round M [s] [0] table nxt f = Some (t', nx', f')"
          and "fill M [s] 1 t' nx' f' = Some t"
          using 1(2) a by (auto simp: upt_rec split: option.splits)
        then show ?thesis using 1(1) mg_class_round [OF _ assms(3,4) r] a by blast
      next
        case False
        then have "count_list table (-1) = 0" using a by (simp add: mg_class_def)
        then have "-1 \<notin> set table" by (simp add: count_list_0_iff)
        then show ?thesis using a by (metis mg_class_def nth_mem)
      qed
    qed
  qed
  with assms show ?thesis by blast
qed

lemma mg_Build_single_diverges:
  assumes "1 < mg_tableSize m" and "\<not> coprime (mg_skip md5 (mg_tableSize m) b) (mg_tableSize m)"
  shows "mg_Build md5 m [b] = Inr None"
proof -
  let ?M = "mg_tableSize m" and ?s = "mg_skip md5 (mg_tableSize m) b"
    and ?o = "mg_offset md5 (mg_tableSize m) b"
  define g where "g = gcd ?s ?M"
  have g: "g dvd ?s" "g dvd ?M" "1 < g"
    using assms by (auto simp: g_def coprime_iff_gcd_eq_1 Suc_lessI)
  have "mg_class ?M g (?o mod g) (replicate ?M (-1)) [?o] 0"
    using assms(1) by (auto simp: mg_class_def mg_offset_def count_list_replicate)
  moreover have "\<not> (\<forall>c<?M. c mod g = ?o mod g)"
  proof
    assume all: "\<forall>c<?M. c mod g = ?o mod g"
    have "0 mod g = ?o mod g" by (rule all [rule_format]) (use assms(1) in linarith)
    moreover have "1 mod g = ?o mod g" using all assms(1) by blast
    ultimately show False using g(3) by simp
  qed
  ultimately have "mg_fill ?M [?s] 1 (replicate ?M (-1)) [?o] 0 = None"
    using mg_fill_class [OF _ _ g(1,2)] by (metis option.exhaust)
  then show ?thesis using assms(1) by (simp add: mg_Build_def Let_def)
qed

subsection \<open>Properties\<close>

text \<open>C19: With a prime table size, building the Maglev table ends, whatever the digests are. Every
  slot of the table then names a destination, and the slots are shared evenly: each destination
  holds the quotient of the table size by the number of destinations, and the first ones hold one
  more until the remainder is used up.\<close>

theorem mg_Build_terminates_even:
  assumes "dests \<noteq> []" and "prime_size (mg_tableSize m)"
  shows "\<exists>t. mg_Build md5 m dests =
      Inr (Some (m\<lparr>mg_table := t, mg_dests := map DestinationRef_DestinationID dests\<rparr>)) \<and>
    length t = mg_tableSize m \<and> set t \<subseteq> int ` {..<length dests} \<and>
    (\<forall>i<length dests. count_list t (int i) =
       mg_tableSize m div length dests + (if i < mg_tableSize m mod length dests then 1 else 0))"
proof -
  obtain t nx where "mg_Build md5 m dests =
      Inr (Some (m\<lparr>mg_table := t, mg_dests := map DestinationRef_DestinationID dests\<rparr>))"
    "mg_inv (mg_tableSize m) (length dests) t nx (mg_tableSize m)" "-1 \<notin> set t"
    by (rule mg_Build_prime [OF assms])
  then show ?thesis by (auto simp: mg_inv_def mg_share_def)
qed

theorem mg_Build_terminates_even_witness:
  "\<exists>t. mg_Build (\<lambda>d. (7, 12)) (NewMaglevBalancer 0)
      [\<lparr>DestinationRef_DestinationID = ''a:80'', DestinationRef_Weight = 1\<rparr>,
       \<lparr>DestinationRef_DestinationID = ''b:80'', DestinationRef_Weight = 1\<rparr>] =
      Inr (Some ((NewMaglevBalancer 0)\<lparr>mg_table := t, mg_dests := [''a:80'', ''b:80'']\<rparr>)) \<and>
    count_list t 0 = 32769 \<and> count_list t 1 = 32768"
proof -
  have sz: "mg_tableSize (NewMaglevBalancer 0) = 65537" by (simp add: NewMaglevBalancer_def)
  obtain t where t: "mg_Build (\<lambda>d. (7, 12)) (NewMaglevBalancer 0)
      [\<lparr>DestinationRef_DestinationID = ''a:80'', DestinationRef_Weight = 1\<rparr>,
       \<lparr>DestinationRef_DestinationID = ''b:80'', DestinationRef_Weight = 1\<rparr>] =
      Inr (Some ((NewMaglevBalancer 0)\<lparr>mg_table := t, mg_dests := [''a:80'', ''b:80'']\<rparr>))"
    "\<forall>i<2. count_list t (int i) = 65537 div 2 + (if i < 65537 mod 2 then 1 else 0)"
    using mg_Build_terminates_even [of
      "[\<lparr>DestinationRef_DestinationID = ''a:80'', DestinationRef_Weight = 1\<rparr>,
        \<lparr>DestinationRef_DestinationID = ''b:80'', DestinationRef_Weight = 1\<rparr>]"
      "NewMaglevBalancer 0" "\<lambda>d. (7, 12)"] prime_size_65537
    by (auto simp: sz numeral_2_eq_2 [symmetric])
  have "count_list t (int 0) = 32769" "count_list t (int 1) = 32768"
    using t(2) [rule_format, of 0] t(2) [rule_format, of 1] by simp_all
  with t(1) show ?thesis by auto
qed

text \<open>C22: For a single destination and a table of more than one slot, building the Maglev table ends
  if and only if the skip derived from the digest is coprime to the table size. The table size is
  not validated, so a composite size makes the construction run forever for some destinations.\<close>

theorem mg_Build_single_returns_iff:
  assumes "1 < mg_tableSize m"
  shows "mg_Build md5 m [b] \<noteq> Inr None \<longleftrightarrow> coprime (mg_skip md5 (mg_tableSize m) b) (mg_tableSize m)"
proof
  assume "coprime (mg_skip md5 (mg_tableSize m) b) (mg_tableSize m)"
  then show "mg_Build md5 m [b] \<noteq> Inr None"
    using mg_Build_ok [of "[b]" m md5] assms by auto
qed (use mg_Build_single_diverges [OF assms] in blast)

theorem mg_Build_single_returns_iff_witness:
  "mg_Build (\<lambda>d. (0, 1)) (NewMaglevBalancer 4)
     [\<lparr>DestinationRef_DestinationID = ''a:80'', DestinationRef_Weight = 1\<rparr>] = Inr None"
  using mg_Build_single_returns_iff [of "NewMaglevBalancer 4" "\<lambda>d. (0, 1)"
      "\<lparr>DestinationRef_DestinationID = ''a:80'', DestinationRef_Weight = 1\<rparr>"]
    not_coprimeI [of 2 "2 :: nat" 4]
  by (simp add: NewMaglevBalancer_def mg_skip_def numeral_2_eq_2 [symmetric])

text \<open>A lookup in a table that was built with a prime size below two to the power of 32 never
  panics and never falls back to a random endpoint: it returns what the endpoint map holds for the
  destination in the slot of the hash.\<close>

theorem mg_PickByHash_built:
  assumes "dests \<noteq> []" and "prime_size (mg_tableSize m)" and "mg_tableSize m < 2 ^ 32"
    and "mg_Build md5 m dests = Inr (Some m')"
  shows "\<exists>i<length dests. mg_table m' ! (unat h mod mg_tableSize m) = int i \<and>
    mg_PickByHash m' h keys draw endpoints = Inr (endpoints (DestinationRef_DestinationID (dests ! i)))"
proof -
  let ?M = "mg_tableSize m"
  have M: "1 < ?M" using assms(2) by (simp add: prime_size_def)
  obtain t nx where "mg_Build md5 m dests =
      Inr (Some (m\<lparr>mg_table := t, mg_dests := map DestinationRef_DestinationID dests\<rparr>))"
    and inv: "mg_inv ?M (length dests) t nx ?M" "-1 \<notin> set t"
    by (rule mg_Build_prime [OF assms(1,2)])
  then have t: "m' = m\<lparr>mg_table := t, mg_dests := map DestinationRef_DestinationID dests\<rparr>"
    using assms(4) by simp
  have len: "length t = ?M" using inv(1) by (simp add: mg_inv_def)
  have u: "unat (of_nat ?M :: uint32) = ?M" using assms(3) by (simp add: unat_of_nat)
  then have slot: "unat (h mod of_nat ?M) = unat h mod ?M" by (simp add: unat_mod_distrib)
  have "t ! (unat h mod ?M) \<in> set t" using len M by (intro nth_mem) simp
  moreover have "set t \<subseteq> int ` {..<length dests}" using inv by (auto simp: mg_inv_def)
  ultimately obtain i where i: "i < length dests" "t ! (unat h mod ?M) = int i" by blast
  have nz: "(of_nat ?M :: uint32) \<noteq> 0" using u M by auto
  have "?M \<noteq> 0" using M by simp
  with i len nz assms(1) show ?thesis
    by (intro exI [of _ i]) (simp add: t mg_PickByHash_def Let_def slot)
qed

theorem mg_PickByHash_built_witness:
  "\<exists>m'. mg_Build (\<lambda>d. (7, 12)) (NewMaglevBalancer 0)
      [\<lparr>DestinationRef_DestinationID = ''a:80'', DestinationRef_Weight = 1\<rparr>] = Inr (Some m') \<and>
    mg_PickByHash m' 99 [''a:80''] 0 [''a:80'' \<mapsto> (1 :: nat)] = Inr (Some 1)"
proof -
  let ?b = "\<lparr>DestinationRef_DestinationID = ''a:80'', DestinationRef_Weight = 1\<rparr>"
  have sz: "mg_tableSize (NewMaglevBalancer 0) = 65537" by (simp add: NewMaglevBalancer_def)
  obtain t nx where t: "mg_Build (\<lambda>d. (7, 12)) (NewMaglevBalancer 0) [?b] =
      Inr (Some ((NewMaglevBalancer 0)\<lparr>mg_table := t,
        mg_dests := map DestinationRef_DestinationID [?b]\<rparr>))"
    by (rule mg_Build_prime [of "[?b]" "NewMaglevBalancer 0"]) (simp_all add: sz prime_size_65537)
  then show ?thesis
    using mg_PickByHash_built [OF _ _ _ t, of 99 "[''a:80'']" 0 "[''a:80'' \<mapsto> (1 :: nat)]"] prime_size_65537
    by (auto simp: sz)
qed

end
