(* ===== verification/Circuit_Breaker.thy ===== *)
theory Circuit_Breaker
  imports Model
begin

text \<open>
  The circuit breaker of \<^verbatim>\<open>server/internal/proxy/circuit.go\<close>. The first part models each method
  as a function on the breaker's record and refines a three-state specification. The second part
  models the methods at the granularity of their atomic operations, with any number of goroutines
  interleaved, and bounds the number of half-open probes by the number of open to half-open
  transitions.
\<close>

subsection \<open>The methods\<close>

datatype CircuitState = CircuitClosed | CircuitOpen | CircuitHalfOpen

definition defaultFailureThreshold :: int where
  "defaultFailureThreshold = 5"

definition defaultOpenDuration :: duration where
  "defaultOpenDuration = 30 * 10 ^ 9"

record CircuitBreaker =
  cb_maxConnections :: uint32
  cb_maxPendingRequests :: uint32
  cb_maxRequests :: uint32
  cb_maxRetries :: uint32
  cb_failureThreshold :: int
  cb_activeConnections :: int
  cb_activeRequests :: int
  cb_consecutiveFailures :: int
  cb_state :: CircuitState
  cb_halfOpenAllowed :: int
  cb_lastFailure :: time
  cb_openDuration :: duration

definition NewCircuitBreaker ::
  "(string \<Rightarrow> duration option) \<Rightarrow> uint32 \<Rightarrow> uint32 \<Rightarrow> uint32 \<Rightarrow> uint32 \<Rightarrow> uint32 \<Rightarrow> string \<Rightarrow> time \<Rightarrow>
   CircuitBreaker" where
  "NewCircuitBreaker parseDuration maxConn maxPending maxReq maxRetry failThreshold openDur zeroTime =
     \<lparr>cb_maxConnections = (if maxConn = 0 then 1024 else maxConn),
      cb_maxPendingRequests = (if maxPending = 0 then 1024 else maxPending),
      cb_maxRequests = (if maxReq = 0 then 1024 else maxReq),
      cb_maxRetries = (if maxRetry = 0 then 3 else maxRetry),
      cb_failureThreshold = (if failThreshold > 0 then uint failThreshold else defaultFailureThreshold),
      cb_activeConnections = 0, cb_activeRequests = 0, cb_consecutiveFailures = 0,
      cb_state = CircuitClosed, cb_halfOpenAllowed = 0, cb_lastFailure = zeroTime,
      cb_openDuration =
        (if openDur \<noteq> '''' then
           (case parseDuration openDur of Some d \<Rightarrow> d | None \<Rightarrow> defaultOpenDuration)
         else defaultOpenDuration)\<rparr>"

text \<open>The atomic decrement and test that grants a half-open probe.\<close>

definition takeProbe :: "CircuitBreaker \<Rightarrow> bool \<times> CircuitBreaker" where
  "takeProbe cb =
     (let v = swrap 32 (cb_halfOpenAllowed cb - 1)
      in (v \<ge> 0, cb\<lparr>cb_halfOpenAllowed := v\<rparr>))"

definition Allow :: "time \<Rightarrow> CircuitBreaker \<Rightarrow> bool \<times> CircuitBreaker" where
  "Allow now cb =
     (case cb_state cb of
        CircuitOpen \<Rightarrow>
          if timeSub now (cb_lastFailure cb) > cb_openDuration cb
          then takeProbe (cb\<lparr>cb_state := CircuitHalfOpen, cb_halfOpenAllowed := 1\<rparr>)
          else (False, cb)
      | CircuitHalfOpen \<Rightarrow> takeProbe cb
      | CircuitClosed \<Rightarrow>
          if cb_activeConnections cb \<ge> uint (cb_maxConnections cb) then (False, cb)
          else if cb_activeRequests cb \<ge> uint (cb_maxRequests cb) then (False, cb)
          else (True, cb))"

definition RecordSuccess :: "CircuitBreaker \<Rightarrow> CircuitBreaker" where
  "RecordSuccess cb = cb\<lparr>cb_consecutiveFailures := 0, cb_state := CircuitClosed\<rparr>"

definition RecordFailure :: "time \<Rightarrow> CircuitBreaker \<Rightarrow> CircuitBreaker" where
  "RecordFailure now cb =
     (let failures = swrap 64 (cb_consecutiveFailures cb + 1);
          cb = cb\<lparr>cb_consecutiveFailures := failures\<rparr>
      in if failures \<ge> cb_failureThreshold cb
         then cb\<lparr>cb_state := CircuitOpen, cb_lastFailure := now\<rparr> else cb)"

definition OnRequest :: "CircuitBreaker \<Rightarrow> CircuitBreaker" where
  "OnRequest cb =
     cb\<lparr>cb_activeRequests := swrap 64 (cb_activeRequests cb + 1),
        cb_activeConnections := swrap 64 (cb_activeConnections cb + 1)\<rparr>"

definition OnComplete :: "CircuitBreaker \<Rightarrow> CircuitBreaker" where
  "OnComplete cb =
     cb\<lparr>cb_activeRequests := swrap 64 (cb_activeRequests cb - 1),
        cb_activeConnections := swrap 64 (cb_activeConnections cb - 1)\<rparr>"

subsection \<open>Calls and their sequences\<close>

datatype cb_call = CallAllow time | CallSuccess | CallFailure time | CallRequest | CallComplete

fun cb_exec :: "cb_call \<Rightarrow> CircuitBreaker \<Rightarrow> bool option \<times> CircuitBreaker" where
  "cb_exec (CallAllow now) cb = (let (b, cb') = Allow now cb in (Some b, cb'))"
| "cb_exec CallSuccess cb = (None, RecordSuccess cb)"
| "cb_exec (CallFailure now) cb = (None, RecordFailure now cb)"
| "cb_exec CallRequest cb = (None, OnRequest cb)"
| "cb_exec CallComplete cb = (None, OnComplete cb)"

fun cb_run :: "cb_call list \<Rightarrow> CircuitBreaker \<Rightarrow> bool option list \<times> CircuitBreaker" where
  "cb_run [] cb = ([], cb)"
| "cb_run (c # cs) cb =
     (let (b, cb1) = cb_exec c cb; (bs, cb2) = cb_run cs cb1 in (b # bs, cb2))"

subsection \<open>Specification\<close>

text \<open>
  The breaker promises three states: closed with a count of consecutive failures, open since an
  instant, and half-open with its only probe handed out.
\<close>

datatype breaker = BClosed nat | BOpen time | BHalfOpen

record spec =
  sp_breaker :: breaker
  sp_active :: int

fun spec_exec :: "CircuitBreaker \<Rightarrow> cb_call \<Rightarrow> spec \<Rightarrow> bool option \<times> spec" where
  "spec_exec cfg (CallAllow now) s =
     (case sp_breaker s of
        BClosed k \<Rightarrow>
          (Some (sp_active s < uint (cb_maxConnections cfg) \<and> sp_active s < uint (cb_maxRequests cfg)), s)
      | BOpen t \<Rightarrow>
          if timeSub now t > cb_openDuration cfg then (Some True, s\<lparr>sp_breaker := BHalfOpen\<rparr>)
          else (Some False, s)
      | BHalfOpen \<Rightarrow> (Some False, s))"
| "spec_exec cfg CallSuccess s = (None, s\<lparr>sp_breaker := BClosed 0\<rparr>)"
| "spec_exec cfg (CallFailure now) s =
     (None, s\<lparr>sp_breaker :=
        (case sp_breaker s of
           BClosed k \<Rightarrow> if int (Suc k) \<ge> cb_failureThreshold cfg then BOpen now else BClosed (Suc k)
         | BOpen t \<Rightarrow> BOpen now
         | BHalfOpen \<Rightarrow> BOpen now)\<rparr>)"
| "spec_exec cfg CallRequest s = (None, s\<lparr>sp_active := sp_active s + 1\<rparr>)"
| "spec_exec cfg CallComplete s = (None, s\<lparr>sp_active := sp_active s - 1\<rparr>)"

fun spec_run :: "CircuitBreaker \<Rightarrow> cb_call list \<Rightarrow> spec \<Rightarrow> bool option list \<times> spec" where
  "spec_run cfg [] s = ([], s)"
| "spec_run cfg (c # cs) s =
     (let (b, s1) = spec_exec cfg c s; (bs, s2) = spec_run cfg cs s1 in (b # bs, s2))"

definition cb_abs :: "CircuitBreaker \<Rightarrow> spec" where
  "cb_abs cb =
     \<lparr>sp_breaker =
        (case cb_state cb of
           CircuitClosed \<Rightarrow> BClosed (nat (cb_consecutiveFailures cb))
         | CircuitOpen \<Rightarrow> BOpen (cb_lastFailure cb)
         | CircuitHalfOpen \<Rightarrow> BHalfOpen),
      sp_active = cb_activeRequests cb\<rparr>"

text \<open>The invariant, with the distance to the ends of the integer ranges: \<open>n\<close> more calls cannot
  overflow a counter.\<close>

definition cb_inv :: "nat \<Rightarrow> CircuitBreaker \<Rightarrow> bool" where
  "cb_inv n cb \<longleftrightarrow>
     0 < cb_failureThreshold cb \<and>
     cb_activeConnections cb = cb_activeRequests cb \<and>
     0 \<le> cb_consecutiveFailures cb \<and>
     (cb_state cb = CircuitClosed \<longleftrightarrow> cb_consecutiveFailures cb < cb_failureThreshold cb) \<and>
     (cb_state cb = CircuitHalfOpen \<longrightarrow> cb_halfOpenAllowed cb \<le> 0 \<and> - (2 ^ 31) \<le> cb_halfOpenAllowed cb - int n) \<and>
     cb_consecutiveFailures cb + int n < 2 ^ 63 \<and>
     \<bar>cb_activeRequests cb\<bar> + int n < 2 ^ 63 \<and> n < 2 ^ 31"

definition same_cfg :: "CircuitBreaker \<Rightarrow> CircuitBreaker \<Rightarrow> bool" where
  "same_cfg cfg cb \<longleftrightarrow>
     cb_failureThreshold cb = cb_failureThreshold cfg \<and> cb_openDuration cb = cb_openDuration cfg \<and>
     cb_maxConnections cb = cb_maxConnections cfg \<and> cb_maxRequests cb = cb_maxRequests cfg"

lemma swrap32_id: "- (2 ^ 31) \<le> x \<Longrightarrow> x < 2 ^ 31 \<Longrightarrow> swrap 32 x = x"
  by (rule swrap_id) (simp_all add: fits_def)

lemma swrap64_id: "- (2 ^ 63) \<le> x \<Longrightarrow> x < 2 ^ 63 \<Longrightarrow> swrap 64 x = x"
  by (rule swrap_id) (simp_all add: fits_def)

lemmas cb_sim_defs = cb_inv_def same_cfg_def cb_abs_def

lemma Allow_sim:
  assumes "cb_inv (Suc n) cb" and "same_cfg cfg cb"
  shows "spec_exec cfg (CallAllow now) (cb_abs cb) = (Some (fst (Allow now cb)), cb_abs (snd (Allow now cb))) \<and>
    cb_inv n (snd (Allow now cb)) \<and> same_cfg cfg (snd (Allow now cb))"
proof (cases "cb_state cb")
  case CircuitClosed
  with assms show ?thesis by (auto simp: cb_sim_defs Allow_def)
next
  case CircuitOpen
  have "swrap 32 0 = 0" by (simp add: swrap_def)
  with CircuitOpen assms show ?thesis by (auto simp: cb_sim_defs Allow_def takeProbe_def)
next
  case CircuitHalfOpen
  have h: "cb_halfOpenAllowed cb \<le> 0" "- (2 ^ 31) \<le> cb_halfOpenAllowed cb - 1"
    using assms(1) CircuitHalfOpen by (auto simp: cb_inv_def)
  have "swrap 32 (cb_halfOpenAllowed cb - 1) = cb_halfOpenAllowed cb - 1"
    by (rule swrap32_id) (use h in linarith)+
  with CircuitHalfOpen assms h show ?thesis by (auto simp: cb_sim_defs Allow_def takeProbe_def)
qed

lemma RecordSuccess_sim:
  assumes "cb_inv (Suc n) cb" and "same_cfg cfg cb"
  shows "spec_exec cfg CallSuccess (cb_abs cb) = (None, cb_abs (RecordSuccess cb)) \<and>
    cb_inv n (RecordSuccess cb) \<and> same_cfg cfg (RecordSuccess cb)"
  using assms by (auto simp: cb_sim_defs RecordSuccess_def)

lemma RecordFailure_sim:
  assumes "cb_inv (Suc n) cb" and "same_cfg cfg cb"
  shows "spec_exec cfg (CallFailure now) (cb_abs cb) = (None, cb_abs (RecordFailure now cb)) \<and>
    cb_inv n (RecordFailure now cb) \<and> same_cfg cfg (RecordFailure now cb)"
proof -
  have f: "0 \<le> cb_consecutiveFailures cb" "cb_consecutiveFailures cb + 1 < 2 ^ 63"
    using assms(1) by (auto simp: cb_inv_def)
  have s: "swrap 64 (cb_consecutiveFailures cb + 1) = cb_consecutiveFailures cb + 1"
    by (rule swrap64_id) (use f in linarith)+
  have n: "nat (cb_consecutiveFailures cb + 1) = Suc (nat (cb_consecutiveFailures cb))" using f by simp
  show ?thesis using assms f
    by (cases "cb_state cb") (auto simp: cb_sim_defs RecordFailure_def s n)
qed

lemma OnRequest_sim:
  assumes "cb_inv (Suc n) cb" and "same_cfg cfg cb"
  shows "spec_exec cfg CallRequest (cb_abs cb) = (None, cb_abs (OnRequest cb)) \<and>
    cb_inv n (OnRequest cb) \<and> same_cfg cfg (OnRequest cb)"
proof -
  have f: "\<bar>cb_activeRequests cb\<bar> + 1 < 2 ^ 63" using assms(1) by (auto simp: cb_inv_def)
  have s: "swrap 64 (cb_activeRequests cb + 1) = cb_activeRequests cb + 1"
    by (rule swrap64_id) (use f in linarith)+
  show ?thesis using assms by (cases "cb_state cb") (auto simp: cb_sim_defs OnRequest_def s)
qed

lemma OnComplete_sim:
  assumes "cb_inv (Suc n) cb" and "same_cfg cfg cb"
  shows "spec_exec cfg CallComplete (cb_abs cb) = (None, cb_abs (OnComplete cb)) \<and>
    cb_inv n (OnComplete cb) \<and> same_cfg cfg (OnComplete cb)"
proof -
  have f: "\<bar>cb_activeRequests cb\<bar> + 1 < 2 ^ 63" using assms(1) by (auto simp: cb_inv_def)
  have s: "swrap 64 (cb_activeRequests cb - 1) = cb_activeRequests cb - 1"
    by (rule swrap64_id) (use f in linarith)+
  show ?thesis using assms by (cases "cb_state cb") (auto simp: cb_sim_defs OnComplete_def s)
qed

lemma cb_exec_sim:
  assumes "cb_inv (Suc n) cb" and "same_cfg cfg cb" and "cb_exec c cb = (b, cb')"
  shows "spec_exec cfg c (cb_abs cb) = (b, cb_abs cb') \<and> cb_inv n cb' \<and> same_cfg cfg cb'"
  using assms(3) Allow_sim [OF assms(1,2)] RecordSuccess_sim [OF assms(1,2)]
    RecordFailure_sim [OF assms(1,2)] OnRequest_sim [OF assms(1,2)] OnComplete_sim [OF assms(1,2)]
  by (cases c) (auto simp: split_def Let_def simp del: spec_exec.simps)

lemma cb_run_sim:
  assumes "cb_inv (length cs) cb" and "same_cfg cfg cb" and "cb_run cs cb = (bs, cb')"
  shows "spec_run cfg cs (cb_abs cb) = (bs, cb_abs cb') \<and> cb_inv 0 cb' \<and> same_cfg cfg cb'"
  using assms
proof (induction cs arbitrary: cb bs)
  case (Cons c cs)
  obtain b cb1 where e: "cb_exec c cb = (b, cb1)" by fastforce
  obtain bs1 where r: "cb_run cs cb1 = (bs1, cb')" "bs = b # bs1"
    using Cons.prems(3) e by (auto split: prod.splits)
  have "cb_inv (Suc (length cs)) cb" using Cons.prems(1) by simp
  from cb_exec_sim [OF this Cons.prems(2) e] Cons.IH [of cb1 bs1] r show ?case by simp
qed (simp add: cb_inv_def)

subsection \<open>Interleaved goroutines\<close>

text \<open>
  Each goroutine runs the handler's protocol around the breaker: \<^verbatim>\<open>Allow\<close>, then, when it is
  granted, the request, and then \<^verbatim>\<open>RecordSuccess\<close> or \<^verbatim>\<open>RecordFailure\<close>, or neither when the
  handler is aborted by a panic. The program counter says which atomic operation comes next. The
  ghost fields count the open to half-open transitions, the decrements of the probe counter and the
  probes granted, and hold the instant at which the state was last set to open.
\<close>

datatype pc =
  PIdle | PLoad | PElapsed | PSwap | PStore | PTake | PConn | PReq | PDenied | PBusy
| PFail | POpen | PStamp | PSuccess | PClose

record cbsys =
  sys_cb :: CircuitBreaker
  sys_pc :: "nat \<Rightarrow> pc"
  sys_clock :: time
  sys_swaps :: nat
  sys_takes :: nat
  sys_probes :: nat
  sys_openedAt :: time

definition sys_init :: "CircuitBreaker \<Rightarrow> time \<Rightarrow> cbsys" where
  "sys_init cb t0 =
     \<lparr>sys_cb = cb, sys_pc = (\<lambda>t. PIdle), sys_clock = t0, sys_swaps = 0, sys_takes = 0,
      sys_probes = 0, sys_openedAt = t0\<rparr>"

abbreviation goto :: "nat \<Rightarrow> pc \<Rightarrow> cbsys \<Rightarrow> cbsys" where
  "goto t p s \<equiv> s\<lparr>sys_pc := (sys_pc s)(t := p)\<rparr>"

inductive cb_step :: "cbsys \<Rightarrow> cbsys \<Rightarrow> bool" where
  tick: "sys_clock s \<le> now \<Longrightarrow> cb_step s (s\<lparr>sys_clock := now\<rparr>)"
| call: "sys_pc s t = PIdle \<Longrightarrow> cb_step s (goto t PLoad s)"
| load_open: "sys_pc s t = PLoad \<Longrightarrow> cb_state (sys_cb s) = CircuitOpen \<Longrightarrow> cb_step s (goto t PElapsed s)"
| load_half: "sys_pc s t = PLoad \<Longrightarrow> cb_state (sys_cb s) = CircuitHalfOpen \<Longrightarrow> cb_step s (goto t PTake s)"
| load_closed: "sys_pc s t = PLoad \<Longrightarrow> cb_state (sys_cb s) = CircuitClosed \<Longrightarrow> cb_step s (goto t PConn s)"
| elapsed: "sys_pc s t = PElapsed \<Longrightarrow>
    timeSub (sys_clock s) (cb_lastFailure (sys_cb s)) > cb_openDuration (sys_cb s) \<Longrightarrow>
    cb_step s (goto t PSwap s)"
| not_elapsed: "sys_pc s t = PElapsed \<Longrightarrow>
    \<not> timeSub (sys_clock s) (cb_lastFailure (sys_cb s)) > cb_openDuration (sys_cb s) \<Longrightarrow>
    cb_step s (goto t PDenied s)"
| swap: "sys_pc s t = PSwap \<Longrightarrow> cb_state (sys_cb s) = CircuitOpen \<Longrightarrow>
    cb_step s (goto t PStore (s\<lparr>sys_cb := (sys_cb s)\<lparr>cb_state := CircuitHalfOpen\<rparr>,
                               sys_swaps := Suc (sys_swaps s)\<rparr>))"
| no_swap: "sys_pc s t = PSwap \<Longrightarrow> cb_state (sys_cb s) \<noteq> CircuitOpen \<Longrightarrow> cb_step s (goto t PTake s)"
| store: "sys_pc s t = PStore \<Longrightarrow>
    cb_step s (goto t PTake (s\<lparr>sys_cb := (sys_cb s)\<lparr>cb_halfOpenAllowed := 1\<rparr>\<rparr>))"
| take: "sys_pc s t = PTake \<Longrightarrow> takeProbe (sys_cb s) = (b, cb') \<Longrightarrow>
    cb_step s (goto t (if b then PBusy else PDenied)
                 (s\<lparr>sys_cb := cb', sys_takes := Suc (sys_takes s),
                    sys_probes := sys_probes s + (if b then 1 else 0)\<rparr>))"
| conn: "sys_pc s t = PConn \<Longrightarrow>
    cb_step s (goto t (if cb_activeConnections (sys_cb s) \<ge> uint (cb_maxConnections (sys_cb s))
                       then PDenied else PReq) s)"
| req: "sys_pc s t = PReq \<Longrightarrow>
    cb_step s (goto t (if cb_activeRequests (sys_cb s) \<ge> uint (cb_maxRequests (sys_cb s))
                       then PDenied else PBusy) s)"
| denied: "sys_pc s t = PDenied \<Longrightarrow> cb_step s (goto t PIdle s)"
| aborted: "sys_pc s t = PBusy \<Longrightarrow> cb_step s (goto t PIdle s)"
| failed: "sys_pc s t = PBusy \<Longrightarrow> cb_step s (goto t PFail s)"
| succeeded: "sys_pc s t = PBusy \<Longrightarrow> cb_step s (goto t PSuccess s)"
| count: "sys_pc s t = PFail \<Longrightarrow> f = swrap 64 (cb_consecutiveFailures (sys_cb s) + 1) \<Longrightarrow>
    cb_step s (goto t (if f \<ge> cb_failureThreshold (sys_cb s) then POpen else PIdle)
                 (s\<lparr>sys_cb := (sys_cb s)\<lparr>cb_consecutiveFailures := f\<rparr>\<rparr>))"
| set_open: "sys_pc s t = POpen \<Longrightarrow>
    cb_step s (goto t PStamp (s\<lparr>sys_cb := (sys_cb s)\<lparr>cb_state := CircuitOpen\<rparr>,
                               sys_openedAt := sys_clock s\<rparr>))"
| stamp: "sys_pc s t = PStamp \<Longrightarrow>
    cb_step s (goto t PIdle (s\<lparr>sys_cb := (sys_cb s)\<lparr>cb_lastFailure := sys_clock s\<rparr>\<rparr>))"
| reset: "sys_pc s t = PSuccess \<Longrightarrow>
    cb_step s (goto t PClose (s\<lparr>sys_cb := (sys_cb s)\<lparr>cb_consecutiveFailures := 0\<rparr>\<rparr>))"
| set_closed: "sys_pc s t = PClose \<Longrightarrow>
    cb_step s (goto t PIdle (s\<lparr>sys_cb := (sys_cb s)\<lparr>cb_state := CircuitClosed\<rparr>\<rparr>))"

definition storing :: "cbsys \<Rightarrow> nat set" where
  "storing s = {t. sys_pc s t = PStore}"

text \<open>Every probe still to be granted is a transition that has not been used yet.\<close>

definition probe_inv :: "cbsys \<Rightarrow> bool" where
  "probe_inv s \<longleftrightarrow>
     finite (storing s) \<and>
     (sys_takes s < 2 ^ 31 \<longrightarrow>
        cb_halfOpenAllowed (sys_cb s) \<le> 1 \<and> - int (sys_takes s) \<le> cb_halfOpenAllowed (sys_cb s) \<and>
        int (sys_probes s) + max 0 (cb_halfOpenAllowed (sys_cb s)) + int (card (storing s)) \<le>
          int (sys_swaps s))"

text \<open>A step that leaves the probe counter and the ghost counters alone keeps the invariant.\<close>

lemma probe_inv_frame:
  assumes "probe_inv s" and "storing s' = storing s" and "sys_takes s' = sys_takes s"
    and "sys_probes s' = sys_probes s" and "sys_swaps s' = sys_swaps s"
    and "cb_halfOpenAllowed (sys_cb s') = cb_halfOpenAllowed (sys_cb s)"
  shows "probe_inv s'"
  using assms by (simp add: probe_inv_def)

lemma probe_inv_swap:
  assumes "probe_inv s" and "sys_pc s t = PSwap"
  shows "probe_inv (goto t PStore (s\<lparr>sys_cb := (sys_cb s)\<lparr>cb_state := CircuitHalfOpen\<rparr>,
                                    sys_swaps := Suc (sys_swaps s)\<rparr>))"
proof -
  have "t \<notin> storing s" using assms(2) by (simp add: storing_def)
  moreover have "storing (goto t PStore (s\<lparr>sys_cb := (sys_cb s)\<lparr>cb_state := CircuitHalfOpen\<rparr>,
      sys_swaps := Suc (sys_swaps s)\<rparr>)) = insert t (storing s)"
    by (auto simp: storing_def)
  ultimately show ?thesis using assms(1) by (auto simp: probe_inv_def card_insert_if)
qed

lemma probe_inv_store:
  assumes "probe_inv s" and "sys_pc s t = PStore"
  shows "probe_inv (goto t PTake (s\<lparr>sys_cb := (sys_cb s)\<lparr>cb_halfOpenAllowed := 1\<rparr>\<rparr>))"
proof -
  have t: "t \<in> storing s" using assms(2) by (simp add: storing_def)
  have fin: "finite (storing s)" using assms(1) by (simp add: probe_inv_def)
  have "card (storing s) = Suc (card (storing s - {t}))" by (rule card.remove [OF fin t])
  then have c: "int (card (storing s)) = int (card (storing s - {t})) + 1" by simp
  have st: "storing (goto t PTake (s\<lparr>sys_cb := (sys_cb s)\<lparr>cb_halfOpenAllowed := 1\<rparr>\<rparr>)) = storing s - {t}"
    by (auto simp: storing_def)
  have "int (sys_probes s) + 1 + int (card (storing s - {t})) \<le> int (sys_swaps s)"
    if "sys_takes s < 2 ^ 31"
    using assms(1) that c unfolding probe_inv_def by linarith
  then show ?thesis unfolding probe_inv_def st using fin by simp
qed

lemma probe_inv_take:
  assumes "probe_inv s" and "sys_pc s t = PTake" and p: "takeProbe (sys_cb s) = (b, cb')"
  shows "probe_inv (goto t (if b then PBusy else PDenied)
           (s\<lparr>sys_cb := cb', sys_takes := Suc (sys_takes s),
              sys_probes := sys_probes s + (if b then 1 else 0)\<rparr>))" (is "probe_inv ?s")
proof -
  have st: "storing ?s = storing s" using assms(2) by (auto simp: storing_def)
  show ?thesis
  proof (cases "Suc (sys_takes s) < 2 ^ 31")
    case False
    then show ?thesis using assms(1) st by (simp add: probe_inv_def)
  next
    case True
    let ?h = "cb_halfOpenAllowed (sys_cb s)"
    have h: "?h \<le> 1" "- int (sys_takes s) \<le> ?h"
      "int (sys_probes s) + max 0 ?h + int (card (storing s)) \<le> int (sys_swaps s)"
      using assms(1) True by (auto simp: probe_inv_def)
    have "int (sys_takes s) < 2 ^ 31 - 1" using True by simp
    then have "swrap 32 (?h - 1) = ?h - 1" by (intro swrap32_id) (use h in linarith)+
    then have b: "b \<longleftrightarrow> 1 \<le> ?h" "cb' = (sys_cb s)\<lparr>cb_halfOpenAllowed := ?h - 1\<rparr>"
      using p by (auto simp: takeProbe_def)
    show ?thesis unfolding probe_inv_def st using assms(1) h b by (auto simp: probe_inv_def)
  qed
qed

lemma probe_inv_step:
  assumes "cb_step s s'" and "probe_inv s"
  shows "probe_inv s'"
  using assms
proof (induction rule: cb_step.induct)
  case (swap s t)
  then show ?case by (intro probe_inv_swap)
next
  case (store s t)
  then show ?case by (intro probe_inv_store)
next
  case (take s t b cb')
  then show ?case by (intro probe_inv_take)
qed (auto elim!: probe_inv_frame simp: storing_def split: if_splits)

lemma probe_inv_init: "cb_halfOpenAllowed cb = 0 \<Longrightarrow> probe_inv (sys_init cb t0)"
  by (simp add: probe_inv_def sys_init_def storing_def)

lemma probe_inv_reachable:
  assumes "rtranclp cb_step (sys_init cb t0) s" and "cb_halfOpenAllowed cb = 0"
  shows "probe_inv s"
  using assms(1) by induction (auto intro: probe_inv_init [OF assms(2)] probe_inv_step)

subsection \<open>Executing a schedule\<close>

text \<open>The next atomic operation of goroutine \<open>t\<close>; \<open>fails\<close> is the outcome of its request.\<close>

definition sys_act :: "bool \<Rightarrow> nat \<Rightarrow> cbsys \<Rightarrow> cbsys" where
  "sys_act fails t s =
     (let cb = sys_cb s in
      case sys_pc s t of
        PIdle \<Rightarrow> goto t PLoad s
      | PLoad \<Rightarrow> (case cb_state cb of
                   CircuitOpen \<Rightarrow> goto t PElapsed s
                 | CircuitHalfOpen \<Rightarrow> goto t PTake s
                 | CircuitClosed \<Rightarrow> goto t PConn s)
      | PElapsed \<Rightarrow> if timeSub (sys_clock s) (cb_lastFailure cb) > cb_openDuration cb
                    then goto t PSwap s else goto t PDenied s
      | PSwap \<Rightarrow> if cb_state cb = CircuitOpen
                 then goto t PStore (s\<lparr>sys_cb := cb\<lparr>cb_state := CircuitHalfOpen\<rparr>,
                                       sys_swaps := Suc (sys_swaps s)\<rparr>)
                 else goto t PTake s
      | PStore \<Rightarrow> goto t PTake (s\<lparr>sys_cb := cb\<lparr>cb_halfOpenAllowed := 1\<rparr>\<rparr>)
      | PTake \<Rightarrow> (let (b, cb') = takeProbe cb in
                  goto t (if b then PBusy else PDenied)
                    (s\<lparr>sys_cb := cb', sys_takes := Suc (sys_takes s),
                       sys_probes := sys_probes s + (if b then 1 else 0)\<rparr>))
      | PConn \<Rightarrow> goto t (if cb_activeConnections cb \<ge> uint (cb_maxConnections cb)
                        then PDenied else PReq) s
      | PReq \<Rightarrow> goto t (if cb_activeRequests cb \<ge> uint (cb_maxRequests cb) then PDenied else PBusy) s
      | PDenied \<Rightarrow> goto t PIdle s
      | PBusy \<Rightarrow> goto t (if fails then PFail else PSuccess) s
      | PFail \<Rightarrow> (let f = swrap 64 (cb_consecutiveFailures cb + 1) in
                  goto t (if f \<ge> cb_failureThreshold cb then POpen else PIdle)
                    (s\<lparr>sys_cb := cb\<lparr>cb_consecutiveFailures := f\<rparr>\<rparr>))
      | POpen \<Rightarrow> goto t PStamp (s\<lparr>sys_cb := cb\<lparr>cb_state := CircuitOpen\<rparr>, sys_openedAt := sys_clock s\<rparr>)
      | PStamp \<Rightarrow> goto t PIdle (s\<lparr>sys_cb := cb\<lparr>cb_lastFailure := sys_clock s\<rparr>\<rparr>)
      | PSuccess \<Rightarrow> goto t PClose (s\<lparr>sys_cb := cb\<lparr>cb_consecutiveFailures := 0\<rparr>\<rparr>)
      | PClose \<Rightarrow> goto t PIdle (s\<lparr>sys_cb := cb\<lparr>cb_state := CircuitClosed\<rparr>\<rparr>))"

lemma sys_act_step: "cb_step s (sys_act fails t s)"
proof (cases "sys_pc s t")
  case PTake
  obtain b cb' where "takeProbe (sys_cb s) = (b, cb')" by fastforce
  with PTake cb_step.take [OF PTake this] show ?thesis by (simp add: sys_act_def Let_def)
next
  case PLoad
  then show ?thesis
    by (cases "cb_state (sys_cb s)") (auto simp: sys_act_def intro: cb_step.intros)
qed (use cb_step.call [of s t] cb_step.elapsed [of s t] cb_step.not_elapsed [of s t] cb_step.swap [of s t]
    cb_step.no_swap [of s t] cb_step.store [of s t] cb_step.conn [of s t] cb_step.req [of s t]
    cb_step.denied [of s t] cb_step.failed [of s t] cb_step.succeeded [of s t] cb_step.count [of s t]
    cb_step.set_open [of s t] cb_step.stamp [of s t] cb_step.reset [of s t] cb_step.set_closed [of s t]
    in \<open>simp_all add: sys_act_def Let_def\<close>)

definition sys_schedule :: "nat list \<Rightarrow> cbsys \<Rightarrow> cbsys" where
  "sys_schedule ts s = foldl (\<lambda>s t. sys_act True t s) s ts"

lemma sys_schedule_reachable: "rtranclp cb_step s (sys_schedule ts s)"
proof (induction ts rule: rev_induct)
  case (snoc t ts)
  then show ?case using sys_act_step [of "sys_schedule ts s" True t]
    by (simp add: sys_schedule_def)
qed (simp add: sys_schedule_def)

lemmas sys_eval = sys_schedule_def sys_act_def sys_init_def NewCircuitBreaker_def takeProbe_def
  defaultOpenDuration_def timeSub_def swrap_def

subsection \<open>Properties\<close>



text \<open>C23: Under any interleaving of any number of goroutines, as long as fewer than two to the power
  of 31 of them reached the probe counter, the number of half-open probes granted never exceeds
  the number of transitions from open to half-open: each transition lets at most one probe
  through.\<close>

theorem probes_bounded_by_transitions:
  assumes "rtranclp cb_step (sys_init cb t0) s" and "cb_halfOpenAllowed cb = 0" and "sys_takes s < 2 ^ 31"
  shows "sys_probes s \<le> sys_swaps s"
  using probe_inv_reachable [OF assms(1,2)] assms(3) by (auto simp: probe_inv_def)

theorem probes_bounded_by_transitions_witness:
  "(let s = sys_schedule [0, 0, 0, 0, 0, 0, 0, 1, 1, 1, 1, 1, 1, 2, 2]
      (sys_init (NewCircuitBreaker (\<lambda>s. None) 0 0 0 0 1 '''' 0) (31 * 10 ^ 9))
    in sys_probes s \<le> sys_swaps s \<and> sys_takes s = 1 \<and> sys_swaps s = 1)"
  using probes_bounded_by_transitions [OF sys_schedule_reachable, of
      "NewCircuitBreaker (\<lambda>s. None) 0 0 0 0 1 '''' 0" "[0, 0, 0, 0, 0, 0, 0, 1, 1, 1, 1, 1, 1, 2, 2]"
      "31 * 10 ^ 9"]
  by (simp add: sys_eval)

text \<open>Once the single probe of a half-open circuit has been handed out, the breaker rejects every
  further request and stays half-open however much time passes, until some request records an
  outcome. A probe whose handler is aborted before it records one therefore leaves the
  destination unreachable.\<close>

theorem half_open_waits_for_outcome:
  assumes "cb_state cb = CircuitHalfOpen" and "cb_halfOpenAllowed cb \<le> 0"
    and "- (2 ^ 31) \<le> cb_halfOpenAllowed cb - int (length ts)"
  shows "fst (cb_run (map CallAllow ts) cb) = replicate (length ts) (Some False) \<and>
    cb_state (snd (cb_run (map CallAllow ts) cb)) = CircuitHalfOpen"
  using assms
proof (induction ts arbitrary: cb)
  case (Cons t ts)
  have s: "swrap 32 (cb_halfOpenAllowed cb - 1) = cb_halfOpenAllowed cb - 1"
    by (rule swrap32_id) (use Cons.prems in simp_all)
  then have "Allow t cb = (False, cb\<lparr>cb_halfOpenAllowed := cb_halfOpenAllowed cb - 1\<rparr>)"
    using Cons.prems by (simp add: Allow_def takeProbe_def)
  with Cons.IH [of "cb\<lparr>cb_halfOpenAllowed := cb_halfOpenAllowed cb - 1\<rparr>"] Cons.prems
  show ?case by (simp add: split_def)
qed simp

theorem half_open_waits_for_outcome_witness:
  "fst (cb_run (map CallAllow [10, 10 ^ 15])
     ((NewCircuitBreaker (\<lambda>s. None) 0 0 0 0 2 '''' 0)\<lparr>cb_state := CircuitHalfOpen\<rparr>)) = [Some False, Some False]"
  using half_open_waits_for_outcome [of
     "(NewCircuitBreaker (\<lambda>s. None) 0 0 0 0 2 '''' 0)\<lparr>cb_state := CircuitHalfOpen\<rparr>" "[10, 10 ^ 15]"]
  by (simp add: NewCircuitBreaker_def)

text \<open>The failure that opens the circuit sets the state to open before it records the instant. A
  goroutine scheduled in between compares the clock with the previous failure instant and can
  take the circuit to half-open and be granted a probe at the very instant at which the circuit
  opened, although the open duration has not begun to elapse.\<close>

theorem probe_without_open_period:
  "\<exists>s. rtranclp cb_step (sys_init (NewCircuitBreaker (\<lambda>s. None) 0 0 0 0 1 '''' 0) (31 * 10 ^ 9)) s \<and>
     sys_probes s = 1 \<and> sys_pc s 1 = PBusy \<and>
     timeSub (sys_clock s) (sys_openedAt s) = 0 \<and> cb_openDuration (sys_cb s) = 30 * 10 ^ 9"
  by (rule exI [of _ "sys_schedule [0, 0, 0, 0, 0, 0, 0, 1, 1, 1, 1, 1, 1]
        (sys_init (NewCircuitBreaker (\<lambda>s. None) 0 0 0 0 1 '''' 0) (31 * 10 ^ 9))"])
    (intro conjI sys_schedule_reachable; simp add: sys_eval)

end
