(* ===== verification/Pool.thy ===== *)
theory Pool
  imports Maglev Circuit_Breaker
begin

text \<open>
  Destination pools: \<^verbatim>\<open>server/internal/proxy/endpoint.go\<close>, \<^verbatim>\<open>pool.go\<close> and the session store
  (\<^verbatim>\<open>session.go\<close>, \<^verbatim>\<open>server/internal/session/redis/redis.go\<close>). Endpoints are shared mutable
  objects: the health checker, the outlier detector and the pools of the routing table all point to
  them. They live in a heap, and a pool holds their addresses. The random draws of a call are a
  function argument \<open>intn\<close> (the results of \<^verbatim>\<open>rand.Intn\<close>), and so are the iteration order of a
  map and the session identifier that is generated.
\<close>

subsection \<open>Endpoints and their transport\<close>

record TLSConfig =
  tls_ServerName :: string
  tls_MinVersion :: nat
  tls_MaxVersion :: nat
  tls_RootCAs :: "string option"
  tls_Certificate :: "(string \<times> string) option"
  tls_NextProtos :: "string list"

record Transport =
  tr_MaxIdleConns :: nat
  tr_IdleConnTimeout :: duration
  tr_TLSHandshakeTimeout :: duration
  tr_ResponseHeaderTimeout :: duration
  tr_ExpectContinueTimeout :: duration
  tr_MaxIdleConnsPerHost :: nat
  tr_DialTimeout :: duration
  tr_FallbackDelay :: duration
  tr_KeepAlive :: duration
  tr_MaxConnsPerHost :: nat
  tr_TLSClientConfig :: "TLSConfig option"
  tr_ForceAttemptHTTP2 :: bool

record ProxyEndpoint =
  ep_Host :: string
  ep_Port :: uint32
  ep_ID :: string
  ep_Transport :: Transport
  ep_Healthy :: bool
  ep_OnResponse :: bool
  ep_lastHealthAt :: time

type_synonym addr = nat
type_synonym heap = "addr \<rightharpoonup> ProxyEndpoint"

datatype pool_error = BuildingTLSConfig string

definition second :: duration where
  "second = 10 ^ 9"

definition millisecond :: duration where
  "millisecond = 10 ^ 6"

definition parseDurationOrDefault ::
  "(string \<Rightarrow> duration option) \<Rightarrow> 'a option \<Rightarrow> ('a \<Rightarrow> string) \<Rightarrow> duration \<Rightarrow> duration" where
  "parseDurationOrDefault parseDuration cfg accessor fallback =
     (case cfg of
        None \<Rightarrow> fallback
      | Some c \<Rightarrow>
          if accessor c = '''' then fallback
          else (case parseDuration (accessor c) of None \<Rightarrow> fallback | Some d \<Rightarrow> d))"

definition tlsVersionMap :: "string \<rightharpoonup> nat" where
  "tlsVersionMap =
     [''TLSv1_0'' \<mapsto> 0x0301, ''TLSv1_1'' \<mapsto> 0x0302, ''TLSv1_2'' \<mapsto> 0x0303, ''TLSv1_3'' \<mapsto> 0x0304]"

definition tlsEnabled :: "Destination \<Rightarrow> bool" where
  "tlsEnabled d =
     (case Destination_Options d of
        None \<Rightarrow> False
      | Some opt \<Rightarrow>
          (case DestinationOptions_TLS opt of
             None \<Rightarrow> False
           | Some t \<Rightarrow> TLSOptions_Mode t \<noteq> TLSModeNone \<and> TLSOptions_Mode t \<noteq> ''''))"

text \<open>\<open>keyPairOk\<close> says whether \<^verbatim>\<open>tls.X509KeyPair\<close> accepts a certificate and a key.\<close>

definition buildTLSConfig ::
  "(string \<Rightarrow> string \<Rightarrow> bool) \<Rightarrow> Destination \<Rightarrow> TLSOptions \<Rightarrow> pool_error + TLSConfig" where
  "buildTLSConfig keyPairOk d t =
     (let cfg =
        \<lparr>tls_ServerName = (if TLSOptions_SNI t \<noteq> '''' then TLSOptions_SNI t else Destination_Host d),
         tls_MinVersion = (case tlsVersionMap (TLSOptions_MinVersion t) of Some v \<Rightarrow> v | None \<Rightarrow> 0),
         tls_MaxVersion = (case tlsVersionMap (TLSOptions_MaxVersion t) of Some v \<Rightarrow> v | None \<Rightarrow> 0),
         tls_RootCAs = (if TLSOptions_CA t \<noteq> '''' then Some (TLSOptions_CA t) else None),
         tls_Certificate = None, tls_NextProtos = []\<rparr>
      in if TLSOptions_Mode t = TLSModeMTLS \<and> TLSOptions_Cert t \<noteq> '''' \<and> TLSOptions_Key t \<noteq> ''''
         then if keyPairOk (TLSOptions_Cert t) (TLSOptions_Key t)
              then Inr (cfg\<lparr>tls_Certificate := Some (TLSOptions_Cert t, TLSOptions_Key t)\<rparr>)
              else Inl (BuildingTLSConfig (Destination_ID d))
         else Inr cfg)"

definition newTransport ::
  "(string \<Rightarrow> duration option) \<Rightarrow> Destination \<Rightarrow> TLSConfig option \<Rightarrow> Transport" where
  "newTransport parseDuration d tlsCfg =
     (let t = (case Destination_Options d of None \<Rightarrow> None | Some opt \<Rightarrow> DestinationOptions_Timeouts opt);
          dur = parseDurationOrDefault parseDuration t;
          http2 = (case Destination_Options d of None \<Rightarrow> False | Some opt \<Rightarrow> DestinationOptions_HTTP2 opt)
      in \<lparr>tr_MaxIdleConns = 100,
          tr_IdleConnTimeout = dur DestinationTimeouts_IdleConnection (90 * second),
          tr_TLSHandshakeTimeout = dur DestinationTimeouts_TLSHandshake (5 * second),
          tr_ResponseHeaderTimeout = dur DestinationTimeouts_ResponseHeader (10 * second),
          tr_ExpectContinueTimeout = dur DestinationTimeouts_ExpectContinue (1 * second),
          tr_MaxIdleConnsPerHost = 10,
          tr_DialTimeout = dur DestinationTimeouts_Connect (5 * second),
          tr_FallbackDelay = dur DestinationTimeouts_DualStackFallback (300 * millisecond),
          tr_KeepAlive = 30 * second,
          tr_MaxConnsPerHost =
            (case Destination_Options d of
               None \<Rightarrow> 0
             | Some opt \<Rightarrow> if DestinationOptions_MaxConnsPerHost opt > 0
                          then unat (DestinationOptions_MaxConnsPerHost opt) else 0),
          tr_TLSClientConfig =
            (if http2 then map_option (\<lambda>c. c\<lparr>tls_NextProtos := tls_NextProtos c @ [''h2'']\<rparr>) tlsCfg
             else tlsCfg),
          tr_ForceAttemptHTTP2 = http2\<rparr>)"

definition hostPort :: "string \<Rightarrow> uint32 \<Rightarrow> string" where
  "hostPort host port = host @ '':'' @ decimal (unat port)"

definition NewEndpoint ::
  "(string \<Rightarrow> duration option) \<Rightarrow> (string \<Rightarrow> string \<Rightarrow> bool) \<Rightarrow> time \<Rightarrow> Endpoint \<Rightarrow> Destination \<Rightarrow>
   pool_error + ProxyEndpoint" where
  "NewEndpoint parseDuration keyPairOk zeroTime ep d =
     (let finish = (\<lambda>tlsCfg. Inr
        \<lparr>ep_Host = Endpoint_Host ep, ep_Port = Endpoint_Port ep,
         ep_ID = hostPort (Endpoint_Host ep) (Endpoint_Port ep),
         ep_Transport = newTransport parseDuration d tlsCfg,
         ep_Healthy = True, ep_OnResponse = False, ep_lastHealthAt = zeroTime\<rparr>)
      in case Destination_Options d of
           None \<Rightarrow> finish None
         | Some opt \<Rightarrow>
             (case DestinationOptions_TLS opt of
                None \<Rightarrow> finish None
              | Some t \<Rightarrow>
                  if TLSOptions_Mode t \<noteq> TLSModeNone \<and> TLSOptions_Mode t \<noteq> '''' then
                    (case buildTLSConfig keyPairOk d t of
                       Inl err \<Rightarrow> Inl err
                     | Inr c \<Rightarrow> finish (Some c))
                  else finish None))"

subsection \<open>Balancers and pools\<close>

datatype Balancer =
  BRoundRobin RoundRobinBalancer
| BLeastRequest LeastRequestBalancer
| BRingHash RingHashBalancer
| BMaglev MaglevBalancer
| BRandom

record DestinationPool =
  pool_Destination :: Destination
  pool_Endpoints :: "addr list"
  pool_Balancer :: "Balancer option"
  pool_CircuitBreaker :: "CircuitBreaker option"
  pool_SessionStore :: bool

definition buildBalancer :: "Destination \<Rightarrow> Balancer option" where
  "buildBalancer d =
     (case Destination_Options d of
        None \<Rightarrow> None
      | Some opt \<Rightarrow>
          (case DestinationOptions_EndpointBalancing opt of
             None \<Rightarrow> None
           | Some eb \<Rightarrow>
               let alg = EndpointBalancing_Algorithm eb in
               if alg = EndpointLBRingHash then
                 let sz = (case EndpointBalancing_RingHash eb of
                             None \<Rightarrow> None | Some rh \<Rightarrow> RingHashOptions_RingSize rh);
                     mn = (case sz of None \<Rightarrow> 1024
                           | Some s \<Rightarrow> if RingSizeOptions_Min s > 0 then sint (RingSizeOptions_Min s) else 1024);
                     mx = (case sz of None \<Rightarrow> 8388608
                           | Some s \<Rightarrow> if RingSizeOptions_Max s > 0 then sint (RingSizeOptions_Max s) else 8388608)
                 in Some (BRingHash (NewRingHashBalancer mn mx))
               else if alg = EndpointLBMaglev then
                 let size = (case EndpointBalancing_Maglev eb of
                               None \<Rightarrow> 65537
                             | Some m \<Rightarrow> if MaglevOptions_TableSize m > 0
                                         then sint (MaglevOptions_TableSize m) else 65537)
                 in Some (BMaglev (NewMaglevBalancer size))
               else if alg = EndpointLBLeastRequest then Some (BLeastRequest NewLeastRequestBalancer)
               else if alg = EndpointLBRandom then Some BRandom
               else if alg = EndpointLBRoundRobin then Some (BRoundRobin \<lparr>rr_counter = 0\<rparr>)
               else None))"

definition buildCircuitBreaker ::
  "(string \<Rightarrow> duration option) \<Rightarrow> time \<Rightarrow> Destination \<Rightarrow> CircuitBreaker option" where
  "buildCircuitBreaker parseDuration zeroTime d =
     (case Destination_Options d of
        None \<Rightarrow> None
      | Some opt \<Rightarrow>
          map_option (\<lambda>cb. NewCircuitBreaker parseDuration (CircuitBreakerOptions_MaxConnections cb)
              (CircuitBreakerOptions_MaxPendingRequests cb) (CircuitBreakerOptions_MaxRequests cb)
              (CircuitBreakerOptions_MaxRetries cb) (CircuitBreakerOptions_FailureThreshold cb)
              (CircuitBreakerOptions_OpenDuration cb) zeroTime)
            (DestinationOptions_CircuitBreaker opt))"

text \<open>A new endpoint is stored at the next unused address.\<close>

fun newEndpoints ::
  "(Endpoint \<Rightarrow> pool_error + ProxyEndpoint) \<Rightarrow> Endpoint list \<Rightarrow> addr \<Rightarrow> heap \<Rightarrow>
   pool_error + (addr list \<times> addr \<times> heap)" where
  "newEndpoints mk [] next hp = Inr ([], next, hp)"
| "newEndpoints mk (ep # eps) next hp =
     (case mk ep of
        Inl err \<Rightarrow> Inl err
      | Inr u \<Rightarrow>
          (case newEndpoints mk eps (next + 1) (hp(next \<mapsto> u)) of
             Inl err \<Rightarrow> Inl err
           | Inr (as, next', hp') \<Rightarrow> Inr (next # as, next', hp')))"

definition NewDestinationPool ::
  "(string \<Rightarrow> duration option) \<Rightarrow> (string \<Rightarrow> string \<Rightarrow> bool) \<Rightarrow> time \<Rightarrow> Destination \<Rightarrow> bool \<Rightarrow> addr \<Rightarrow> heap \<Rightarrow>
   pool_error + (DestinationPool \<times> addr \<times> heap)" where
  "NewDestinationPool parseDuration keyPairOk zeroTime d sess next hp =
     (case newEndpoints (\<lambda>ep. NewEndpoint parseDuration keyPairOk zeroTime ep d)
             (ResolvedEndpoints d) next hp of
        Inl err \<Rightarrow> Inl err
      | Inr (as, next', hp') \<Rightarrow> Inr
          (\<lparr>pool_Destination = d, pool_Endpoints = as, pool_Balancer = buildBalancer d,
            pool_CircuitBreaker = buildCircuitBreaker parseDuration zeroTime d,
            pool_SessionStore = sess\<rparr>, next', hp'))"

subsection \<open>Session stores\<close>

text \<open>
  What the sticky algorithms rely on of a session store: a value that was stored is the value that
  is read back, until it is overwritten. \<open>None\<close> is an error of the backend.
\<close>

locale session_store =
  fixes sget :: "'s \<Rightarrow> string \<Rightarrow> string \<Rightarrow> string option"
    and sset :: "'s \<Rightarrow> string \<Rightarrow> string \<Rightarrow> string \<Rightarrow> int \<Rightarrow> 's option"
  assumes get_set: "sset st sid route v ttl = Some st' \<Longrightarrow> sget st' sid route = Some v"
begin

lemma get_set_set:
  "sset st sid route v ttl = Some st1 \<Longrightarrow> sset st1 sid route v' ttl' = Some st2 \<Longrightarrow>
   sget st2 sid route = Some v'"
  by (rule get_set)

end

definition redis_key :: "string \<Rightarrow> string \<Rightarrow> string" where
  "redis_key sid routeID = ''vrata:sticky:'' @ sid @ '':'' @ routeID"

text \<open>
  The Redis client is a parameter: \<open>cget\<close> and \<open>cset\<close> are its \<^verbatim>\<open>Get\<close> and \<^verbatim>\<open>Set\<close> on the state of the
  database. What the store relies on is that a value that was set is read back.
\<close>

datatype redis_reply = RNil | RErr | RVal string

definition redis_Get :: "('db \<Rightarrow> string \<Rightarrow> redis_reply) \<Rightarrow> 'db \<Rightarrow> string \<Rightarrow> string \<Rightarrow> string option" where
  "redis_Get cget db sid routeID =
     (case cget db (redis_key sid routeID) of RNil \<Rightarrow> Some '''' | RErr \<Rightarrow> None | RVal v \<Rightarrow> Some v)"

definition redis_Set ::
  "('db \<Rightarrow> string \<Rightarrow> string \<Rightarrow> duration \<Rightarrow> 'db option) \<Rightarrow>
   'db \<Rightarrow> string \<Rightarrow> string \<Rightarrow> string \<Rightarrow> int \<Rightarrow> 'db option" where
  "redis_Set cset db sid routeID v ttlSeconds =
     (let ttl = swrap 64 (ttlSeconds * 10 ^ 9) in cset db (redis_key sid routeID) v ttl)"

locale redis_client =
  fixes cget :: "'db \<Rightarrow> string \<Rightarrow> redis_reply"
    and cset :: "'db \<Rightarrow> string \<Rightarrow> string \<Rightarrow> duration \<Rightarrow> 'db option"
  assumes cget_cset: "cset db k v ttl = Some db' \<Longrightarrow> cget db' k = RVal v"

sublocale redis_client \<subseteq> session_store "redis_Get cget" "redis_Set cset"
  by unfold_locales (auto simp: redis_Get_def redis_Set_def Let_def dest: cget_cset)

text \<open>A client of a database that is a map from keys to values, or unreachable.\<close>

type_synonym redis = "(string \<rightharpoonup> string) option"

definition map_get :: "redis \<Rightarrow> string \<Rightarrow> redis_reply" where
  "map_get db k = (case db of None \<Rightarrow> RErr | Some m \<Rightarrow> (case m k of None \<Rightarrow> RNil | Some v \<Rightarrow> RVal v))"

definition map_set :: "redis \<Rightarrow> string \<Rightarrow> string \<Rightarrow> duration \<Rightarrow> redis option" where
  "map_set db k v ttl = map_option (\<lambda>m. Some (m(k \<mapsto> v))) db"

interpretation redis: redis_client map_get map_set
  by unfold_locales (auto simp: map_get_def map_set_def)

record 's env =
  env_parseDuration :: "string \<Rightarrow> duration option"
  env_intn :: "nat \<Rightarrow> nat"
  env_keys :: "(string \<rightharpoonup> addr) \<Rightarrow> string list"
  env_sid :: string
  env_get :: "'s \<Rightarrow> string \<Rightarrow> string \<Rightarrow> string option"
  env_set :: "'s \<Rightarrow> string \<Rightarrow> string \<Rightarrow> string \<Rightarrow> int \<Rightarrow> 's option"

subsection \<open>Picking an endpoint\<close>

definition isHealthy :: "heap \<Rightarrow> addr \<Rightarrow> bool" where
  "isHealthy hp a = (case hp a of None \<Rightarrow> False | Some e \<Rightarrow> ep_Healthy e)"

definition epID :: "heap \<Rightarrow> addr \<Rightarrow> string" where
  "epID hp a = (case hp a of None \<Rightarrow> '''' | Some e \<Rightarrow> ep_ID e)"

definition healthyEndpoints :: "heap \<Rightarrow> DestinationPool \<Rightarrow> addr list" where
  "healthyEndpoints hp dp = filter (isHealthy hp) (pool_Endpoints dp)"

definition endpointRefs :: "heap \<Rightarrow> addr list \<Rightarrow> DestinationRef list" where
  "endpointRefs hp eps =
     map (\<lambda>a. \<lparr>DestinationRef_DestinationID = epID hp a, DestinationRef_Weight = 1\<rparr>) eps"

definition endpointMap :: "heap \<Rightarrow> addr list \<Rightarrow> (string \<rightharpoonup> addr)" where
  "endpointMap hp eps = mapFromSlice (epID hp) eps"

definition isStickyEndpoint :: "DestinationPool \<Rightarrow> bool" where
  "isStickyEndpoint dp =
     (case Destination_Options (pool_Destination dp) of
        None \<Rightarrow> False
      | Some opt \<Rightarrow>
          (case DestinationOptions_EndpointBalancing opt of
             None \<Rightarrow> False
           | Some eb \<Rightarrow> EndpointBalancing_Algorithm eb = EndpointLBSticky \<and> pool_SessionStore dp))"

definition stickyEndpointCookie :: "DestinationPool \<Rightarrow> string \<times> string" where
  "stickyEndpointCookie dp =
     (case Destination_Options (pool_Destination dp) of
        None \<Rightarrow> (''_vrata_endpoint_pin'', '''')
      | Some opt \<Rightarrow>
          (case DestinationOptions_EndpointBalancing opt of
             None \<Rightarrow> (''_vrata_endpoint_pin'', '''')
           | Some eb \<Rightarrow>
               (case EndpointBalancing_Sticky eb of
                  None \<Rightarrow> (''_vrata_endpoint_pin'', '''')
                | Some cfg \<Rightarrow>
                    (case EndpointStickyOptions_Cookie cfg of
                       None \<Rightarrow> (''_vrata_endpoint_pin'', '''')
                     | Some c \<Rightarrow>
                         (if EndpointPinCookie_Name c \<noteq> '''' then EndpointPinCookie_Name c
                          else ''_vrata_endpoint_pin'', EndpointPinCookie_TTL c)))))"

definition pickStickyEndpoint ::
  "'s env \<Rightarrow> heap \<Rightarrow> DestinationPool \<Rightarrow> Request \<Rightarrow> addr list \<Rightarrow> 's \<Rightarrow> addr \<times> Cookie list \<times> 's" where
  "pickStickyEndpoint env hp dp r healthy st =
     (let (cookieName, ttlStr) = stickyEndpointCookie dp;
          cookieVal = (case reqCookie r cookieName of None \<Rightarrow> '''' | Some v \<Rightarrow> v);
          isNew = (cookieVal = '''');
          ttl = parseTTL (env_parseDuration env) ttlStr hour;
          sid = (if isNew then env_sid env else cookieVal);
          cookies = (if isNew then [pinCookie cookieName sid ttl] else []);
          storeKey = sid @ '':'' @ Destination_ID (pool_Destination dp);
          healthySet = endpointMap hp healthy;
          pinned = (if isNew then None
                    else case env_get env st storeKey ''ep'' of
                           None \<Rightarrow> None
                         | Some v \<Rightarrow> if v \<noteq> '''' then healthySet v else None)
      in case pinned of
           Some a \<Rightarrow> (a, cookies, st)
         | None \<Rightarrow>
             let a = healthy ! env_intn env (length healthy) in
             (a, cookies, case env_set env st storeKey ''ep'' (epID hp a) (seconds ttl) of None \<Rightarrow> st | Some st' \<Rightarrow> st'))"

definition balancer_Pick ::
  "'s env \<Rightarrow> Request \<Rightarrow> Balancer \<Rightarrow> DestinationRef list \<Rightarrow> (string \<rightharpoonup> addr) \<Rightarrow> addr option go \<times> Balancer" where
  "balancer_Pick env r b refs m =
     (case b of
        BRoundRobin rr \<Rightarrow> (let (e, rr') = rr_Pick rr refs m in (Inr e, BRoundRobin rr'))
      | BLeastRequest lb \<Rightarrow> (let (e, lb') = lr_Pick lb refs m in (Inr e, BLeastRequest lb'))
      | BRingHash rh \<Rightarrow> (Inr (rh_Pick rh r (env_keys env m) (env_intn env (length (env_keys env m))) m), b)
      | BMaglev mg \<Rightarrow> (mg_Pick mg r (env_keys env m) (env_intn env (length (env_keys env m))) m, b)
      | BRandom \<Rightarrow> (Inr (random_Pick (env_intn env (length refs)) refs m), b))"

definition pool_Pick ::
  "'s env \<Rightarrow> heap \<Rightarrow> DestinationPool \<Rightarrow> Request \<Rightarrow> 's \<Rightarrow> (addr option \<times> DestinationPool \<times> Cookie list \<times> 's) go" where
  "pool_Pick env hp dp r st =
     (let eps = pool_Endpoints dp; healthy = healthyEndpoints hp dp in
      if length eps = 0 then Inr (None, dp, [], st)
      else if length eps = 1 then
        Inr (if \<not> isHealthy hp (eps ! 0) then None else Some (eps ! 0), dp, [], st)
      else if length healthy = 0 then Inr (None, dp, [], st)
      else if length healthy = 1 then Inr (Some (healthy ! 0), dp, [], st)
      else if isStickyEndpoint dp then
        (let (a, cookies, st') = pickStickyEndpoint env hp dp r healthy st in Inr (Some a, dp, cookies, st'))
      else case pool_Balancer dp of
        Some b \<Rightarrow>
          (let (res, b') = balancer_Pick env r b (endpointRefs hp healthy) (endpointMap hp healthy) in
           case res of
             Inl p \<Rightarrow> Inl p
           | Inr e \<Rightarrow> Inr (e, dp\<lparr>pool_Balancer := Some b'\<rparr>, [], st))
      | None \<Rightarrow> Inr (Some (healthy ! env_intn env (length healthy)), dp, [], st))"

definition pool_PickByHash ::
  "'s env \<Rightarrow> heap \<Rightarrow> DestinationPool \<Rightarrow> uint32 \<Rightarrow> Request \<Rightarrow> 's \<Rightarrow>
   (addr option \<times> DestinationPool \<times> Cookie list \<times> 's) go" where
  "pool_PickByHash env hp dp h r st =
     (let eps = pool_Endpoints dp; healthy = healthyEndpoints hp dp; m = endpointMap hp healthy;
          keys = env_keys env m in
      if length eps = 0 then Inr (None, dp, [], st)
      else if length eps = 1 then
        Inr (if \<not> isHealthy hp (eps ! 0) then None else Some (eps ! 0), dp, [], st)
      else if length healthy = 0 then Inr (None, dp, [], st)
      else case pool_Balancer dp of
        Some (BRingHash rh) \<Rightarrow> Inr (rh_PickByHash rh h keys (env_intn env (length keys)) m, dp, [], st)
      | Some (BMaglev mg) \<Rightarrow>
          (case mg_PickByHash mg h keys (env_intn env (length keys)) m of
             Inl p \<Rightarrow> Inl p | Inr e \<Rightarrow> Inr (e, dp, [], st))
      | _ \<Rightarrow> pool_Pick env hp dp r st)"

definition EndpointHashPolicies :: "DestinationPool \<Rightarrow> HashPolicy list" where
  "EndpointHashPolicies dp =
     (case Destination_Options (pool_Destination dp) of
        None \<Rightarrow> []
      | Some opt \<Rightarrow>
          (case DestinationOptions_EndpointBalancing opt of
             None \<Rightarrow> []
           | Some eb \<Rightarrow>
               if EndpointBalancing_Algorithm eb = EndpointLBRingHash then
                 (case EndpointBalancing_RingHash eb of None \<Rightarrow> [] | Some rh \<Rightarrow> RingHashOptions_HashPolicy rh)
               else if EndpointBalancing_Algorithm eb = EndpointLBMaglev then
                 (case EndpointBalancing_Maglev eb of None \<Rightarrow> [] | Some m \<Rightarrow> MaglevOptions_HashPolicy m)
               else []))"

definition ReverseProxyFor :: "heap \<Rightarrow> DestinationPool \<Rightarrow> addr \<Rightarrow> string \<times> string" where
  "ReverseProxyFor hp dp a =
     (if tlsEnabled (pool_Destination dp) then ''https'' else ''http'',
      case hp a of None \<Rightarrow> '''' | Some e \<Rightarrow> hostPort (ep_Host e) (ep_Port e))"

subsection \<open>Lemmas\<close>

lemma healthy_iff: "a \<in> set (healthyEndpoints hp dp) \<longleftrightarrow> a \<in> set (pool_Endpoints dp) \<and> isHealthy hp a"
  by (auto simp: healthyEndpoints_def)

lemma endpointMap_ran: "ran (endpointMap hp eps) \<subseteq> set eps"
  by (auto simp: endpointMap_def ran_def dest: mapFromSlice_SomeD)

lemma endpointMap_refs:
  assumes "\<forall>a\<in>set eps. epID hp a \<noteq> ''''"
  shows "refs_in (endpointRefs hp eps) (endpointMap hp eps)"
  using assms by (auto simp: refs_in_def endpointRefs_def endpointMap_def dest: mapFromSlice_in)

lemma endpointMap_self:
  assumes "inj_on (epID hp) (set eps)" and "a \<in> set eps"
  shows "endpointMap hp eps (epID hp a) = Some a"
proof -
  obtain b where b: "mapFromSlice (epID hp) eps (epID hp a) = Some b"
    using mapFromSlice_in [OF assms(2)] by blast
  then have "b \<in> set eps" "epID hp b = epID hp a" using mapFromSlice_SomeD [OF b] by auto
  then have "b = a" using assms by (auto dest: inj_onD)
  with b show ?thesis by (simp add: endpointMap_def)
qed

lemma balancer_Pick_ran:
  "fst (balancer_Pick env r b refs m) = Inr (Some a) \<Longrightarrow> a \<in> ran m"
  using rr.pick_ran lr.pick_ran
  by (auto simp: balancer_Pick_def rh_Pick_def mg_Pick_def random_Pick_def ranI split_def Let_def
      dest: rh_PickByHash_ran mg_PickByHash_ran split: Balancer.splits if_splits)

definition draws_ok :: "'s env \<Rightarrow> bool" where
  "draws_ok env \<longleftrightarrow> (\<forall>n>0. env_intn env n < n)"

lemma draws_nth: "draws_ok env \<Longrightarrow> xs \<noteq> [] \<Longrightarrow> xs ! env_intn env (length xs) \<in> set xs"
  by (simp add: draws_ok_def)

lemma pickStickyEndpoint_healthy:
  assumes "draws_ok env" and "healthy \<noteq> []"
  shows "fst (pickStickyEndpoint env hp dp r healthy st) \<in> set healthy"
  using assms draws_nth endpointMap_ran [of hp healthy]
  by (auto simp: pickStickyEndpoint_def Let_def split_def ran_def split: option.splits if_splits)

lemma pool_Pick_healthy:
  assumes "draws_ok env" and "pool_Pick env hp dp r st = Inr (Some a, dp', cs, st')"
  shows "a \<in> set (healthyEndpoints hp dp)"
proof (cases "length (pool_Endpoints dp) = 1")
  case True
  then obtain b where "pool_Endpoints dp = [b]" by (auto simp: length_Suc_conv)
  with assms(2) show ?thesis by (auto simp: pool_Pick_def Let_def healthyEndpoints_def split: if_splits)
next
  case n1: False
  let ?h = "healthyEndpoints hp dp"
  show ?thesis
  proof (cases "length ?h \<le> 1")
    case True
    with assms(2) n1 show ?thesis
      by (cases ?h) (auto simp: pool_Pick_def Let_def split: if_splits)
  next
    case False
    then have ne: "?h \<noteq> []" "pool_Endpoints dp \<noteq> []" by (auto simp: healthyEndpoints_def)
    show ?thesis
    proof (cases "isStickyEndpoint dp")
      case True
      then have "a = fst (pickStickyEndpoint env hp dp r ?h st)"
        using assms(2) n1 False ne by (auto simp: pool_Pick_def Let_def split_def split: if_splits)
      then show ?thesis using pickStickyEndpoint_healthy [OF assms(1) ne(1)] by simp
    next
      case ns: False
      show ?thesis
      proof (cases "pool_Balancer dp")
        case None
        then show ?thesis
          using assms(2) n1 False ne ns draws_nth [OF assms(1) ne(1)]
          by (auto simp: pool_Pick_def Let_def split: if_splits)
      next
        case (Some b)
        then have "fst (balancer_Pick env r b (endpointRefs hp ?h) (endpointMap hp ?h)) = Inr (Some a)"
          using assms(2) n1 False ne ns
          by (auto simp: pool_Pick_def Let_def split_def split: if_splits sum.splits)
        then show ?thesis using balancer_Pick_ran endpointMap_ran by blast
      qed
    qed
  qed
qed

lemma pool_PickByHash_healthy:
  assumes "draws_ok env" and "pool_PickByHash env hp dp h r st = Inr (Some a, dp', cs, st')"
  shows "a \<in> set (healthyEndpoints hp dp)"
proof (cases "length (pool_Endpoints dp) = 1")
  case True
  then obtain b where "pool_Endpoints dp = [b]" by (auto simp: length_Suc_conv)
  with assms(2) show ?thesis by (auto simp: pool_PickByHash_def Let_def healthyEndpoints_def split: if_splits)
next
  case False
  with assms(2) show ?thesis
    using pool_Pick_healthy [OF assms(1)] endpointMap_ran [of hp "healthyEndpoints hp dp"]
    by (auto simp: pool_PickByHash_def Let_def split: if_splits option.splits Balancer.splits sum.splits
        dest!: rh_PickByHash_ran mg_PickByHash_ran)
qed

lemma balancer_Pick_total:
  assumes "draws_ok env" and "refs \<noteq> []" and "refs_in refs m" and "length refs < 2 ^ 64"
    and "case b of BRoundRobin rr \<Rightarrow> True | BRandom \<Rightarrow> True
           | BLeastRequest lb \<Rightarrow> \<forall>x\<in>set refs. 0 \<le> lr_count lb x \<and> lr_count lb x < 2 ^ 63 - 1
           | _ \<Rightarrow> False"
  shows "\<exists>a. fst (balancer_Pick env r b refs m) = Inr (Some a)"
proof (cases b)
  case (BRoundRobin rr)
  have "fst (rr_Pick rr refs m) \<noteq> None"
    using rr.pick_some [where s = rr and dests = refs and endpoints = m] assms by simp
  with BRoundRobin show ?thesis by (auto simp: balancer_Pick_def split_def Let_def)
next
  case (BLeastRequest lb)
  have "\<forall>x\<in>set refs. DestinationRef_DestinationID x \<noteq> ''''" using assms(3) by (auto simp: refs_in_def)
  moreover have "\<forall>x\<in>set refs. 0 \<le> lr_count lb x \<and> lr_count lb x < 2 ^ 63 - 1"
    using assms(5) BLeastRequest by simp
  ultimately obtain x where "x \<in> set refs" "fst (lr_Pick lb refs m) = m (DestinationRef_DestinationID x)"
    using assms(2) by (elim lr_Pick_cases [of refs lb m]) auto
  with assms(3) BLeastRequest show ?thesis by (auto simp: balancer_Pick_def split_def Let_def refs_in_def)
next
  case BRandom
  have "env_intn env (length refs) < length refs" using assms(1,2) by (simp add: draws_ok_def)
  with BRandom assms(2,3) show ?thesis
    using random.pick_some [where i = "env_intn env (length refs)" and dests = refs and endpoints = m]
    by (auto simp: balancer_Pick_def)
qed (use assms(5) in auto)

lemma pool_Pick_unfold:
  assumes "1 < length (pool_Endpoints dp)" and "1 < length (healthyEndpoints hp dp)"
    and "\<not> isStickyEndpoint dp"
  shows "pool_Pick env hp dp r st =
    (case pool_Balancer dp of
       Some b \<Rightarrow>
         (case fst (balancer_Pick env r b (endpointRefs hp (healthyEndpoints hp dp))
                    (endpointMap hp (healthyEndpoints hp dp))) of
            Inl p \<Rightarrow> Inl p
          | Inr e \<Rightarrow> Inr (e, dp\<lparr>pool_Balancer := Some (snd (balancer_Pick env r b
                 (endpointRefs hp (healthyEndpoints hp dp)) (endpointMap hp (healthyEndpoints hp dp))))\<rparr>, [], st))
     | None \<Rightarrow> Inr (Some (healthyEndpoints hp dp ! env_intn env (length (healthyEndpoints hp dp))), dp, [], st))"
  using assms by (auto simp: pool_Pick_def Let_def split_def split: option.split sum.split)

lemma rh_entries_destIDs:
  assumes "dests \<noteq> []"
  shows "rh_entries rh dests \<noteq> [] \<and>
    ringEntry_destID ` set (rh_entries rh dests) \<subseteq> DestinationRef_DestinationID ` set dests"
proof -
  have "0 < nat (rh_vnodes rh dests)" by (simp add: rh_vnodes_def Let_def)
  then obtain k where "nat (rh_vnodes rh dests) = Suc k" by (cases "nat (rh_vnodes rh dests)") auto
  then show ?thesis using assms
    by (cases dests) (auto simp: rh_entries_def rh_entry_def upt_conv_Cons simp del: upt_Suc)
qed

text \<open>The endpoint identifier that owns a hash key on a ring.\<close>

definition ring_owner :: "ringEntry list \<Rightarrow> uint32 \<Rightarrow> string" where
  "ring_owner ring h = ringEntry_destID (hd (clockwise ringEntry_hash h ring))"

lemma rh_PickByHash_owner:
  assumes "slice_sort srt" and "dests \<noteq> []"
  shows "rh_PickByHash (rh_Build srt rh dests) h keys draw endpoints =
      endpoints (ring_owner (rh_ring (rh_Build srt rh dests)) h)"
    and "ring_owner (rh_ring (rh_Build srt rh dests)) h \<in> DestinationRef_DestinationID ` set dests"
proof -
  let ?ring = "srt ringEntry_hash (rh_entries rh dests)"
  have ring: "rh_ring (rh_Build srt rh dests) = ?ring" using assms(2) by (simp add: rh_Build_def)
  have set: "set ?ring = set (rh_entries rh dests)" by (rule slice_sort.set_srt [OF assms(1)])
  have ne: "?ring \<noteq> []"
    using rh_entries_destIDs [OF assms(2), of rh] by (simp add: slice_sort.srt_Nil_iff [OF assms(1)])
  have "clockwise ringEntry_hash h ?ring \<noteq> []" using ne by simp
  then have "hd (clockwise ringEntry_hash h ?ring) \<in> set (clockwise ringEntry_hash h ?ring)"
    by (rule hd_in_set)
  then have "hd (clockwise ringEntry_hash h ?ring) \<in> set (rh_entries rh dests)"
    by (simp only: set_clockwise set)
  then show "ring_owner (rh_ring (rh_Build srt rh dests)) h \<in> DestinationRef_DestinationID ` set dests"
    using rh_entries_destIDs [OF assms(2), of rh] by (auto simp: ring ring_owner_def)
  show "rh_PickByHash (rh_Build srt rh dests) h keys draw endpoints =
      endpoints (ring_owner (rh_ring (rh_Build srt rh dests)) h)"
    using ne ring_index [OF slice_sort.sorted_srt [OF assms(1)] ne, of h]
    by (simp add: rh_PickByHash_def ring Let_def ring_owner_def)
qed

lemma endpointMap_unhealthy:
  assumes "inj_on (epID hp) (set (pool_Endpoints dp))" and "a \<in> set (pool_Endpoints dp)"
  shows "endpointMap hp (healthyEndpoints hp dp) (epID hp a) = (if isHealthy hp a then Some a else None)"
proof (cases "isHealthy hp a")
  case True
  have "inj_on (epID hp) (set (healthyEndpoints hp dp))"
    by (rule inj_on_subset [OF assms(1)]) (auto simp: healthy_iff)
  with True assms(2) show ?thesis by (simp add: endpointMap_self healthy_iff)
next
  case False
  have "epID hp a \<notin> dom (endpointMap hp (healthyEndpoints hp dp))"
    using False assms by (auto simp: endpointMap_def mapFromSlice_dom healthy_iff dest: inj_onD)
  with False show ?thesis by (simp add: domIff)
qed

subsection \<open>Properties\<close>

definition sampleDestination :: Destination where
  "sampleDestination =
     \<lparr>Destination_ID = ''d1'', Destination_Name = ''d1'', Destination_Host = ''h'', Destination_Port = 80,
      Destination_Endpoints = [], Destination_Options = None\<rparr>"

definition sampleEndpoint :: "string \<Rightarrow> bool \<Rightarrow> ProxyEndpoint" where
  "sampleEndpoint host ok =
     \<lparr>ep_Host = host, ep_Port = 80, ep_ID = host @ '':80'',
      ep_Transport = newTransport (\<lambda>s. None) sampleDestination None,
      ep_Healthy = ok, ep_OnResponse = False, ep_lastHealthAt = 0\<rparr>"

definition samplePool :: "Balancer option \<Rightarrow> addr list \<Rightarrow> DestinationPool" where
  "samplePool b eps =
     \<lparr>pool_Destination = sampleDestination, pool_Endpoints = eps, pool_Balancer = b,
      pool_CircuitBreaker = None, pool_SessionStore = False\<rparr>"

definition sampleRequest :: Request where
  "sampleRequest =
     \<lparr>Req_Method = ''GET'', Req_Host = ''example.com'', Req_Scheme = '''', Req_URLHost = '''', Req_Path = ''/'',
      Req_RawQuery = '''', Req_Query = Map.empty, Req_Header = Map.empty,
      Req_RemoteAddr = ''10.0.0.1:999'', Req_Cookies = [], Req_TLS = None, Req_Body = None,
      Req_BodyData = None, Req_Detail = None, Req_ContentLength = 0, Req_Metrics = []\<rparr>"

definition sampleEnv :: "redis env" where
  "sampleEnv =
     \<lparr>env_parseDuration = (\<lambda>s. None), env_intn = (\<lambda>n. 0), env_keys = (\<lambda>m. []), env_sid = ''s1'',
      env_get = redis_Get map_get, env_set = redis_Set map_set\<rparr>"

lemma samplePool_simps [simp]:
  "pool_Endpoints (samplePool b eps) = eps" "pool_Balancer (samplePool b eps) = b"
  by (simp_all add: samplePool_def)

lemmas sample_defs = sampleDestination_def sampleEndpoint_def samplePool_def sampleRequest_def sampleEnv_def

text \<open>C24: Whatever the balancer, the session store and the random draws, an endpoint that a pool picks,
  with or without a hash key, is one of its endpoints and is healthy at that moment.\<close>

theorem pick_is_healthy_member:
  assumes "draws_ok env"
    and "pool_Pick env hp dp r st = Inr (Some a, dp', cs, st') \<or>
         pool_PickByHash env hp dp h r st = Inr (Some a, dp', cs, st')"
  shows "a \<in> set (pool_Endpoints dp) \<and> isHealthy hp a"
  using assms pool_Pick_healthy [OF assms(1)] pool_PickByHash_healthy [OF assms(1)]
  by (auto simp: healthy_iff)

theorem pick_is_healthy_member_witness:
  "(1 :: addr) \<in> set (pool_Endpoints (samplePool (Some BRandom) [0, 1, 2])) \<and>
   isHealthy [0 \<mapsto> sampleEndpoint ''a'' False, 1 \<mapsto> sampleEndpoint ''b'' True, 2 \<mapsto> sampleEndpoint ''c'' True] 1"
  by (rule pick_is_healthy_member [of sampleEnv _ _ sampleRequest None 1
        "samplePool (Some BRandom) [0, 1, 2]" "[]" None 0])
    (simp_all add: sample_defs draws_ok_def pool_Pick_def healthyEndpoints_def isHealthy_def
      isStickyEndpoint_def balancer_Pick_def random_Pick_def endpointRefs_def endpointMap_def epID_def
      mapFromSlice_def)



text \<open>With ring-hash balancing, whose ring is built over all endpoints of the pool, every hash key
  has one owner among the endpoints, which does not depend on their health. A request with that
  key goes to the owner when it is healthy; when it is not, the pick is nil even though other
  endpoints of the pool are healthy.\<close>

theorem ring_hash_owner_or_nil:
  assumes "slice_sort srt"
    and "pool_Balancer dp = Some (BRingHash (rh_Build srt rh (endpointRefs hp (pool_Endpoints dp))))"
    and "1 < length (pool_Endpoints dp)" and "inj_on (epID hp) (set (pool_Endpoints dp))"
    and "healthyEndpoints hp dp \<noteq> []"
  shows "\<exists>a\<in>set (pool_Endpoints dp).
    epID hp a = ring_owner (rh_ring (rh_Build srt rh (endpointRefs hp (pool_Endpoints dp)))) h \<and>
    pool_PickByHash env hp dp h r st = Inr (if isHealthy hp a then Some a else None, dp, [], st)"
proof -
  let ?refs = "endpointRefs hp (pool_Endpoints dp)"
  have "?refs \<noteq> []" using assms(3) by (auto simp: endpointRefs_def)
  note owner = rh_PickByHash_owner [OF assms(1) this, of rh h]
  have "ring_owner (rh_ring (rh_Build srt rh ?refs)) h \<in> epID hp ` set (pool_Endpoints dp)"
    using owner(2) by (simp add: endpointRefs_def image_image)
  then obtain a where a: "a \<in> set (pool_Endpoints dp)"
    "epID hp a = ring_owner (rh_ring (rh_Build srt rh ?refs)) h" by (auto simp: image_iff)
  then show ?thesis
    using assms(2,3,5) endpointMap_unhealthy [OF assms(4) a(1)]
    by (intro bexI [of _ a]) (auto simp: pool_PickByHash_def Let_def owner(1))
qed

text \<open>Three endpoints with one ring entry each; the second one owns hash zero.\<close>

definition sampleHeap :: "bool \<Rightarrow> heap" where
  "sampleHeap ok = [0 \<mapsto> sampleEndpoint ''a'' True, 1 \<mapsto> sampleEndpoint ''b'' ok, 2 \<mapsto> sampleEndpoint ''c'' True]"

definition sampleRing :: RingHashBalancer where
  "sampleRing = rh_Build sort_key (NewRingHashBalancer 1 1) (endpointRefs (sampleHeap False) [0, 1, 2])"

lemma sample_entries:
  "rh_entry ''a:80'' 0 = \<lparr>ringEntry_hash = 0x8b7f0670, ringEntry_destID = ''a:80''\<rparr>"
  "rh_entry ''b:80'' 0 = \<lparr>ringEntry_hash = 0xdeb74de, ringEntry_destID = ''b:80''\<rparr>"
  "rh_entry ''c:80'' 0 = \<lparr>ringEntry_hash = 0xc6b7a77b, ringEntry_destID = ''c:80''\<rparr>"
  by (simp_all add: rh_entry_def decimal_def digits_rev.simps go_simps)

lemma sample_owner: "ring_owner (rh_ring sampleRing) 0 = ''b:80''"
proof -
  have v: "rh_vnodes (NewRingHashBalancer 1 1) [x, y, z] = 1" for x y z
    by (simp add: rh_vnodes_def NewRingHashBalancer_def quot_def)
  have "rh_entries (NewRingHashBalancer 1 1) (endpointRefs (sampleHeap False) [0, 1, 2]) =
      [rh_entry ''a:80'' 0, rh_entry ''b:80'' 0, rh_entry ''c:80'' 0]"
    by (simp add: rh_entries_def endpointRefs_def v epID_def sampleHeap_def sampleEndpoint_def)
  then have "rh_ring sampleRing =
      sort_key ringEntry_hash [rh_entry ''a:80'' 0, rh_entry ''b:80'' 0, rh_entry ''c:80'' 0]"
    by (simp add: sampleRing_def rh_Build_def endpointRefs_def)
  then show ?thesis unfolding sample_entries by (simp add: ring_owner_def clockwise_def)
qed

lemma sample_healthy: "healthyEndpoints (sampleHeap False) (samplePool b [0, 1, 2]) = [0, 2]"
  by (simp add: healthyEndpoints_def isHealthy_def sampleHeap_def sampleEndpoint_def)

text \<open>The owner of hash zero is down; two healthy endpoints remain and the pick is nil.\<close>

theorem ring_hash_owner_or_nil_witness:
  "healthyEndpoints (sampleHeap False) (samplePool (Some (BRingHash sampleRing)) [0, 1, 2]) = [0, 2] \<and>
   pool_PickByHash sampleEnv (sampleHeap False) (samplePool (Some (BRingHash sampleRing)) [0, 1, 2]) 0
     sampleRequest None = Inr (None, samplePool (Some (BRingHash sampleRing)) [0, 1, 2], [], None)"
proof -
  let ?dp = "samplePool (Some (BRingHash sampleRing)) [0, 1, 2]"
  have "inj_on (epID (sampleHeap False)) (set (pool_Endpoints ?dp))"
    by (simp add: epID_def sampleHeap_def sampleEndpoint_def inj_on_def)
  then obtain a where "a \<in> {0, 1, 2}" "epID (sampleHeap False) a = ring_owner (rh_ring sampleRing) 0"
    "pool_PickByHash sampleEnv (sampleHeap False) ?dp 0 sampleRequest None =
       Inr (if isHealthy (sampleHeap False) a then Some a else None, ?dp, [], None)"
    using ring_hash_owner_or_nil [OF stable_sort.slice_sort_axioms, of ?dp "NewRingHashBalancer 1 1"
        "sampleHeap False" 0 sampleEnv sampleRequest None]
    by (auto simp: sampleRing_def sample_healthy simp del: One_nat_def)
  moreover from this have "a = 1"
    unfolding sample_owner by (auto simp: epID_def sampleHeap_def sampleEndpoint_def)
  moreover have "\<not> isHealthy (sampleHeap False) 1"
    by (simp add: isHealthy_def sampleHeap_def sampleEndpoint_def)
  ultimately show ?thesis by (simp add: sample_healthy del: One_nat_def)
qed

text \<open>A new client of a sticky pool is given a session cookie, and as long as its endpoint stays
  healthy, every later request with that cookie goes back to that endpoint, for any session store
  that returns what was stored and any later random draws.\<close>

theorem sticky_client_returns:
  assumes "session_store (env_get env) (env_set env)" and "\<And>k f v t. env_set env st k f v t \<noteq> None"
    and "env_sid env \<noteq> ''''" and "reqCookie r (fst (stickyEndpointCookie dp)) = None"
    and "pickStickyEndpoint env hp dp r healthy st = (a, cookies, st')"
    and "reqCookie r' (fst (stickyEndpointCookie dp)) = Some (env_sid env)"
    and "env_get env' = env_get env"
    and "a \<in> set healthy'" and "inj_on (epID hp') (set healthy')"
    and "epID hp' a = epID hp a" and "epID hp a \<noteq> ''''"
  shows "map Cookie_Value cookies = [env_sid env] \<and>
    pickStickyEndpoint env' hp' dp r' healthy' st' = (a, [], st')"
proof -
  let ?ck = "stickyEndpointCookie dp" and ?key = "env_sid env @ '':'' @ Destination_ID (pool_Destination dp)"
  let ?ttl = "parseTTL (env_parseDuration env) (snd ?ck) hour"
  obtain s1 where s1: "env_set env st ?key ''ep'' (epID hp a) (seconds ?ttl) = Some s1" using assms(2) by blast
  have first: "cookies = [pinCookie (fst ?ck) (env_sid env) ?ttl]" "st' = s1"
    using assms(4,5) s1 by (auto simp: pickStickyEndpoint_def Let_def split_def)
  have "env_get env st' ?key ''ep'' = Some (epID hp a)"
    using session_store.get_set [OF assms(1) s1] first(2) by simp
  moreover have "endpointMap hp' healthy' (epID hp a) = Some a"
    using endpointMap_self [OF assms(9,8)] assms(10) by simp
  ultimately have "pickStickyEndpoint env' hp' dp r' healthy' st' = (a, [], st')"
    using assms(3,6,7,11) by (simp add: pickStickyEndpoint_def Let_def split_def)
  with first(1) show ?thesis by (simp add: pinCookie_def)
qed

theorem sticky_client_returns_witness:
  "pickStickyEndpoint sampleEnv (sampleHeap True) (samplePool None [0, 1, 2])
     (sampleRequest\<lparr>Req_Cookies := [(''_vrata_endpoint_pin'', ''s1'')]\<rparr>) [1, 0]
     (snd (snd (pickStickyEndpoint sampleEnv (sampleHeap True) (samplePool None [0, 1, 2]) sampleRequest [0, 1, 2]
        (Some Map.empty)))) =
   (0, [], snd (snd (pickStickyEndpoint sampleEnv (sampleHeap True) (samplePool None [0, 1, 2]) sampleRequest [0, 1, 2]
        (Some Map.empty))))"
proof -
  let ?p = "pickStickyEndpoint sampleEnv (sampleHeap True) (samplePool None [0, 1, 2]) sampleRequest [0, 1, 2]
      (Some Map.empty)"
  have "?p = (0, fst (snd ?p), snd (snd ?p))"
    by (simp add: pickStickyEndpoint_def Let_def sample_defs stickyEndpointCookie_def reqCookie_def)
  then have "map Cookie_Value (fst (snd ?p)) = [env_sid sampleEnv] \<and>
      pickStickyEndpoint sampleEnv (sampleHeap True) (samplePool None [0, 1, 2])
        (sampleRequest\<lparr>Req_Cookies := [(''_vrata_endpoint_pin'', ''s1'')]\<rparr>) [1, 0] (snd (snd ?p)) =
      (0, [], snd (snd ?p))"
    by (rule sticky_client_returns [rotated 4])
      (simp_all add: sample_defs stickyEndpointCookie_def reqCookie_def epID_def sampleHeap_def inj_on_def
        redis.session_store_axioms redis_Set_def map_set_def)
  then show ?thesis by simp
qed

end
