(* ===== verification/Outlier.thy ===== *)
theory Outlier
  imports Pool "HOL-Library.Sublist"
begin

text \<open>
  Outlier detection (\<^verbatim>\<open>server/internal/proxy/outlier.go\<close>): the tracker of each endpoint, the recording
  of responses with ejection, the periodic restoration and the replacement of the tracked pools.
  A tracker refers to its endpoint by address; ejecting and restoring write the Healthy flag of the
  shared endpoint. The calls are atomic steps.
\<close>

subsection \<open>Trackers\<close>

record outlierTracker =
  ot_consecutive5xx :: int
  ot_consecutiveGateway :: int
  ot_ejected :: bool
  ot_ejectedAt :: time
  ot_ejectionCount :: int
  ot_cfg :: OutlierDetectionOptions
  ot_endpoint :: addr

type_synonym trackers = "string \<rightharpoonup> outlierTracker"

definition newTracker :: "time \<Rightarrow> OutlierDetectionOptions \<Rightarrow> addr \<Rightarrow> outlierTracker" where
  "newTracker zeroTime cfg ep =
     \<lparr>ot_consecutive5xx = 0, ot_consecutiveGateway = 0, ot_ejected = False, ot_ejectedAt = zeroTime,
      ot_ejectionCount = 0, ot_cfg = cfg, ot_endpoint = ep\<rparr>"

definition endpointKey :: "string \<Rightarrow> string \<Rightarrow> string" where
  "endpointKey destID ep = destID @ ''/'' @ ep"

definition setHealthy :: "addr \<Rightarrow> bool \<Rightarrow> heap \<Rightarrow> heap" where
  "setHealthy a ok hp = hp(a := map_option (\<lambda>e. e\<lparr>ep_Healthy := ok\<rparr>) (hp a))"

subsection \<open>Operations\<close>

definition NewOutlierDetector :: trackers where
  "NewOutlierDetector = Map.empty"

definition trackEndpoint ::
  "time \<Rightarrow> heap \<Rightarrow> trackers \<Rightarrow> string \<Rightarrow> OutlierDetectionOptions \<Rightarrow> trackers \<Rightarrow> addr \<Rightarrow> trackers" where
  "trackEndpoint zeroTime hp old destID cfg new a =
     (let key = endpointKey destID (epID hp a) in
      case old key of
        Some existing \<Rightarrow> new(key \<mapsto> existing\<lparr>ot_endpoint := a\<rparr>)
      | None \<Rightarrow> new(key \<mapsto> newTracker zeroTime cfg a))"

definition trackPool :: "time \<Rightarrow> heap \<Rightarrow> trackers \<Rightarrow> trackers \<Rightarrow> DestinationPool \<Rightarrow> trackers" where
  "trackPool zeroTime hp old new pool =
     (case Destination_Options (pool_Destination pool) of
        None \<Rightarrow> new
      | Some opt \<Rightarrow>
          (case DestinationOptions_OutlierDetection opt of
             None \<Rightarrow> new
           | Some cfg \<Rightarrow>
               foldl (trackEndpoint zeroTime hp old (Destination_ID (pool_Destination pool)) cfg) new
                 (pool_Endpoints pool)))"

text \<open>\<open>pools\<close> are the values of the map of pools in the order in which the loop visits them.\<close>

definition od_Update :: "time \<Rightarrow> heap \<Rightarrow> DestinationPool list \<Rightarrow> trackers \<Rightarrow> trackers" where
  "od_Update zeroTime hp pools old = foldl (trackPool zeroTime hp old) Map.empty pools"

definition countResponse :: "int \<Rightarrow> outlierTracker \<Rightarrow> outlierTracker" where
  "countResponse statusCode t =
     (if statusCode \<ge> 500 then
        let t = t\<lparr>ot_consecutive5xx := swrap 64 (ot_consecutive5xx t + 1)\<rparr> in
        if statusCode = 502 \<or> statusCode = 503 \<or> statusCode = 504
        then t\<lparr>ot_consecutiveGateway := swrap 64 (ot_consecutiveGateway t + 1)\<rparr> else t
      else t\<lparr>ot_consecutive5xx := 0, ot_consecutiveGateway := 0\<rparr>)"

definition threshold5xx :: "OutlierDetectionOptions \<Rightarrow> int" where
  "threshold5xx cfg =
     (if OutlierDetectionOptions_Consecutive5xx cfg > 0
      then int (unat (OutlierDetectionOptions_Consecutive5xx cfg)) else 5)"

definition thresholdGw :: "OutlierDetectionOptions \<Rightarrow> int" where
  "thresholdGw cfg =
     (if OutlierDetectionOptions_ConsecutiveGatewayErrors cfg > 0
      then int (unat (OutlierDetectionOptions_ConsecutiveGatewayErrors cfg)) else 0)"

definition shouldEject :: "outlierTracker \<Rightarrow> bool" where
  "shouldEject t \<longleftrightarrow>
     ot_consecutive5xx t \<ge> threshold5xx (ot_cfg t) \<or>
     thresholdGw (ot_cfg t) > 0 \<and> ot_consecutiveGateway t \<ge> thresholdGw (ot_cfg t)"

definition RecordResponse ::
  "time \<Rightarrow> string \<Rightarrow> string \<Rightarrow> int \<Rightarrow> trackers \<times> heap \<Rightarrow> trackers \<times> heap" where
  "RecordResponse now destID ep statusCode od =
     (let (ts, hp) = od; key = endpointKey destID ep in
      case ts key of
        None \<Rightarrow> (ts, hp)
      | Some t \<Rightarrow>
          let t = countResponse statusCode t in
          if shouldEject t \<and> \<not> ot_ejected t then
            (ts(key \<mapsto> t\<lparr>ot_ejected := True, ot_ejectedAt := now,
                         ot_ejectionCount := swrap 64 (ot_ejectionCount t + 1)\<rparr>),
             setHealthy (ot_endpoint t) False hp)
          else (ts(key \<mapsto> t), hp))"

definition ejectionDuration :: "(string \<Rightarrow> duration option) \<Rightarrow> outlierTracker \<Rightarrow> duration" where
  "ejectionDuration parseDuration t =
     (let baseTime = (if OutlierDetectionOptions_BaseEjectionTime (ot_cfg t) \<noteq> '''' then
                        case parseDuration (OutlierDetectionOptions_BaseEjectionTime (ot_cfg t)) of
                          Some d \<Rightarrow> d | None \<Rightarrow> 30 * second
                      else 30 * second)
      in swrap 64 (baseTime * ot_ejectionCount t))"

definition checkEjection ::
  "(string \<Rightarrow> duration option) \<Rightarrow> time \<Rightarrow> trackers \<times> heap \<Rightarrow> string \<Rightarrow> trackers \<times> heap" where
  "checkEjection parseDuration now od key =
     (let (ts, hp) = od in
      case ts key of
        None \<Rightarrow> (ts, hp)
      | Some t \<Rightarrow>
          if \<not> ot_ejected t then (ts, hp)
          else if timeSub now (ot_ejectedAt t) > ejectionDuration parseDuration t then
            (ts(key \<mapsto> t\<lparr>ot_ejected := False, ot_consecutive5xx := 0, ot_consecutiveGateway := 0\<rparr>),
             setHealthy (ot_endpoint t) True hp)
          else (ts, hp))"

text \<open>\<open>keys\<close> are the keys of the map of trackers in the order in which the loop visits them.\<close>

definition checkEjections ::
  "(string \<Rightarrow> duration option) \<Rightarrow> time \<Rightarrow> string list \<Rightarrow> trackers \<times> heap \<Rightarrow> trackers \<times> heap" where
  "checkEjections parseDuration now keys od = foldl (checkEjection parseDuration now) od keys"

subsection \<open>Runs of server errors\<close>

definition isGateway :: "int \<Rightarrow> bool" where
  "isGateway s \<longleftrightarrow> s = 502 \<or> s = 503 \<or> s = 504"

text \<open>The length of the trailing run of server errors, and the gateway errors in that run.\<close>

definition run5xx :: "int list \<Rightarrow> int" where
  "run5xx ss = int (length (takeWhile (\<lambda>s. 500 \<le> s) (rev ss)))"

definition runGw :: "int list \<Rightarrow> int" where
  "runGw ss = int (length (filter isGateway (takeWhile (\<lambda>s. 500 \<le> s) (rev ss))))"

definition trips :: "OutlierDetectionOptions \<Rightarrow> int list \<Rightarrow> bool" where
  "trips cfg ss \<longleftrightarrow> threshold5xx cfg \<le> run5xx ss \<or> 0 < thresholdGw cfg \<and> thresholdGw cfg \<le> runGw ss"

definition recordAll ::
  "string \<Rightarrow> string \<Rightarrow> (time \<times> int) list \<Rightarrow> trackers \<times> heap \<Rightarrow> trackers \<times> heap" where
  "recordAll destID ep rs od = foldl (\<lambda>od (now, s). RecordResponse now destID ep s od) od rs"

lemma run_simps [simp]:
  "run5xx [] = 0" "runGw [] = 0"
  "run5xx (ss @ [s]) = (if 500 \<le> s then run5xx ss + 1 else 0)"
  "runGw (ss @ [s]) = (if 500 \<le> s then runGw ss + (if isGateway s then 1 else 0) else 0)"
  by (simp_all add: run5xx_def runGw_def)

lemma run_bounds: "0 \<le> runGw ss" "runGw ss \<le> run5xx ss" "run5xx ss \<le> int (length ss)"
  using length_filter_le [of isGateway "takeWhile (\<lambda>s. 500 \<le> s) (rev ss)"]
    length_takeWhile_le [of "\<lambda>s. 500 \<le> s" "rev ss"]
  by (simp_all add: run5xx_def runGw_def)

lemma threshold5xx_pos: "0 < threshold5xx cfg"
  using word_less_alt [of 0 "OutlierDetectionOptions_Consecutive5xx cfg"] by (simp add: threshold5xx_def)

lemma trips_Nil [simp]: "\<not> trips cfg []"
  using threshold5xx_pos [of cfg] by (simp add: trips_def)

lemma isHealthy_setHealthy:
  "isHealthy (setHealthy a ok hp) b = (if b = a \<and> hp a \<noteq> None then ok else isHealthy hp b)"
  by (auto simp: isHealthy_def setHealthy_def split: option.splits)

lemma setHealthy_dom [simp]: "setHealthy a ok hp b = None \<longleftrightarrow> hp b = None"
  by (simp add: setHealthy_def)

lemma countResponse_run:
  assumes "ot_consecutive5xx t = run5xx ss" and "ot_consecutiveGateway t = runGw ss" and "int (length ss) < 2 ^ 63 - 1"
  shows "ot_consecutive5xx (countResponse s t) = run5xx (ss @ [s])"
    "ot_consecutiveGateway (countResponse s t) = runGw (ss @ [s])"
proof -
  have "swrap 64 (run5xx ss + 1) = run5xx ss + 1" "swrap 64 (runGw ss + 1) = runGw ss + 1"
    using run_bounds [of ss] assms(3) by (simp_all add: swrap64_id fits_def)
  then show "ot_consecutive5xx (countResponse s t) = run5xx (ss @ [s])"
    "ot_consecutiveGateway (countResponse s t) = runGw (ss @ [s])"
    using assms(1,2) by (simp_all add: countResponse_def isGateway_def Let_def)
qed

lemma countResponse_frame [simp]:
  "ot_ejected (countResponse s t) = ot_ejected t" "ot_ejectedAt (countResponse s t) = ot_ejectedAt t"
  "ot_ejectionCount (countResponse s t) = ot_ejectionCount t" "ot_cfg (countResponse s t) = ot_cfg t"
  "ot_endpoint (countResponse s t) = ot_endpoint t"
  by (simp_all add: countResponse_def Let_def)

text \<open>The state of a tracker and of its endpoint after the responses \<open>ss\<close>.\<close>

definition tracks :: "string \<Rightarrow> addr \<Rightarrow> OutlierDetectionOptions \<Rightarrow> int list \<Rightarrow> trackers \<times> heap \<Rightarrow> bool" where
  "tracks key a cfg ss od \<longleftrightarrow>
     (\<exists>t. fst od key = Some t \<and> ot_cfg t = cfg \<and> ot_endpoint t = a \<and>
        ot_consecutive5xx t = run5xx ss \<and> ot_consecutiveGateway t = runGw ss \<and>
        (ot_ejected t \<longleftrightarrow> (\<exists>p. prefix p ss \<and> trips cfg p)) \<and>
        ot_ejectionCount t = (if ot_ejected t then 1 else 0) \<and>
        snd od a \<noteq> None \<and> isHealthy (snd od) a = (\<not> ot_ejected t))"

lemma tracks_step:
  assumes "tracks (endpointKey destID ep) a cfg ss od" and "int (length ss) < 2 ^ 63 - 1"
  shows "tracks (endpointKey destID ep) a cfg (ss @ [s]) (RecordResponse now destID ep s od)"
proof -
  obtain ts hp where od: "od = (ts, hp)" by (cases od)
  let ?key = "endpointKey destID ep"
  obtain t where t: "ts ?key = Some t" "ot_cfg t = cfg" "ot_endpoint t = a"
      "ot_consecutive5xx t = run5xx ss" "ot_consecutiveGateway t = runGw ss"
      "ot_ejected t \<longleftrightarrow> (\<exists>p. prefix p ss \<and> trips cfg p)"
      "ot_ejectionCount t = (if ot_ejected t then 1 else 0)"
      "hp a \<noteq> None" "isHealthy hp a = (\<not> ot_ejected t)"
    using assms(1) unfolding tracks_def od fst_conv snd_conv by blast
  note run = countResponse_run [OF t(4,5) assms(2)]
  have eject: "shouldEject (countResponse s t) \<longleftrightarrow> trips cfg (ss @ [s])"
    unfolding shouldEject_def trips_def run countResponse_frame t(2) by simp
  have pre: "(\<exists>p. prefix p (ss @ [s]) \<and> trips cfg p) \<longleftrightarrow> ot_ejected t \<or> trips cfg (ss @ [s])"
    unfolding t(6) by (auto simp: prefix_snoc)
  show ?thesis
  proof (cases "trips cfg (ss @ [s]) \<and> \<not> ot_ejected t")
    case True
    then have "RecordResponse now destID ep s od =
      (ts(?key \<mapsto> (countResponse s t)\<lparr>ot_ejected := True, ot_ejectedAt := now, ot_ejectionCount := swrap 64 1\<rparr>),
       setHealthy a False hp)"
      using t(1,3,7) by (simp add: RecordResponse_def od eject Let_def)
    then show ?thesis
      using True run t pre by (simp add: tracks_def isHealthy_setHealthy swrap64_id fits_def)
  next
    case False
    then have "RecordResponse now destID ep s od = (ts(?key \<mapsto> countResponse s t), hp)"
      using t(1) by (auto simp: RecordResponse_def od eject Let_def)
    then show ?thesis
      using False run t pre by (auto simp: tracks_def)
  qed
qed

lemma tracks_recordAll:
  assumes "tracks (endpointKey destID ep) a cfg [] od" and "int (length rs) < 2 ^ 63"
  shows "tracks (endpointKey destID ep) a cfg (map snd rs) (recordAll destID ep rs od)"
  using assms(2)
proof (induction rs rule: rev_induct)
  case Nil
  then show ?case using assms(1) by (simp add: recordAll_def)
next
  case (snoc r rs)
  obtain now s where "r = (now, s)" by (cases r)
  with snoc tracks_step [of destID ep a cfg "map snd rs" "recordAll destID ep rs od" s now] show ?case
    by (simp add: recordAll_def)
qed

subsection \<open>The ejection period\<close>

datatype od_event = Response time string string int | Tick time "string list"

fun od_exec :: "(string \<Rightarrow> duration option) \<Rightarrow> trackers \<times> heap \<Rightarrow> od_event \<Rightarrow> trackers \<times> heap" where
  "od_exec pd od (Response now destID ep s) = RecordResponse now destID ep s od"
| "od_exec pd od (Tick now keys) = checkEjections pd now keys od"

fun tick_by :: "time \<Rightarrow> od_event \<Rightarrow> bool" where
  "tick_by limit (Response now destID ep s) = True"
| "tick_by limit (Tick now keys) = (now \<le> limit)"

text \<open>
  The tracker \<open>key\<close> holds its endpoint \<open>a\<close> ejected since \<open>since\<close> for the period \<open>d\<close>, and no other
  tracker refers to that endpoint.
\<close>

definition holds ::
  "(string \<Rightarrow> duration option) \<Rightarrow> string \<Rightarrow> addr \<Rightarrow> time \<Rightarrow> duration \<Rightarrow> trackers \<times> heap \<Rightarrow> bool" where
  "holds pd key a since d od \<longleftrightarrow>
     (\<exists>t. fst od key = Some t \<and> ot_endpoint t = a \<and> ot_ejected t \<and> ot_ejectedAt t = since \<and>
        ejectionDuration pd t = d) \<and>
     (\<forall>k t. fst od k = Some t \<longrightarrow> ot_endpoint t = a \<longrightarrow> k = key) \<and>
     snd od a \<noteq> None \<and> \<not> isHealthy (snd od) a"

lemma ejectionDuration_count [simp]: "ejectionDuration pd (countResponse s t) = ejectionDuration pd t"
  by (simp add: ejectionDuration_def)

lemma holdsE:
  assumes "holds pd key a since d od"
  obtains t where "fst od key = Some t" "ot_endpoint t = a" "ot_ejected t" "ot_ejectedAt t = since"
    "ejectionDuration pd t = d" "snd od a \<noteq> None" "\<not> isHealthy (snd od) a"
  using assms unfolding holds_def by blast

lemma holds_uniq: "holds pd key a since d od \<Longrightarrow> fst od k = Some t \<Longrightarrow> ot_endpoint t = a \<Longrightarrow> k = key"
  unfolding holds_def by blast

lemma holds_frame:
  assumes "holds pd key a since d (ts, hp)" and "ts k = Some t" and "ot_endpoint t' = ot_endpoint t"
    and "k = key \<Longrightarrow> (ot_ejected t' \<longleftrightarrow> ot_ejected t) \<and> ot_ejectedAt t' = ot_ejectedAt t \<and> ejectionDuration pd t' = ejectionDuration pd t"
    and "hp' a = hp a"
  shows "holds pd key a since d (ts(k \<mapsto> t'), hp')"
proof -
  obtain u where t: "ts key = Some u" "ot_endpoint u = a" "ot_ejected u" "ot_ejectedAt u = since"
      "ejectionDuration pd u = d" by (rule holdsE [OF assms(1)]) simp
  note uniq = holds_uniq [OF assms(1), simplified]
  have "isHealthy hp' a = isHealthy hp a" using assms(5) by (simp add: isHealthy_def)
  moreover have "\<exists>u. (ts(k \<mapsto> t')) key = Some u \<and> ot_endpoint u = a \<and> ot_ejected u \<and> ot_ejectedAt u = since \<and>
      ejectionDuration pd u = d"
    using t assms(2-4) by (cases "k = key") simp_all
  moreover have "\<forall>l u. (ts(k \<mapsto> t')) l = Some u \<longrightarrow> ot_endpoint u = a \<longrightarrow> l = key"
    using uniq assms(2,3) by (metis fun_upd_apply option.inject)
  ultimately show ?thesis using assms(1,5) by (simp add: holds_def)
qed

lemma holds_other:
  assumes "holds pd key a since d (ts, hp)" and "ts k = Some t" and "\<not> ot_ejected t"
  shows "k \<noteq> key" "ot_endpoint t \<noteq> a"
proof -
  show "k \<noteq> key" by (rule holdsE [OF assms(1)]) (use assms(2,3) in auto)
  then show "ot_endpoint t \<noteq> a" using holds_uniq [OF assms(1), of k t] assms(2) by auto
qed

lemma setHealthy_other: "b \<noteq> a \<Longrightarrow> setHealthy a ok hp b = hp b"
  by (simp add: setHealthy_def)

lemma holds_response:
  assumes "holds pd key a since d (ts, hp)"
  shows "holds pd key a since d (RecordResponse now destID ep s (ts, hp))"
proof (cases "ts (endpointKey destID ep)")
  case None
  with assms show ?thesis by (simp add: RecordResponse_def)
next
  case (Some t)
  show ?thesis
  proof (cases "shouldEject (countResponse s t) \<and> \<not> ot_ejected t")
    case True
    with holds_other [OF assms Some] show ?thesis
      by (simp add: RecordResponse_def Some Let_def)
        (rule holds_frame [OF assms Some], simp_all add: setHealthy_other)
  next
    case False
    then have "RecordResponse now destID ep s (ts, hp) = (ts(endpointKey destID ep \<mapsto> countResponse s t), hp)"
      by (auto simp: RecordResponse_def Some Let_def)
    with holds_frame [OF assms Some, of "countResponse s t" hp] show ?thesis by simp
  qed
qed

lemma holds_check:
  assumes "holds pd key a since d (ts, hp)" and "k = key \<Longrightarrow> timeSub now since \<le> d"
  shows "holds pd key a since d (checkEjection pd now (ts, hp) k)"
proof (cases "ts k")
  case None
  with assms show ?thesis by (simp add: checkEjection_def)
next
  case (Some t)
  show ?thesis
  proof (cases "ot_ejected t \<and> timeSub now (ot_ejectedAt t) > ejectionDuration pd t")
    case True
    have "k \<noteq> key" by (rule holdsE [OF assms(1)]) (use True assms(2) Some in auto)
    moreover from this have "ot_endpoint t \<noteq> a" using holds_uniq [OF assms(1), of k t] Some by auto
    ultimately show ?thesis using True
      by (simp add: checkEjection_def Some) (rule holds_frame [OF assms(1) Some], simp_all add: setHealthy_other)
  next
    case False
    with assms(1) show ?thesis by (auto simp: checkEjection_def Some)
  qed
qed

lemma holds_checks:
  assumes "holds pd key a since d od" and "timeSub now since \<le> d"
  shows "holds pd key a since d (checkEjections pd now keys od)"
  unfolding checkEjections_def using assms(1)
proof (induction keys arbitrary: od)
  case (Cons k keys)
  moreover have "holds pd key a since d (checkEjection pd now od k)"
    using holds_check [of pd key a since d "fst od" "snd od"] Cons.prems assms(2) by simp
  ultimately show ?case by simp
qed simp

lemma timeSub_le: "fits 64 d \<Longrightarrow> now \<le> since + d \<Longrightarrow> timeSub now since \<le> d"
  by (auto simp: timeSub_def fits_def)

lemma holds_events:
  assumes "holds pd key a since d od" and "\<forall>e\<in>set evs. tick_by (since + d) e" and "fits 64 d"
  shows "holds pd key a since d (foldl (od_exec pd) od evs)"
  using assms(1,2)
proof (induction evs arbitrary: od)
  case (Cons e evs)
  then have "holds pd key a since d (od_exec pd od e)"
  proof (cases e)
    case (Response now destID ep s)
    then show ?thesis using holds_response [of pd key a since d "fst od" "snd od"] Cons.prems(1) by simp
  next
    case (Tick now keys)
    then show ?thesis using holds_checks [OF Cons.prems(1) timeSub_le [OF assms(3)]] Cons.prems(2) by simp
  qed
  with Cons show ?case by simp
qed simp

text \<open>A tracker that is due is restored by the first check of its key, and later checks leave it so.\<close>

definition restored :: "string \<Rightarrow> addr \<Rightarrow> trackers \<times> heap \<Rightarrow> bool" where
  "restored key a od \<longleftrightarrow>
     (\<exists>t. fst od key = Some t \<and> \<not> ot_ejected t \<and> ot_consecutive5xx t = 0 \<and> ot_consecutiveGateway t = 0) \<and>
     isHealthy (snd od) a"

lemma restored_check:
  assumes "restored key a (ts, hp)"
  shows "restored key a (checkEjection pd now (ts, hp) k)"
proof (cases "ts k")
  case None
  with assms show ?thesis by (simp add: checkEjection_def)
next
  case (Some t)
  with assms show ?thesis
    by (cases "k = key") (simp_all add: restored_def checkEjection_def isHealthy_setHealthy)
qed

lemma restored_checks: "restored key a od \<Longrightarrow> restored key a (checkEjections pd now keys od)"
  unfolding checkEjections_def
proof (induction keys arbitrary: od)
  case (Cons k keys)
  then show ?case using restored_check [of key a "fst od" "snd od" pd now k] by simp
qed simp

lemma due_restored:
  assumes "holds pd key a since d od" and "timeSub now since > d" and "key \<in> set keys"
  shows "restored key a (checkEjections pd now keys od)"
  using assms(1,3)
proof (induction keys arbitrary: od)
  case (Cons k keys)
  show ?case
  proof (cases "k = key")
    case True
    obtain t where t: "fst od key = Some t" "ot_endpoint t = a" "ot_ejected t" "ot_ejectedAt t = since"
        "ejectionDuration pd t = d" and "snd od a \<noteq> None" by (rule holdsE [OF Cons.prems(1)])
    then have "restored key a (checkEjection pd now od key)"
      using assms(2) by (simp add: restored_def checkEjection_def isHealthy_setHealthy split_def)
    then show ?thesis using True restored_checks by (simp add: checkEjections_def)
  next
    case False
    then have "holds pd key a since d (checkEjection pd now od k)"
      using holds_check [of pd key a since d "fst od" "snd od"] Cons.prems(1) by simp
    then show ?thesis using Cons False by (simp add: checkEjections_def)
  qed
qed simp

subsection \<open>Properties\<close>

definition sampleOutlier :: OutlierDetectionOptions where
  "sampleOutlier =
     \<lparr>OutlierDetectionOptions_Consecutive5xx = 3, OutlierDetectionOptions_ConsecutiveGatewayErrors = 2,
      OutlierDetectionOptions_Interval = '''', OutlierDetectionOptions_BaseEjectionTime = '''',
      OutlierDetectionOptions_MaxEjectionPercent = 0\<rparr>"





end
