(* ===== verification/Health.thy ===== *)
theory Health
  imports Outlier
begin

text \<open>
  Active health checking (\<^verbatim>\<open>server/internal/proxy/health.go\<close>): the counters of each endpoint, one pass
  over the pools, and the probe. The probe request is a parameter that gives the status code, or
  \<open>None\<close> when the request fails; \<open>clk\<close> gives the two clock readings of an endpoint's turn.
\<close>

subsection \<open>Counters and configuration\<close>

record healthCounter =
  hc_successes :: uint32
  hc_failures :: uint32

type_synonym counters = "string \<rightharpoonup> healthCounter"

definition zeroCounter :: healthCounter where
  "zeroCounter = \<lparr>hc_successes = 0, hc_failures = 0\<rparr>"

record HealthChecker =
  hc_pools :: "DestinationPool list"
  hc_counters :: counters

definition NewHealthChecker :: HealthChecker where
  "NewHealthChecker = \<lparr>hc_pools = [], hc_counters = Map.empty\<rparr>"

definition poolKeys :: "heap \<Rightarrow> DestinationPool \<Rightarrow> string list" where
  "poolKeys hp pool =
     map (\<lambda>a. endpointKey (Destination_ID (pool_Destination pool)) (epID hp a)) (pool_Endpoints pool)"

text \<open>\<open>pools\<close> are the values of the map of pools in the order in which the loop visits them.\<close>

definition hc_Update :: "heap \<Rightarrow> DestinationPool list \<Rightarrow> HealthChecker \<Rightarrow> HealthChecker" where
  "hc_Update hp pools hc =
     \<lparr>hc_pools = pools,
      hc_counters = foldl (\<lambda>new key. case hc_counters hc key of
                              Some c \<Rightarrow> new(key \<mapsto> c) | None \<Rightarrow> new(key \<mapsto> zeroCounter))
                     Map.empty (concat (map (poolKeys hp) pools))\<rparr>"

definition durationOr :: "(string \<Rightarrow> duration option) \<Rightarrow> string \<Rightarrow> duration \<Rightarrow> duration" where
  "durationOr parseDuration s fallback =
     (if s \<noteq> '''' then case parseDuration s of Some d \<Rightarrow> d | None \<Rightarrow> fallback else fallback)"

definition unhealthyThreshold :: "HealthCheckOptions \<Rightarrow> uint32" where
  "unhealthyThreshold cfg =
     (if HealthCheckOptions_UnhealthyThreshold cfg > 0 then HealthCheckOptions_UnhealthyThreshold cfg else 3)"

definition healthyThreshold :: "HealthCheckOptions \<Rightarrow> uint32" where
  "healthyThreshold cfg =
     (if HealthCheckOptions_HealthyThreshold cfg > 0 then HealthCheckOptions_HealthyThreshold cfg else 2)"

subsection \<open>Probes\<close>

definition checkURL :: "heap \<Rightarrow> addr \<Rightarrow> Destination \<Rightarrow> string \<Rightarrow> string" where
  "checkURL hp a d path =
     (case hp a of
        None \<Rightarrow> ''''
      | Some e \<Rightarrow> (if tlsEnabled d then ''https'' else ''http'') @ ''://'' @ hostPort (ep_Host e) (ep_Port e) @ path)"

definition checkEndpoint ::
  "(string \<Rightarrow> duration \<Rightarrow> int option) \<Rightarrow> heap \<Rightarrow> addr \<Rightarrow> Destination \<Rightarrow> string \<Rightarrow> duration \<Rightarrow> bool" where
  "checkEndpoint httpGet hp a d path timeout =
     (case httpGet (checkURL hp a d path) timeout of
        None \<Rightarrow> False
      | Some status \<Rightarrow> status \<ge> 200 \<and> status < 400)"

definition countProbe ::
  "HealthCheckOptions \<Rightarrow> bool \<Rightarrow> bool \<times> healthCounter \<Rightarrow> bool \<times> healthCounter" where
  "countProbe cfg passed s =
     (let (wasHealthy, c) = s in
      if passed then
        let c = c\<lparr>hc_failures := 0, hc_successes := hc_successes c + 1\<rparr> in
        (wasHealthy \<or> hc_successes c \<ge> healthyThreshold cfg, c)
      else
        let c = c\<lparr>hc_successes := 0, hc_failures := hc_failures c + 1\<rparr> in
        (wasHealthy \<and> \<not> hc_failures c \<ge> unhealthyThreshold cfg, c))"

definition setLastHealthCheck :: "addr \<Rightarrow> time \<Rightarrow> heap \<Rightarrow> heap" where
  "setLastHealthCheck a t hp = hp(a := map_option (\<lambda>e. e\<lparr>ep_lastHealthAt := t\<rparr>) (hp a))"

definition lastHealthCheck :: "heap \<Rightarrow> addr \<Rightarrow> time" where
  "lastHealthCheck hp a = (case hp a of None \<Rightarrow> 0 | Some e \<Rightarrow> ep_lastHealthAt e)"

definition checkOne ::
  "(string \<Rightarrow> duration option) \<Rightarrow> (string \<Rightarrow> duration \<Rightarrow> int option) \<Rightarrow> (addr \<Rightarrow> time \<times> time) \<Rightarrow>
   Destination \<Rightarrow> HealthCheckOptions \<Rightarrow> counters \<times> heap \<Rightarrow> addr \<Rightarrow> counters \<times> heap" where
  "checkOne parseDuration httpGet clk d cfg st a =
     (let (cs, hp) = st;
          interval = durationOr parseDuration (HealthCheckOptions_Interval cfg) (10 * second);
          timeout = durationOr parseDuration (HealthCheckOptions_Timeout cfg) (5 * second)
      in if timeSub (fst (clk a)) (lastHealthCheck hp a) < interval then (cs, hp)
         else
           let hp = setLastHealthCheck a (snd (clk a)) hp;
               key = endpointKey (Destination_ID d) (epID hp a);
               counter = (case cs key of None \<Rightarrow> zeroCounter | Some c \<Rightarrow> c);
               passed = checkEndpoint httpGet hp a d (HealthCheckOptions_Path cfg) timeout;
               (ok, counter) = countProbe cfg passed (isHealthy hp a, counter)
           in (cs(key \<mapsto> counter), setHealthy a ok hp))"

definition checkPool ::
  "(string \<Rightarrow> duration option) \<Rightarrow> (string \<Rightarrow> duration \<Rightarrow> int option) \<Rightarrow> (addr \<Rightarrow> time \<times> time) \<Rightarrow>
   counters \<times> heap \<Rightarrow> DestinationPool \<Rightarrow> counters \<times> heap" where
  "checkPool parseDuration httpGet clk st pool =
     (let d = pool_Destination pool in
      case Destination_Options d of
        None \<Rightarrow> st
      | Some opt \<Rightarrow>
          (case DestinationOptions_HealthCheck opt of
             None \<Rightarrow> st
           | Some cfg \<Rightarrow> foldl (checkOne parseDuration httpGet clk d cfg) st (pool_Endpoints pool)))"

definition checkAll ::
  "(string \<Rightarrow> duration option) \<Rightarrow> (string \<Rightarrow> duration \<Rightarrow> int option) \<Rightarrow> (addr \<Rightarrow> time \<times> time) \<Rightarrow>
   HealthChecker \<times> heap \<Rightarrow> HealthChecker \<times> heap" where
  "checkAll parseDuration httpGet clk st =
     (let (hc, hp) = st;
          (cs, hp) = foldl (checkPool parseDuration httpGet clk) (hc_counters hc, hp) (hc_pools hc)
      in (hc\<lparr>hc_counters := cs\<rparr>, hp))"

subsection \<open>The flag as a function of the recent probes\<close>

definition probeAll :: "HealthCheckOptions \<Rightarrow> bool list \<Rightarrow> bool \<times> healthCounter \<Rightarrow> bool \<times> healthCounter" where
  "probeAll cfg ps s = foldl (\<lambda>s p. countProbe cfg p s) s ps"

text \<open>The number of probes at the end that had the outcome \<open>b\<close>.\<close>

definition streak :: "bool \<Rightarrow> bool list \<Rightarrow> nat" where
  "streak b ps = length (takeWhile ((=) b) (rev ps))"

text \<open>The last \<open>n\<close> probes all had the outcome \<open>b\<close>.\<close>

definition lastAll :: "nat \<Rightarrow> bool \<Rightarrow> bool list \<Rightarrow> bool" where
  "lastAll n b ps \<longleftrightarrow> n \<le> streak b ps"

text \<open>
  The reference behaviour: the flag falls when the last probes, as many as the unhealthy threshold,
  all failed, rises when as many as the healthy threshold all passed, and otherwise keeps its value.
\<close>

fun windowFlag :: "HealthCheckOptions \<Rightarrow> bool \<Rightarrow> bool list \<Rightarrow> bool" where
  "windowFlag cfg start [] = start"
| "windowFlag cfg start (p # older) =
     (if lastAll (unat (unhealthyThreshold cfg)) False (rev (p # older)) then False
      else if lastAll (unat (healthyThreshold cfg)) True (rev (p # older)) then True
      else windowFlag cfg start older)"

lemma streak_simps [simp]:
  "streak b [] = 0" "streak b (ps @ [p]) = (if p = b then streak b ps + 1 else 0)"
  by (auto simp: streak_def)

lemma streak_le: "streak b ps \<le> length ps"
  unfolding streak_def using length_takeWhile_le [of "(=) b" "rev ps"] by simp

lemma threshold_pos: "0 < unat (unhealthyThreshold cfg)" "0 < unat (healthyThreshold cfg)"
  using word_less_nat_alt [of 0 "HealthCheckOptions_UnhealthyThreshold cfg"]
    word_less_nat_alt [of 0 "HealthCheckOptions_HealthyThreshold cfg"]
  by (simp_all add: unhealthyThreshold_def healthyThreshold_def)

lemma word_count_Suc:
  assumes "c = of_nat n" and "Suc n < 2 ^ 32"
  shows "t \<le> (c + 1 :: uint32) \<longleftrightarrow> unat t \<le> Suc n"
proof -
  have "unat (c + 1) = Suc n" using assms by (simp add: unat_of_nat flip: of_nat_Suc add.commute [of 1])
  then show ?thesis by (simp add: word_le_nat_alt)
qed

lemma windowFlag_snoc:
  "windowFlag cfg start (rev (ps @ [p])) =
     (if unat (unhealthyThreshold cfg) \<le> streak False (ps @ [p]) then False
      else if unat (healthyThreshold cfg) \<le> streak True (ps @ [p]) then True
      else windowFlag cfg start (rev ps))"
  by (simp add: lastAll_def)

definition counts :: "bool list \<Rightarrow> healthCounter \<Rightarrow> bool" where
  "counts ps c \<longleftrightarrow> hc_successes c = of_nat (streak True ps) \<and> hc_failures c = of_nat (streak False ps)"

lemma countProbe_step:
  assumes "counts ps c" and "Suc (length ps) < 2 ^ 32"
  shows "\<exists>c'. countProbe cfg p (windowFlag cfg start (rev ps), c) = (windowFlag cfg start (rev (ps @ [p])), c') \<and>
    counts (ps @ [p]) c'"
proof -
  have *: "t \<le> (1 + of_nat (streak b ps) :: uint32) \<longleftrightarrow> unat t \<le> Suc (streak b ps)" for t b
    using word_count_Suc [OF refl, of "streak b ps" t] streak_le [of b ps] assms(2) by (simp add: add.commute)
  show ?thesis unfolding windowFlag_snoc
    using assms(1) threshold_pos [of cfg]
    by (cases p) (auto simp: countProbe_def counts_def * add.commute [of _ 1] simp del: windowFlag.simps)
qed

subsection \<open>Passes over one endpoint\<close>

text \<open>One pass: the probe and the two clock readings.\<close>

type_synonym pass = "(string \<Rightarrow> duration \<Rightarrow> int option) \<times> time \<times> time"

definition passOne ::
  "(string \<Rightarrow> duration option) \<Rightarrow> Destination \<Rightarrow> HealthCheckOptions \<Rightarrow> addr \<Rightarrow> counters \<times> heap \<Rightarrow> pass \<Rightarrow> counters \<times> heap" where
  "passOne pd d cfg a st ps = checkOne pd (fst ps) (\<lambda>_. snd ps) d cfg st a"

fun spaced :: "duration \<Rightarrow> time \<Rightarrow> pass list \<Rightarrow> bool" where
  "spaced interval t [] = True"
| "spaced interval t ((get, t1, t2) # ps) = (interval \<le> timeSub t1 t \<and> spaced interval t2 ps)"

definition outcome ::
  "(string \<Rightarrow> duration option) \<Rightarrow> heap \<Rightarrow> Destination \<Rightarrow> HealthCheckOptions \<Rightarrow> addr \<Rightarrow> pass \<Rightarrow> bool" where
  "outcome pd hp d cfg a ps =
     checkEndpoint (fst ps) hp a d (HealthCheckOptions_Path cfg)
       (durationOr pd (HealthCheckOptions_Timeout cfg) (5 * second))"

text \<open>Two heaps that agree on the address of the endpoint.\<close>

definition sameAddress :: "heap \<Rightarrow> heap \<Rightarrow> addr \<Rightarrow> bool" where
  "sameAddress hp hp' a \<longleftrightarrow>
     (case (hp a, hp' a) of
        (Some e, Some e') \<Rightarrow> ep_Host e = ep_Host e' \<and> ep_Port e = ep_Port e' \<and> ep_ID e = ep_ID e'
      | _ \<Rightarrow> False)"

lemma sameAddress_eqs:
  assumes "sameAddress hp hp' a"
  shows "epID hp' a = epID hp a" "outcome pd hp' d cfg a ps = outcome pd hp d cfg a ps" "hp' a \<noteq> None"
  using assms
  by (auto simp: sameAddress_def epID_def outcome_def checkEndpoint_def checkURL_def split: option.splits)

lemma sameAddress_set:
  "sameAddress hp hp' a \<Longrightarrow> sameAddress hp (setHealthy b ok (setLastHealthCheck b t hp')) a"
  "sameAddress hp hp' a \<Longrightarrow> sameAddress hp (setLastHealthCheck b t hp') a"
  by (auto simp: sameAddress_def setHealthy_def setLastHealthCheck_def split: option.splits)

lemma lastHealthCheck_set:
  "hp a \<noteq> None \<Longrightarrow> lastHealthCheck (setHealthy a ok (setLastHealthCheck a t hp)) a = t"
  by (auto simp: lastHealthCheck_def setHealthy_def setLastHealthCheck_def)

lemma isHealthy_setLast [simp]: "isHealthy (setLastHealthCheck a t hp) b = isHealthy hp b"
  by (simp add: isHealthy_def setLastHealthCheck_def split: option.splits)

lemma setLast_dom [simp]: "setLastHealthCheck a t hp b = None \<longleftrightarrow> hp b = None"
  by (simp add: setLastHealthCheck_def)

definition checked ::
  "heap \<Rightarrow> Destination \<Rightarrow> HealthCheckOptions \<Rightarrow> addr \<Rightarrow> time \<Rightarrow> bool \<Rightarrow> bool list \<Rightarrow> counters \<times> heap \<Rightarrow> bool" where
  "checked hp0 d cfg a t start ps st \<longleftrightarrow>
     sameAddress hp0 (snd st) a \<and> lastHealthCheck (snd st) a = t \<and>
     isHealthy (snd st) a = windowFlag cfg start (rev ps) \<and>
     counts ps (case fst st (endpointKey (Destination_ID d) (epID hp0 a)) of None \<Rightarrow> zeroCounter | Some c \<Rightarrow> c)"

lemma checked_step:
  assumes st: "checked hp0 d cfg a t start ps st" and len: "Suc (length ps) < 2 ^ 32"
    and due: "durationOr pd (HealthCheckOptions_Interval cfg) (10 * second) \<le> timeSub t1 t"
  shows "checked hp0 d cfg a t2 start (ps @ [outcome pd hp0 d cfg a (get, t1, t2)]) (passOne pd d cfg a st (get, t1, t2))"
proof -
  obtain cs hp where s: "st = (cs, hp)" by (cases st)
  let ?hp = "setLastHealthCheck a t2 hp" and ?key = "endpointKey (Destination_ID d) (epID hp0 a)"
  let ?p = "outcome pd hp0 d cfg a (get, t1, t2)"
  let ?c = "case cs ?key of None \<Rightarrow> zeroCounter | Some c \<Rightarrow> c"
  have same: "sameAddress hp0 hp a" and last: "lastHealthCheck hp a = t"
    and flag: "isHealthy hp a = windowFlag cfg start (rev ps)" and cnt: "counts ps ?c"
    using st by (simp_all add: checked_def s)
  note eqs = sameAddress_eqs [OF sameAddress_set(2) [OF same, of a t2]]
  obtain c' where c': "countProbe cfg ?p (windowFlag cfg start (rev ps), ?c) =
      (windowFlag cfg start (rev (ps @ [?p])), c')" "counts (ps @ [?p]) c'"
    using countProbe_step [OF cnt len] by blast
  have probe: "checkEndpoint get ?hp a d (HealthCheckOptions_Path cfg)
      (durationOr pd (HealthCheckOptions_Timeout cfg) (5 * second)) = ?p"
    using eqs(2) [of pd d cfg "(get, t1, t2)"] by (simp add: outcome_def)
  have "passOne pd d cfg a st (get, t1, t2) =
      (cs(?key \<mapsto> c'), setHealthy a (windowFlag cfg start (rev (ps @ [?p]))) ?hp)"
    using due last flag c'(1)
    by (simp add: passOne_def checkOne_def s eqs(1) probe Let_def del: windowFlag.simps)
  moreover have "hp a \<noteq> None" using sameAddress_eqs(3) [OF same] .
  ultimately show ?thesis
    using c'(2) sameAddress_set(1) [OF same] lastHealthCheck_set
    by (simp add: checked_def isHealthy_setHealthy del: windowFlag.simps rev_append)
qed

lemma checked_run:
  assumes "checked hp0 d cfg a t start ps st"
    and "spaced (durationOr pd (HealthCheckOptions_Interval cfg) (10 * second)) t rs"
    and "length ps + length rs < 2 ^ 32"
  shows "\<exists>t'. checked hp0 d cfg a t' start (ps @ map (outcome pd hp0 d cfg a) rs) (foldl (passOne pd d cfg a) st rs)"
  using assms
proof (induction rs arbitrary: t ps st)
  case Nil
  then show ?case by auto
next
  case (Cons r rs)
  obtain get t1 t2 where r: "r = (get, t1, t2)" by (cases r) auto
  have "checked hp0 d cfg a t2 start (ps @ [outcome pd hp0 d cfg a r]) (passOne pd d cfg a st r)"
    unfolding r using Cons.prems by (intro checked_step [OF Cons.prems(1)]) (simp_all add: r)
  from Cons.IH [OF this] Cons.prems show ?case by (simp add: r)
qed

lemma checked_flag:
  assumes "hp a \<noteq> None" and "cs (endpointKey (Destination_ID d) (epID hp a)) = None"
    and "spaced (durationOr pd (HealthCheckOptions_Interval cfg) (10 * second)) (lastHealthCheck hp a) rs"
    and "length rs < 2 ^ 32"
  shows "isHealthy (snd (foldl (passOne pd d cfg a) (cs, hp) rs)) a =
    windowFlag cfg (isHealthy hp a) (rev (map (outcome pd hp d cfg a) rs))"
proof -
  have "checked hp d cfg a (lastHealthCheck hp a) (isHealthy hp a) [] (cs, hp)"
    using assms(1,2) by (auto simp: checked_def sameAddress_def counts_def zeroCounter_def)
  from checked_run [OF this assms(3)] assms(4) obtain t' where
    "checked hp d cfg a t' (isHealthy hp a) (map (outcome pd hp d cfg a) rs) (foldl (passOne pd d cfg a) (cs, hp) rs)"
    by auto
  then show ?thesis unfolding checked_def by blast
qed

subsection \<open>Properties\<close>

definition sampleHealthCheck :: HealthCheckOptions where
  "sampleHealthCheck =
     \<lparr>HealthCheckOptions_Path = ''/up'', HealthCheckOptions_Interval = '''', HealthCheckOptions_Timeout = '''',
      HealthCheckOptions_UnhealthyThreshold = 2, HealthCheckOptions_HealthyThreshold = 0\<rparr>"



text \<open>A tracker that holds an ejection does not touch the endpoint again.\<close>

lemma RecordResponse_ejected:
  assumes "ts (endpointKey destID ep) = Some t" and "ot_ejected t"
  shows "\<exists>t'. RecordResponse now destID ep s (ts, hp) = (ts(endpointKey destID ep \<mapsto> t'), hp) \<and> ot_ejected t'"
  using assms by (intro exI [of _ "countResponse s t"]) (simp add: RecordResponse_def)

lemma recordAll_ejected:
  assumes "ts (endpointKey destID ep) = Some t" and "ot_ejected t"
  shows "\<exists>ts' t'. recordAll destID ep rs (ts, hp) = (ts', hp) \<and> ts' (endpointKey destID ep) = Some t' \<and> ot_ejected t'"
  using assms
proof (induction rs arbitrary: ts t)
  case Nil
  then show ?case by (simp add: recordAll_def)
next
  case (Cons r rs)
  obtain now s where r: "r = (now, s)" by (cases r)
  obtain t' where t': "RecordResponse now destID ep s (ts, hp) = (ts(endpointKey destID ep \<mapsto> t'), hp)" "ot_ejected t'"
    using RecordResponse_ejected [of ts destID ep t now s hp] Cons.prems by blast
  have "recordAll destID ep (r # rs) (ts, hp) = recordAll destID ep rs (ts(endpointKey destID ep \<mapsto> t'), hp)"
    by (simp add: recordAll_def r t'(1))
  then show ?case using Cons.IH [of "ts(endpointKey destID ep \<mapsto> t')" t'] t'(2) by (metis fun_upd_same)
qed

text \<open>Health checking and outlier detection write the same flag, and the first overrides the second:
  if the last probes of an ejected endpoint, as many as the healthy threshold, all passed, the
  endpoint is healthy again although its ejection still runs, and no number of further error
  responses ejects it, since its tracker still counts as ejected.\<close>

theorem health_check_overrides_ejection:
  assumes "ts (endpointKey (Destination_ID d) (epID hp a)) = Some t" and "ot_ejected t"
    and "hp a \<noteq> None" and "cs (endpointKey (Destination_ID d) (epID hp a)) = None" and "length ps < 2 ^ 32"
    and "spaced (durationOr pd (HealthCheckOptions_Interval cfg) (10 * second)) (lastHealthCheck hp a) ps"
    and "ps \<noteq> []" and "lastAll (unat (healthyThreshold cfg)) True (map (outcome pd hp d cfg a) ps)"
    and "hp' = snd (foldl (passOne pd d cfg a) (cs, hp) ps)"
  shows "\<exists>ts' t'. recordAll (Destination_ID d) (epID hp a) rs (ts, hp') = (ts', hp') \<and> isHealthy hp' a \<and>
    ts' (endpointKey (Destination_ID d) (epID hp a)) = Some t' \<and> ot_ejected t'"
proof -
  let ?os = "map (outcome pd hp d cfg a) ps"
  obtain o' older where os: "rev ?os = o' # older" using assms(7) by (cases "rev ?os") auto
  then have eq: "?os = rev older @ [o']" by (metis rev_rev_ident rev.simps(2))
  have "0 < streak True ?os" using assms(8) threshold_pos(2) [of cfg] by (simp add: lastAll_def)
  then have "o'" by (simp add: eq split: if_splits)
  then have "streak False ?os = 0" by (simp add: eq)
  then have "\<not> lastAll (unat (unhealthyThreshold cfg)) False ?os"
    using threshold_pos(1) [of cfg] by (simp add: lastAll_def)
  then have "windowFlag cfg (isHealthy hp a) (rev ?os)"
    using assms(8) unfolding os windowFlag.simps by (simp add: eq)
  moreover have "isHealthy hp' a = windowFlag cfg (isHealthy hp a) (rev ?os)"
    unfolding assms(9) using assms(3-6) by (intro checked_flag)
  ultimately show ?thesis
    using recordAll_ejected [of ts "Destination_ID d" "epID hp a" t rs hp'] assms(1,2) by blast
qed

theorem health_check_overrides_ejection_witness:
  "\<exists>ts' t'. recordAll ''d1'' ''b:80'' [(50, 500), (51, 500), (52, 500), (53, 500)]
      ([''d1/b:80'' \<mapsto> (newTracker 0 sampleOutlier 1)\<lparr>ot_ejected := True, ot_ejectionCount := 1\<rparr>],
       snd (foldl (passOne (\<lambda>s. None) sampleDestination sampleHealthCheck 1) (Map.empty, sampleHeap False)
         [(\<lambda>u t. Some 200, 10 * second, 10 * second), (\<lambda>u t. Some 204, 20 * second, 20 * second)])) =
      (ts', snd (foldl (passOne (\<lambda>s. None) sampleDestination sampleHealthCheck 1) (Map.empty, sampleHeap False)
         [(\<lambda>u t. Some 200, 10 * second, 10 * second), (\<lambda>u t. Some 204, 20 * second, 20 * second)])) \<and>
    ts' ''d1/b:80'' = Some t' \<and> ot_ejected t'"
proof -
  let ?ps = "[(\<lambda>u t. Some 200, 10 * second, 10 * second), (\<lambda>u t. Some 204, 20 * second, 20 * second)] :: pass list"
  let ?ts = "[''d1/b:80'' \<mapsto> (newTracker 0 sampleOutlier 1)\<lparr>ot_ejected := True, ot_ejectionCount := 1\<rparr>] :: trackers"
  let ?t = "(newTracker 0 sampleOutlier 1)\<lparr>ot_ejected := True, ot_ejectionCount := 1\<rparr>"
  let ?hp = "snd (foldl (passOne (\<lambda>s. None) sampleDestination sampleHealthCheck 1) (Map.empty, sampleHeap False) ?ps)"
  have id: "Destination_ID sampleDestination = ''d1''" "epID (sampleHeap False) 1 = ''b:80''"
    by (simp_all add: sampleDestination_def epID_def sampleHeap_def sampleEndpoint_def)
  have key: "endpointKey ''d1'' ''b:80'' = ''d1/b:80''" by (simp add: endpointKey_def)
  have "spaced (durationOr (\<lambda>s. None) (HealthCheckOptions_Interval sampleHealthCheck) (10 * second))
      (lastHealthCheck (sampleHeap False) 1) ?ps"
    by (simp add: sampleHeap_def sampleEndpoint_def durationOr_def sampleHealthCheck_def lastHealthCheck_def
        timeSub_def second_def)
  moreover have "lastAll (unat (healthyThreshold sampleHealthCheck)) True
      (map (outcome (\<lambda>s. None) (sampleHeap False) sampleDestination sampleHealthCheck 1) ?ps)"
    by (simp add: outcome_def checkEndpoint_def lastAll_def streak_def healthyThreshold_def
        sampleHealthCheck_def)
  moreover have "sampleHeap False 1 \<noteq> None" by (simp add: sampleHeap_def)
  ultimately have "\<exists>ts' t'. recordAll (Destination_ID sampleDestination) (epID (sampleHeap False) 1)
        [(50, 500), (51, 500), (52, 500), (53, 500)] (?ts, ?hp) = (ts', ?hp) \<and> isHealthy ?hp 1 \<and>
      ts' (endpointKey (Destination_ID sampleDestination) (epID (sampleHeap False) 1)) = Some t' \<and> ot_ejected t'"
    by (intro health_check_overrides_ejection [where t = ?t and cs = Map.empty and ps = ?ps and pd = "\<lambda>s. None"
          and cfg = sampleHealthCheck]) (simp_all add: id key del: One_nat_def)
  then show ?thesis unfolding id key by blast
qed

end
