(* ===== verification/Destination_Select.thy ===== *)
theory Destination_Select
  imports Pool
begin

text \<open>
  Level one of forwarding: choosing the destination pool of a request. This is
  \<^verbatim>\<open>SelectDestination\<close> of \<^verbatim>\<open>server/internal/proxy/endpoint.go\<close> and the functions from
  \<^verbatim>\<open>pickDestinationPool\<close> to \<^verbatim>\<open>filterHealthyPools\<close> of \<^verbatim>\<open>handler.go\<close>. Weights are 32-bit words
  whose sum wraps; the remainder by a zero sum is a panic value. \<open>u\<close> is the value that
  \<^verbatim>\<open>rand.Uint32\<close> returns in the call.
\<close>

subsection \<open>Weighted random selection\<close>

definition totalWeight :: "DestinationRef list \<Rightarrow> uint32" where
  "totalWeight dests = foldl (\<lambda>t b. t + DestinationRef_Weight b) 0 dests"

definition allZero :: "DestinationRef list \<Rightarrow> bool" where
  "allZero dests \<longleftrightarrow> list_all (\<lambda>b. DestinationRef_Weight b = 0) dests"

text \<open>The index at which the cumulative weight first exceeds \<open>r\<close>.\<close>

fun selectIndex :: "uint32 \<Rightarrow> uint32 \<Rightarrow> nat \<Rightarrow> DestinationRef list \<Rightarrow> nat option" where
  "selectIndex r cumulative i [] = None"
| "selectIndex r cumulative i (b # bs) =
     (let cumulative = cumulative + DestinationRef_Weight b in
      if r < cumulative then Some i else selectIndex r cumulative (i + 1) bs)"

definition selectedIndex :: "(nat \<Rightarrow> nat) \<Rightarrow> uint32 \<Rightarrow> DestinationRef list \<Rightarrow> nat go" where
  "selectedIndex intn u dests =
     (if length dests = 1 then Inr 0
      else if allZero dests then Inr (intn (length dests))
      else if totalWeight dests = 0 then Inl DivideByZero
      else case selectIndex (u mod totalWeight dests) 0 0 dests of
             Some i \<Rightarrow> Inr i
           | None \<Rightarrow> Inr (length dests - 1))"

definition SelectDestination ::
  "(nat \<Rightarrow> nat) \<Rightarrow> uint32 \<Rightarrow> DestinationRef list \<Rightarrow> (string \<rightharpoonup> DestinationPool) \<Rightarrow> DestinationPool option go" where
  "SelectDestination intn u dests pools =
     (if length dests = 0 then Inr None
      else case selectedIndex intn u dests of
             Inl p \<Rightarrow> Inl p
           | Inr i \<Rightarrow> Inr (pools (DestinationRef_DestinationID (dests ! i))))"

subsection \<open>Pinned and sticky selection\<close>

definition filterHealthyPools ::
  "heap \<Rightarrow> DestinationRef list \<Rightarrow> (string \<rightharpoonup> DestinationPool) \<Rightarrow> DestinationRef list" where
  "filterHealthyPools hp dests pools =
     filter (\<lambda>b. case pools (DestinationRef_DestinationID b) of
                   None \<Rightarrow> False
                 | Some pool \<Rightarrow> list_ex (isHealthy hp) (pool_Endpoints pool)) dests"

definition validSet :: "DestinationRef list \<Rightarrow> (string \<rightharpoonup> bool)" where
  "validSet healthy = foldl (\<lambda>m b. m(DestinationRef_DestinationID b \<mapsto> True)) Map.empty healthy"

definition pinCookieConfig :: "DestinationPinCookie option \<Rightarrow> string \<times> string" where
  "pinCookieConfig c =
     (case c of
        None \<Rightarrow> (''_vrata_destination_pin'', '''')
      | Some ck \<Rightarrow> (if DestinationPinCookie_Name ck \<noteq> '''' then DestinationPinCookie_Name ck
                    else ''_vrata_destination_pin'', DestinationPinCookie_TTL ck))"

text \<open>The session of the request: its identifier, whether it is new, and the cookie to set.\<close>

definition pinSession ::
  "'s env \<Rightarrow> Request \<Rightarrow> string \<times> string \<Rightarrow> string \<times> bool \<times> Cookie list" where
  "pinSession env r ck =
     (let (cookieName, ttlStr) = ck;
          v = (case reqCookie r cookieName of None \<Rightarrow> '''' | Some v \<Rightarrow> v)
      in if v = '''' then
           (env_sid env, True,
            [pinCookie cookieName (env_sid env) (parseTTL (env_parseDuration env) ttlStr hour)])
         else (v, False, []))"

definition pinHash :: "string \<Rightarrow> string \<Rightarrow> uint32" where
  "pinHash sid routeID = checksumIEEE (sid @ '':'' @ routeID)"

definition pickPinnedPool ::
  "'s env \<Rightarrow> uint32 \<Rightarrow> DestinationBalancing \<Rightarrow> (string \<rightharpoonup> DestinationPool) \<Rightarrow> Request \<Rightarrow> string \<Rightarrow>
   destinationRing \<Rightarrow> DestinationRef list \<Rightarrow> (DestinationPool option \<times> Cookie list) go" where
  "pickPinnedPool env u db pools r routeID ring healthy =
     (let ck = pinCookieConfig (case DestinationBalancing_WeightedConsistentHash db of
                                  None \<Rightarrow> None | Some wch \<Rightarrow> WeightedConsistentHashOptions_Cookie wch);
          (sid, isNew, cookies) = pinSession env r ck;
          destID = ring_PickValid ring (pinHash sid routeID) (validSet healthy)
      in if destID = '''' then
           (case SelectDestination (env_intn env) u healthy pools of
              Inl p \<Rightarrow> Inl p | Inr pool \<Rightarrow> Inr (pool, cookies))
         else Inr (pools destID, cookies))"

definition pickStickyPool ::
  "'s env \<Rightarrow> uint32 \<Rightarrow> DestinationBalancing \<Rightarrow> (string \<rightharpoonup> DestinationPool) \<Rightarrow> Request \<Rightarrow> string \<Rightarrow>
   DestinationRef list \<Rightarrow> 's \<Rightarrow> (DestinationPool option \<times> Cookie list \<times> 's) go" where
  "pickStickyPool env u db pools r routeID healthy st =
     (let ck = pinCookieConfig (case DestinationBalancing_Sticky db of
                                  None \<Rightarrow> None | Some s \<Rightarrow> StickyOptions_Cookie s);
          (sid, isNew, cookies) = pinSession env r ck;
          pinned = (if isNew then None
                    else case env_get env st sid routeID of
                           None \<Rightarrow> None
                         | Some d \<Rightarrow> if d \<noteq> '''' \<and> mapBool (validSet healthy) d then Some d else None)
      in case pinned of
           Some d \<Rightarrow> Inr (pools d, cookies, st)
         | None \<Rightarrow>
             (case SelectDestination (env_intn env) u healthy pools of
                Inl p \<Rightarrow> Inl p
              | Inr None \<Rightarrow> Inr (None, cookies, st)
              | Inr (Some pool) \<Rightarrow>
                  Inr (Some pool, cookies,
                       case env_set env st sid routeID (Destination_ID (pool_Destination pool))
                              (seconds (parseTTL (env_parseDuration env) (snd ck) hour)) of
                         None \<Rightarrow> st | Some st' \<Rightarrow> st')))"

definition pickDestinationPool ::
  "'s env \<Rightarrow> uint32 \<Rightarrow> heap \<Rightarrow> ForwardAction \<Rightarrow> (string \<rightharpoonup> DestinationPool) \<Rightarrow> Request \<Rightarrow> string \<Rightarrow>
   destinationRing option \<Rightarrow> bool \<Rightarrow> 's \<Rightarrow> (DestinationPool option \<times> Cookie list \<times> 's) go" where
  "pickDestinationPool env u hp fwd pools r routeID pinRing hasStore st =
     (let dests = ForwardAction_Destinations fwd;
          healthy = filterHealthyPools hp dests pools;
          select = (case SelectDestination (env_intn env) u healthy pools of
                      Inl p \<Rightarrow> Inl p | Inr pool \<Rightarrow> Inr (pool, [], st));
          pinned = (\<lambda>db. case pinRing of
                      None \<Rightarrow> select
                    | Some ring \<Rightarrow>
                        (case pickPinnedPool env u db pools r routeID ring healthy of
                           Inl p \<Rightarrow> Inl p | Inr (pool, cookies) \<Rightarrow> Inr (pool, cookies, st)))
      in if length dests = 0 then Inr (None, [], st)
         else if length dests = 1 then Inr (pools (DestinationRef_DestinationID (dests ! 0)), [], st)
         else if length healthy = 0 then Inr (None, [], st)
         else case ForwardAction_DestinationBalancing fwd of
           None \<Rightarrow> select
         | Some db \<Rightarrow>
             if DestinationBalancing_Algorithm db = DestinationLBWeightedConsistentHash then pinned db
             else if DestinationBalancing_Algorithm db = DestinationLBSticky then
               if hasStore then pickStickyPool env u db pools r routeID healthy st else pinned db
             else select)"

subsection \<open>The distribution of the weighted selection\<close>

definition weight :: "DestinationRef \<Rightarrow> nat" where
  "weight b = unat (DestinationRef_Weight b)"

definition weightSum :: "DestinationRef list \<Rightarrow> nat" where
  "weightSum dests = sum_list (map weight dests)"

lemma totalWeight_foldl:
  "foldl (\<lambda>t b. t + DestinationRef_Weight b) t dests = t + of_nat (weightSum dests)"
  by (induction dests arbitrary: t) (simp_all add: weightSum_def weight_def add.assoc)

lemma totalWeight_eq: "totalWeight dests = of_nat (weightSum dests)"
  by (simp add: totalWeight_def totalWeight_foldl)

lemma allZero_iff: "allZero dests \<longleftrightarrow> weightSum dests = 0"
  by (induction dests) (auto simp: allZero_def weightSum_def weight_def unat_eq_0)

lemma weightSum_simps [simp]:
  "weightSum [] = 0" "weightSum (b # bs) = weight b + weightSum bs"
  by (simp_all add: weightSum_def)

text \<open>Without wrap-around, index \<open>k\<close> is selected exactly by the residues of its own interval.\<close>

lemma selectIndex_interval:
  assumes "unat cum + weightSum dests < 2 ^ 32" and "unat cum \<le> unat r"
  shows "selectIndex r cum i dests = Some k \<longleftrightarrow>
    i \<le> k \<and> k < i + length dests \<and>
    unat cum + weightSum (take (k - i) dests) \<le> unat r \<and>
    unat r < unat cum + weightSum (take (Suc (k - i)) dests)"
  using assms
proof (induction dests arbitrary: cum i)
  case Nil
  then show ?case by simp
next
  case (Cons b bs)
  let ?c = "cum + DestinationRef_Weight b"
  have c: "unat ?c = unat cum + weight b"
    using Cons.prems(1) by (simp add: unat_word_ariths weight_def)
  show ?case
  proof (cases "r < ?c")
    case True
    then have lt: "unat r < unat cum + weight b" by (simp add: c word_less_nat_alt)
    have sel: "selectIndex r cum i (b # bs) = Some i" using True by simp
    show ?thesis
    proof (cases "k \<le> i")
      case True
      with lt Cons.prems(2) sel show ?thesis by auto
    next
      case False
      then obtain j where "k = i + Suc j" by (metis add_Suc_right less_iff_Suc_add not_le)
      with lt sel show ?thesis by simp
    qed
  next
    case False
    then have ge: "unat cum + weight b \<le> unat r" by (simp add: word_le_nat_alt not_less flip: c)
    have IH: "selectIndex r ?c (i + 1) bs = Some k \<longleftrightarrow>
        i + 1 \<le> k \<and> k < i + 1 + length bs \<and>
        unat ?c + weightSum (take (k - (i + 1)) bs) \<le> unat r \<and>
        unat r < unat ?c + weightSum (take (Suc (k - (i + 1))) bs)"
      using Cons.prems(1) ge c by (intro Cons.IH) simp_all
    have sel: "selectIndex r cum i (b # bs) = selectIndex r ?c (i + 1) bs" using False by simp
    show ?thesis
    proof (cases "k \<le> i")
      case True
      with ge IH sel show ?thesis by auto
    next
      case False
      then obtain j where k: "k = i + Suc j" by (metis add_Suc_right less_iff_Suc_add not_le)
      show ?thesis using IH sel c by (simp add: k add.assoc del: selectIndex.simps)
    qed
  qed
qed

lemma selectIndex_None:
  assumes "unat cum + weightSum dests < 2 ^ 32" and "unat cum \<le> unat r" and "selectIndex r cum i dests = None"
  shows "unat cum + weightSum dests \<le> unat r"
  using assms
proof (induction dests arbitrary: cum i)
  case (Cons b bs)
  let ?c = "cum + DestinationRef_Weight b"
  have c: "unat ?c = unat cum + weight b"
    using Cons.prems(1) by (simp add: unat_word_ariths weight_def)
  have "\<not> r < ?c" and none: "selectIndex r ?c (i + 1) bs = None"
    using Cons.prems(3) by (auto simp: Let_def split: if_splits)
  then have "unat ?c \<le> unat r" by (simp add: word_le_nat_alt not_less)
  then have "unat ?c + weightSum bs \<le> unat r" using Cons.prems(1) c none by (intro Cons.IH) simp_all
  then show ?case by (simp add: c)
qed simp

lemma selectIndex_first:
  assumes "weightSum dests < 2 ^ 32"
  shows "selectIndex r 0 0 dests = Some k \<longleftrightarrow>
    k < length dests \<and> weightSum (take k dests) \<le> unat r \<and> unat r < weightSum (take (Suc k) dests)"
  using selectIndex_interval [of 0 dests r 0 k] assms by simp

lemma weightSum_take_Suc: "k < length dests \<Longrightarrow> weightSum (take (Suc k) dests) = weightSum (take k dests) + weight (dests ! k)"
  by (simp add: take_Suc_conv_app_nth weightSum_def)

lemma weightSum_take_le: "weightSum (take k dests) \<le> weightSum dests"
proof -
  have "weightSum dests = weightSum (take k dests @ drop k dests)" by simp
  also have "\<dots> = weightSum (take k dests) + weightSum (drop k dests)"
    unfolding weightSum_def map_append sum_list_append ..
  finally show ?thesis by simp
qed

text \<open>How many of the first \<open>N\<close> numbers leave the remainder \<open>r\<close>.\<close>

lemma card_residue:
  assumes "r < T"
  shows "card {u. u < N \<and> u mod T = (r :: nat)} = mg_share T N r"
proof (induction N)
  case 0
  then show ?case by (simp add: mg_share_def)
next
  case (Suc N)
  have "{u. u < Suc N \<and> u mod T = r} =
      (if N mod T = r then insert N {u. u < N \<and> u mod T = r} else {u. u < N \<and> u mod T = r})"
    by (auto simp: less_Suc_eq)
  then show ?case using Suc assms by (cases "N mod T = r") (simp_all add: mg_share_step)
qed

lemma card_residues:
  assumes "b \<le> (T :: nat)"
  shows "card {u. u < N \<and> a \<le> u mod T \<and> u mod T < b} = (\<Sum>r\<in>{a..<b}. mg_share T N r)"
proof -
  have "{u. u < N \<and> a \<le> u mod T \<and> u mod T < b} = (\<Union>r\<in>{a..<b}. {u. u < N \<and> u mod T = r})" by auto
  moreover have "card (\<Union>r\<in>{a..<b}. {u. u < N \<and> u mod T = r}) =
      (\<Sum>r\<in>{a..<b}. card {u. u < N \<and> u mod T = r})"
    by (rule card_UN_disjoint) auto
  moreover have "(\<Sum>r\<in>{a..<b}. card {u. u < N \<and> u mod T = r}) = (\<Sum>r\<in>{a..<b}. mg_share T N r)"
    using assms by (intro sum.cong) (auto simp: card_residue)
  ultimately show ?thesis by simp
qed

lemma sum_mg_share_bounds:
  "(b - a) * (N div T) \<le> (\<Sum>r\<in>{a..<b}. mg_share T N r) \<and>
   (\<Sum>r\<in>{a..<b}. mg_share T N r) \<le> (b - a) * (N div T + 1)"
proof
  have "(\<Sum>r\<in>{a..<b}. N div T) \<le> (\<Sum>r\<in>{a..<b}. mg_share T N r)"
    by (rule sum_mono) (simp add: mg_share_def)
  then show "(b - a) * (N div T) \<le> (\<Sum>r\<in>{a..<b}. mg_share T N r)" by simp
  have "(\<Sum>r\<in>{a..<b}. mg_share T N r) \<le> (\<Sum>r\<in>{a..<b}. N div T + 1)"
    by (rule sum_mono) (simp add: mg_share_def)
  then show "(\<Sum>r\<in>{a..<b}. mg_share T N r) \<le> (b - a) * (N div T + 1)" by simp
qed

subsection \<open>Health\<close>

lemma filterHealthyPools_iff:
  "b \<in> set (filterHealthyPools hp dests pools) \<longleftrightarrow>
     b \<in> set dests \<and> (\<exists>pool. pools (DestinationRef_DestinationID b) = Some pool \<and> healthyEndpoints hp pool \<noteq> [])"
  by (auto simp: filterHealthyPools_def list_ex_iff healthyEndpoints_def filter_empty_conv split: option.splits)

lemma validSet_foldl:
  "mapBool (foldl (\<lambda>m b. m(DestinationRef_DestinationID b \<mapsto> True)) m0 bs) d \<longleftrightarrow>
     mapBool m0 d \<or> d \<in> DestinationRef_DestinationID ` set bs"
  by (induction bs arbitrary: m0) auto

lemma validSet_iff: "mapBool (validSet healthy) d \<longleftrightarrow> d \<in> DestinationRef_DestinationID ` set healthy"
  by (simp add: validSet_def validSet_foldl)

lemma selectIndex_range: "selectIndex r cum i bs = Some k \<Longrightarrow> i \<le> k \<and> k < i + length bs"
  by (induction bs arbitrary: cum i) (fastforce simp: Let_def split: if_splits)+

lemma selectedIndex_range:
  assumes "\<forall>n>0. intn n < n" and "dests \<noteq> []" and "selectedIndex intn u dests = Inr i"
  shows "i < length dests"
  using assms selectIndex_range [of _ 0 0 dests]
  by (fastforce simp: selectedIndex_def split: if_splits option.splits)

lemma SelectDestination_member:
  assumes "\<forall>n>0. intn n < n" and "dests \<noteq> []" and "SelectDestination intn u dests pools = Inr res"
  shows "\<exists>b\<in>set dests. res = pools (DestinationRef_DestinationID b)"
proof -
  obtain i where "selectedIndex intn u dests = Inr i" "res = pools (DestinationRef_DestinationID (dests ! i))"
    using assms(2,3) by (auto simp: SelectDestination_def split: sum.splits if_splits)
  moreover have "i < length dests" by (rule selectedIndex_range [OF assms(1,2)]) fact
  ultimately show ?thesis by auto
qed

lemma SelectDestination_panic_iff:
  "SelectDestination intn u dests pools = Inl p \<longleftrightarrow>
     p = DivideByZero \<and> 1 < length dests \<and> 0 < weightSum dests \<and> 2 ^ 32 dvd weightSum dests"
proof -
  have z: "(of_nat (weightSum dests) :: uint32) = 0 \<longleftrightarrow> 2 ^ 32 dvd weightSum dests"
    by (simp add: word_of_nat_eq_0_iff)
  have len: "1 < length dests \<longleftrightarrow> length dests \<noteq> 0 \<and> length dests \<noteq> 1" by arith
  show ?thesis unfolding len
    by (auto simp: SelectDestination_def selectedIndex_def totalWeight_eq allZero_iff z
        split: option.splits simp del: selectIndex.simps)
qed

lemma card_unat: "card {u :: uint32. P (unat u)} = card {n. n < 2 ^ 32 \<and> P n}"
proof -
  have "{n. n < 2 ^ 32 \<and> P n} = unat ` {u :: uint32. P (unat u)}"
  proof (intro set_eqI iffI)
    fix n :: nat assume "n \<in> {n. n < 2 ^ 32 \<and> P n}"
    then have "unat (of_nat n :: uint32) = n" "P n" by (simp_all add: unat_of_nat)
    then show "n \<in> unat ` {u :: uint32. P (unat u)}" by (metis (mono_tags) image_eqI mem_Collect_eq)
  next
    fix n assume "n \<in> unat ` {u :: uint32. P (unat u)}"
    then obtain u :: uint32 where "n = unat u" "P (unat u)" by auto
    then show "n \<in> {n. n < 2 ^ 32 \<and> P n}" using unsigned_less [of u, where 'a = nat] by simp
  qed
  moreover have "inj_on unat {u :: uint32. P (unat u)}" by (simp add: inj_on_def word_unat_eq_iff)
  ultimately show ?thesis by (simp add: card_image)
qed

lemma selectedIndex_weighted:
  assumes "1 < length dests" and "0 < weightSum dests" and "weightSum dests < 2 ^ 32" and "k < length dests"
  shows "selectedIndex intn u dests = Inr k \<longleftrightarrow>
    weightSum (take k dests) \<le> unat u mod weightSum dests \<and>
    unat u mod weightSum dests < weightSum (take (Suc k) dests)"
proof -
  have t: "unat (totalWeight dests) = weightSum dests"
    using assms(3) by (simp add: totalWeight_eq unat_of_nat)
  then have nz: "totalWeight dests \<noteq> 0" using assms(2) by auto
  have m: "unat (u mod totalWeight dests) = unat u mod weightSum dests" by (simp add: unat_mod_distrib t)
  have lt: "unat u mod weightSum dests < weightSum dests" using assms(2) by simp
  have "selectIndex (u mod totalWeight dests) 0 0 dests \<noteq> None"
    using selectIndex_None [of 0 dests "u mod totalWeight dests" 0] assms(3) lt m by auto
  then show ?thesis
    using selectIndex_first [OF assms(3), of "u mod totalWeight dests" k] assms nz
    by (auto simp: selectedIndex_def allZero_iff m)
qed

subsection \<open>Pinned selection\<close>

lemma PickValid_member:
  assumes "sorted (map ringNode_hash (ring_entries ring))" and "ring_PickValid ring h valid \<noteq> ''''"
  shows "mapBool valid (ring_PickValid ring h valid)"
proof (cases "find (\<lambda>e. mapBool valid (ringNode_destID e)) (clockwise ringNode_hash h (ring_entries ring))")
  case None
  then show ?thesis using assms by (simp add: ring_PickValid_find)
next
  case (Some e)
  then have "mapBool valid (ringNode_destID e)" by (auto simp: find_Some_iff)
  with Some show ?thesis by (simp add: ring_PickValid_find [OF assms(1)])
qed

text \<open>The lookup keeps its answer when fewer destinations are valid and the answer still is.\<close>

lemma PickValid_stable:
  assumes srt: "sorted (map ringNode_hash (ring_entries ring))"
    and sub: "\<And>d. mapBool valid' d \<Longrightarrow> mapBool valid d"
    and ne: "ring_PickValid ring h valid \<noteq> ''''" and keep: "mapBool valid' (ring_PickValid ring h valid)"
  shows "ring_PickValid ring h valid' = ring_PickValid ring h valid"
proof -
  have *: "find (\<lambda>e. mapBool valid' (ringNode_destID e)) es = Some e"
    if "find (\<lambda>e. mapBool valid (ringNode_destID e)) es = Some e" "mapBool valid' (ringNode_destID e)" for es e
    using that sub by (induction es) (auto split: if_splits)
  obtain e where "find (\<lambda>e. mapBool valid (ringNode_destID e)) (clockwise ringNode_hash h (ring_entries ring)) = Some e"
    using ne by (auto simp: ring_PickValid_find [OF srt] split: option.splits)
  with * [OF this] keep show ?thesis by (simp add: ring_PickValid_find [OF srt])
qed

lemma pickPinnedPool_member:
  assumes "\<forall>n>0. env_intn env n < n" and "healthy \<noteq> []"
    and "sorted (map ringNode_hash (ring_entries ring))"
    and "pickPinnedPool env u db pools r routeID ring healthy = Inr (res, cs)"
  shows "\<exists>b\<in>set healthy. res = pools (DestinationRef_DestinationID b)"
  using assms(4) SelectDestination_member [OF assms(1,2)] PickValid_member [OF assms(3)]
  by (force simp: pickPinnedPool_def Let_def split_def validSet_iff split: sum.splits if_splits)

lemma pickStickyPool_member:
  assumes "\<forall>n>0. env_intn env n < n" and "healthy \<noteq> []"
    and "pickStickyPool env u db pools r routeID healthy st = Inr (Some pool, cs, st')"
  shows "\<exists>b\<in>set healthy. Some pool = pools (DestinationRef_DestinationID b)"
  using assms(3) SelectDestination_member [OF assms(1,2)]
  by (force simp: pickStickyPool_def Let_def split_def validSet_iff split: sum.splits if_splits option.splits)

lemma pickDestinationPool_member:
  assumes intn: "\<forall>n>0. env_intn env n < n" and len: "1 < length (ForwardAction_Destinations fwd)"
    and ring: "\<And>ring. pinRing = Some ring \<Longrightarrow> sorted (map ringNode_hash (ring_entries ring))"
    and res: "pickDestinationPool env u hp fwd pools r routeID pinRing hasStore st = Inr (Some pool, cs, st')"
  shows "\<exists>b\<in>set (filterHealthyPools hp (ForwardAction_Destinations fwd) pools).
    pools (DestinationRef_DestinationID b) = Some pool"
proof -
  let ?healthy = "filterHealthyPools hp (ForwardAction_Destinations fwd) pools"
  let ?goal = "\<exists>b\<in>set ?healthy. Some pool = pools (DestinationRef_DestinationID b)"
  have ne: "?healthy \<noteq> []"
    using res len by (auto simp: pickDestinationPool_def Let_def split: if_splits)
  have sel: ?goal if "SelectDestination (env_intn env) u ?healthy pools = Inr (Some pool)"
    by (rule SelectDestination_member [OF intn ne that])
  have pin: ?goal if "pinRing = Some ring" "pickPinnedPool env u db pools r routeID ring ?healthy = Inr (Some pool, cs)"
    for ring db by (rule pickPinnedPool_member [OF intn ne ring [OF that(1)] that(2)])
  have sticky: ?goal if "pickStickyPool env u db pools r routeID ?healthy st = Inr (Some pool, cs, st')" for db
    by (rule pickStickyPool_member [OF intn ne that])
  have ?goal
    using res len ne sel pin sticky
    by (auto simp: pickDestinationPool_def Let_def split: if_splits option.splits sum.splits prod.splits)
  then show ?thesis by metis
qed

subsection \<open>Properties\<close>

definition sampleForward :: ForwardAction where
  "sampleForward =
     \<lparr>ForwardAction_Destinations = [], ForwardAction_DestinationBalancing = None, ForwardAction_Timeouts = None,
      ForwardAction_Retry = None, ForwardAction_Rewrite = None, ForwardAction_Mirror = None,
      ForwardAction_MaxGRPCTimeout = ''''\<rparr>"

definition sampleBalancing :: DestinationBalancing where
  "sampleBalancing =
     \<lparr>DestinationBalancing_Algorithm = DestinationLBWeightedConsistentHash,
      DestinationBalancing_WeightedConsistentHash = None, DestinationBalancing_Sticky = None\<rparr>"

definition sampleDests :: "DestinationRef list" where
  "sampleDests =
     [\<lparr>DestinationRef_DestinationID = ''a'', DestinationRef_Weight = 0\<rparr>,
      \<lparr>DestinationRef_DestinationID = ''b'', DestinationRef_Weight = 0\<rparr>]"

definition samplePools :: "string \<rightharpoonup> DestinationPool" where
  "samplePools = [''a'' \<mapsto> samplePool None [0], ''b'' \<mapsto> samplePool None [1]]"

text \<open>C7: With two destinations or more whose weights add up to a positive total below two to the
  power of 32, the number of 32-bit random draws that select a destination is its weight times the
  quotient of the range by the total, up to the remainder of the division: the selection
  follows the configured weights, and a destination of weight zero is never selected.\<close>

theorem selection_follows_weights:
  assumes "1 < length dests" and "0 < weightSum dests" and "weightSum dests < 2 ^ 32" and "k < length dests"
  shows "card {u. selectedIndex intn u dests = Inr k} \<in>
    {weight (dests ! k) * (2 ^ 32 div weightSum dests) .. weight (dests ! k) * (2 ^ 32 div weightSum dests + 1)}"
proof -
  let ?a = "weightSum (take k dests)" and ?b = "weightSum (take (Suc k) dests)" and ?T = "weightSum dests"
  have "card {u. selectedIndex intn u dests = Inr k} =
      card {u :: uint32. ?a \<le> unat u mod ?T \<and> unat u mod ?T < ?b}"
    using selectedIndex_weighted [OF assms] by simp
  also have "\<dots> = card {n. n < 2 ^ 32 \<and> ?a \<le> n mod ?T \<and> n mod ?T < ?b}"
    by (rule card_unat [of "\<lambda>n. ?a \<le> n mod ?T \<and> n mod ?T < ?b"])
  also have "\<dots> = (\<Sum>r\<in>{?a..<?b}. mg_share ?T (2 ^ 32) r)"
    by (rule card_residues [OF weightSum_take_le])
  finally have c: "card {u. selectedIndex intn u dests = Inr k} = (\<Sum>r\<in>{?a..<?b}. mg_share ?T (2 ^ 32) r)" .
  have "?b - ?a = weight (dests ! k)" using weightSum_take_Suc [OF assms(4)] by simp
  with c sum_mg_share_bounds [of ?b ?a "2 ^ 32" ?T] show ?thesis by simp
qed

theorem selection_follows_weights_witness:
  "card {u. selectedIndex (\<lambda>n. 0) u
      [\<lparr>DestinationRef_DestinationID = ''a'', DestinationRef_Weight = 25\<rparr>,
       \<lparr>DestinationRef_DestinationID = ''b'', DestinationRef_Weight = 75\<rparr>] = Inr 1} \<in> {3221225400..3221225475}"
  using selection_follows_weights [of
      "[\<lparr>DestinationRef_DestinationID = ''a'', DestinationRef_Weight = 25\<rparr>,
        \<lparr>DestinationRef_DestinationID = ''b'', DestinationRef_Weight = 75\<rparr>]" 1 "\<lambda>n. 0"]
  by (simp add: weight_def)

text \<open>C26: Selecting a destination panics exactly when there are two or more of them and their weights
  add up to a positive multiple of two to the power of 32, so that the 32-bit total is zero. It
  fails in no other way.\<close>

theorem selection_panics_iff:
  "(\<exists>p. SelectDestination intn u dests pools = Inl p) \<longleftrightarrow>
     1 < length dests \<and> 0 < weightSum dests \<and> 2 ^ 32 dvd weightSum dests"
  by (simp add: SelectDestination_panic_iff)

text \<open>C27: When a route has two destinations or more, whatever algorithm is configured and whatever the
  session store, the cookies and the random draws are, the pool that is chosen is the pool of one of
  the route's destinations and has a healthy endpoint.\<close>

theorem chosen_pool_is_healthy:
  assumes "\<forall>n>0. env_intn env n < n" and "1 < length (ForwardAction_Destinations fwd)"
    and "ring_sort srt"
    and "pinRing = None \<or> pinRing = Some (buildDestinationRing srt (ForwardAction_Destinations fwd))"
    and "pickDestinationPool env u hp fwd pools r routeID pinRing hasStore st = Inr (Some pool, cs, st')"
  shows "\<exists>b\<in>set (ForwardAction_Destinations fwd).
    pools (DestinationRef_DestinationID b) = Some pool \<and> healthyEndpoints hp pool \<noteq> []"
proof -
  have "sorted (map ringNode_hash (ring_entries ring))" if "pinRing = Some ring" for ring
    using that assms(4) ring_sort.build_sorted [OF assms(3)] by auto
  from pickDestinationPool_member [OF assms(1,2) this assms(5)] obtain b where
    b: "b \<in> set (filterHealthyPools hp (ForwardAction_Destinations fwd) pools)"
      "pools (DestinationRef_DestinationID b) = Some pool" by auto
  then show ?thesis by (auto simp: filterHealthyPools_iff)
qed

theorem chosen_pool_is_healthy_witness:
  "\<exists>b\<in>set [\<lparr>DestinationRef_DestinationID = ''d'', DestinationRef_Weight = 1\<rparr>,
        \<lparr>DestinationRef_DestinationID = ''e'', DestinationRef_Weight = 9\<rparr>].
     [''d'' \<mapsto> samplePool None [0], ''e'' \<mapsto> samplePool None [1]] (DestinationRef_DestinationID b) = Some (samplePool None [0]) \<and>
     healthyEndpoints (sampleHeap False) (samplePool None [0]) \<noteq> []"
proof -
  let ?fwd = "sampleForward\<lparr>ForwardAction_Destinations :=
      [\<lparr>DestinationRef_DestinationID = ''d'', DestinationRef_Weight = 1\<rparr>,
       \<lparr>DestinationRef_DestinationID = ''e'', DestinationRef_Weight = 9\<rparr>]\<rparr>"
  have "\<exists>b\<in>set (ForwardAction_Destinations ?fwd).
     [''d'' \<mapsto> samplePool None [0], ''e'' \<mapsto> samplePool None [1]] (DestinationRef_DestinationID b) = Some (samplePool None [0]) \<and>
     healthyEndpoints (sampleHeap False) (samplePool None [0]) \<noteq> []"
    by (rule chosen_pool_is_healthy [of sampleEnv, where srt = sort_key and pinRing = None and st = "Some Map.empty"
          and hasStore = True and u = 0 and r = sampleRequest and cs = "[]" and st' = "Some Map.empty" and routeID = "''r''"])
      (simp_all add: sampleEnv_def stable_ring.ring_sort_axioms sampleForward_def pickDestinationPool_def
        filterHealthyPools_def isHealthy_def sampleHeap_def sampleEndpoint_def SelectDestination_def selectedIndex_def)
  then show ?thesis by simp
qed

text \<open>With weighted consistent hashing, a client that presents its session cookie keeps its
  destination when other destinations of the route become unhealthy: if no destination has become
  healthy meanwhile and the client's own destination still is, the same pool is chosen again,
  without a new cookie.\<close>

theorem pinned_client_stays:
  assumes "ring_sort srt" and "ring = buildDestinationRing srt dests"
    and "\<forall>b\<in>set dests. DestinationRef_DestinationID b \<noteq> ''''"
    and "ring_PickValid ring (pinHash sid routeID) (validSet (filterHealthyPools hp dests pools)) = d" and "d \<noteq> ''''"
    and "d \<in> DestinationRef_DestinationID ` set (filterHealthyPools hp' dests pools)"
    and "set (filterHealthyPools hp' dests pools) \<subseteq> set (filterHealthyPools hp dests pools)"
    and "sid \<noteq> ''''"
    and "reqCookie r (fst (pinCookieConfig (case DestinationBalancing_WeightedConsistentHash db of
           None \<Rightarrow> None | Some wch \<Rightarrow> WeightedConsistentHashOptions_Cookie wch))) = Some sid"
  shows "pickPinnedPool env u db pools r routeID ring (filterHealthyPools hp dests pools) = Inr (pools d, []) \<and>
    pickPinnedPool env u db pools r routeID ring (filterHealthyPools hp' dests pools) = Inr (pools d, [])"
proof -
  have srt: "sorted (map ringNode_hash (ring_entries ring))"
    unfolding assms(2) by (rule ring_sort.build_sorted [OF assms(1)])
  have "ring_PickValid ring (pinHash sid routeID) (validSet (filterHealthyPools hp' dests pools)) = d"
    using PickValid_stable [OF srt, of "validSet (filterHealthyPools hp' dests pools)"
        "validSet (filterHealthyPools hp dests pools)" "pinHash sid routeID"] assms(4-7)
    by (auto simp: validSet_iff)
  with assms(4,5,8,9) show ?thesis by (simp add: pickPinnedPool_def pinSession_def Let_def split_def)
qed

text \<open>Two destinations with one ring entry each; session s of route r belongs to the first one.\<close>

theorem pinned_client_stays_witness:
  "pickPinnedPool sampleEnv 0 sampleBalancing samplePools
     (sampleRequest\<lparr>Req_Cookies := [(''_vrata_destination_pin'', ''s'')]\<rparr>) ''r''
     (buildDestinationRing sort_key sampleDests) (filterHealthyPools (sampleHeap False) sampleDests samplePools) =
   Inr (samplePools ''a'', [])"
proof -
  let ?ring = "buildDestinationRing sort_key sampleDests"
  have entries: "ring_entries ?ring =
      [\<lparr>ringNode_hash = 0xb52496d0, ringNode_destID = ''a''\<rparr>, \<lparr>ringNode_hash = 0xb7622889, ringNode_destID = ''b''\<rparr>]"
    by (simp add: buildDestinationRing_def sampleDests_def vnodes_def vnode_def itoa_decimal decimal_def
        digits_rev.simps go_simps)
  have hash: "pinHash ''s'' ''r'' = 0x3254c172" by (simp add: pinHash_def go_simps)
  have h: "filterHealthyPools (sampleHeap True) sampleDests samplePools = sampleDests"
    "filterHealthyPools (sampleHeap False) sampleDests samplePools = take 1 sampleDests"
    by (simp_all add: filterHealthyPools_def isHealthy_def sampleHeap_def sampleEndpoint_def sampleDests_def
        samplePools_def)
  have ids: "DestinationRef_DestinationID ` set sampleDests = {''a'', ''b''}"
    "DestinationRef_DestinationID ` set (take 1 sampleDests) = {''a''}" "set (take 1 sampleDests) \<subseteq> set sampleDests"
    "\<forall>b\<in>set sampleDests. DestinationRef_DestinationID b \<noteq> ''''"
    by (simp_all add: sampleDests_def)
  have "ring_PickValid ?ring (pinHash ''s'' ''r'') (validSet sampleDests) = ''a''"
    by (simp add: ring_PickValid_find [OF stable_ring.build_sorted] entries hash clockwise_def validSet_iff ids)
  then show ?thesis
    using pinned_client_stays [OF stable_ring.ring_sort_axioms refl, of sampleDests "''s''" "''r''" "sampleHeap True"
        samplePools "''a''" "sampleHeap False"
        "sampleRequest\<lparr>Req_Cookies := [(''_vrata_destination_pin'', ''s'')]\<rparr>" sampleBalancing sampleEnv 0]
    unfolding h by (simp add: ids sampleBalancing_def pinCookieConfig_def reqCookie_def del: One_nat_def)
qed

end
