(* ===== verification/Go_Strings.thy ===== *)
theory Go_Strings
  imports Go_Prelude
begin

text \<open>
  The functions of Go's \<^verbatim>\<open>strings\<close> package that the gateway uses, on byte strings. \<open>trimSpace\<close> removes
  the ASCII white space; the two Latin-1 characters that Go also removes do not occur in a header.
\<close>

subsection \<open>Searching\<close>

fun indexStr :: "string \<Rightarrow> string \<Rightarrow> nat option" where
  "indexStr [] sub = (if sub = [] then Some 0 else None)"
| "indexStr (c # s) sub = (if hasPrefix (c # s) sub then Some 0 else map_option Suc (indexStr s sub))"

definition contains :: "string \<Rightarrow> string \<Rightarrow> bool" where
  "contains s sub \<longleftrightarrow> indexStr s sub \<noteq> None"

definition hasSuffix :: "string \<Rightarrow> string \<Rightarrow> bool" where
  "hasSuffix s p \<longleftrightarrow> length p \<le> length s \<and> drop (length s - length p) s = p"

text \<open>The part of a string before the first occurrence of a separator, or the whole string.\<close>

definition beforeSep :: "string \<Rightarrow> string \<Rightarrow> string" where
  "beforeSep s sep = (case indexStr s sep of None \<Rightarrow> s | Some i \<Rightarrow> take i s)"

lemma indexStr_Some:
  "indexStr s sub = Some i \<Longrightarrow> i + length sub \<le> length s \<and> take (length sub) (drop i s) = sub"
proof (induction s arbitrary: i)
  case (Cons c s)
  then show ?case by (auto simp: hasPrefix_def split: if_splits)
qed (auto split: if_splits)

lemma indexStr_split:
  assumes "indexStr s sub = Some i"
  shows "s = take i s @ sub @ drop (i + length sub) s"
proof -
  have "take (length sub) (drop i s) @ drop (length sub) (drop i s) = drop i s"
    by (rule append_take_drop_id)
  then have "drop i s = sub @ drop (i + length sub) s"
    using indexStr_Some [OF assms] by (simp add: add.commute)
  then show ?thesis by (metis append_take_drop_id)
qed

lemma indexStr_None_iff: "indexStr s sub = None \<longleftrightarrow> (\<forall>u v. s \<noteq> u @ sub @ v)"
proof (induction s)
  case (Cons c s)
  show ?case
  proof (cases "hasPrefix (c # s) sub")
    case True
    then obtain t where "c # s = [] @ sub @ t" by (auto simp: hasPrefix_iff)
    then have "\<exists>u v. c # s = u @ sub @ v" by blast
    with True show ?thesis by simp
  next
    case False
    then have "c # s \<noteq> u @ sub @ v" if "\<forall>u v. s \<noteq> u @ sub @ v" for u v
      using that by (cases u) (auto simp: hasPrefix_iff)
    moreover have "\<exists>u' v'. c # s = u' @ sub @ v'" if "s = u @ sub @ v" for u v
      using that by (intro exI [of _ "c # u"] exI [of _ v]) simp
    ultimately have "(\<forall>u v. c # s \<noteq> u @ sub @ v) \<longleftrightarrow> (\<forall>u v. s \<noteq> u @ sub @ v)" by blast
    then show ?thesis using False Cons.IH by simp
  qed
qed auto

lemma contains_iff: "contains s sub \<longleftrightarrow> (\<exists>u v. s = u @ sub @ v)"
  unfolding contains_def indexStr_None_iff by simp

lemma indexStr_shorter:
  assumes "indexStr s sub = Some i" and "sub \<noteq> []"
  shows "length s - (i + length sub) < length s"
proof -
  have "0 < length sub" using assms(2) by simp
  then show ?thesis using indexStr_Some [OF assms(1)] by arith
qed

subsection \<open>Replacing, trimming and joining\<close>

function replaceAll :: "string \<Rightarrow> string \<Rightarrow> string \<Rightarrow> string" where
  "replaceAll s old new =
     (if old = [] then s
      else case indexStr s old of
             None \<Rightarrow> s
           | Some i \<Rightarrow> take i s @ new @ replaceAll (drop (i + length old) s) old new)"
  by pat_completeness auto
termination
  by (relation "measure (\<lambda>(s, old, new). length s)") (auto intro: indexStr_shorter)

declare replaceAll.simps [simp del]

lemma replaceAll_none: "\<not> contains s old \<Longrightarrow> replaceAll s old new = s"
  by (subst replaceAll.simps) (simp add: contains_def)

definition isSpace :: "char \<Rightarrow> bool" where
  "isSpace c \<longleftrightarrow> (of_char c :: nat) \<in> {9, 10, 11, 12, 13, 32}"

definition trimSpace :: "string \<Rightarrow> string" where
  "trimSpace s = rev (dropWhile isSpace (rev (dropWhile isSpace s)))"

fun joinStr :: "string list \<Rightarrow> string \<Rightarrow> string" where
  "joinStr [] sep = ''''"
| "joinStr [x] sep = x"
| "joinStr (x # y # xs) sep = x @ sep @ joinStr (y # xs) sep"

definition trimPrefix :: "string \<Rightarrow> string \<Rightarrow> string" where
  "trimPrefix s p = (if hasPrefix s p then drop (length p) s else s)"

end
