(* ===== verification/Retry.thy ===== *)
theory Retry
  imports Pool Go_Strings
begin

text \<open>
  The retrying transport (\<^verbatim>\<open>server/internal/proxy/retry.go\<close>) and the classification of transport
  errors (\<^verbatim>\<open>errors.go\<close>). The wrapped transport is a parameter, a function of the number of the
  attempt and the request; random draws are a function of the attempt. The loop also returns the
  events that are visible outside: retry callbacks, requests sent and pauses.
\<close>

subsection \<open>Transport errors\<close>

text \<open>What \<^verbatim>\<open>errors.Is\<close>, \<^verbatim>\<open>errors.As\<close> and \<^verbatim>\<open>Error\<close> tell of an error value.\<close>

record OpError =
  op_Op :: string
  op_isRefused :: bool
  op_isReset :: bool
  op_isDNS :: bool

record TransportError =
  te_isDeadline :: bool
  te_isCanceled :: bool
  te_opError :: "OpError option"
  te_isCertificate :: bool
  te_isRecordHeader :: bool
  te_msg :: string

definition classifyMessage :: "string \<Rightarrow> ProxyErrorType" where
  "classifyMessage msg =
     (if contains msg ''tls:'' \<or> contains msg ''TLS'' \<or> contains msg ''certificate'' then ProxyErrTLSHandshakeFailure
      else if contains msg ''connection refused'' then ProxyErrConnectionRefused
      else if contains msg ''connection reset'' then ProxyErrConnectionReset
      else if contains msg ''no such host'' then ProxyErrDNSFailure
      else if contains msg ''i/o timeout'' \<or> contains msg ''deadline exceeded'' then ProxyErrTimeout
      else ProxyErrConnectionRefused)"

definition classifyRest :: "TransportError \<Rightarrow> ProxyErrorType" where
  "classifyRest err =
     (if te_isCertificate err then ProxyErrTLSHandshakeFailure
      else if te_isRecordHeader err then ProxyErrTLSHandshakeFailure
      else classifyMessage (te_msg err))"

definition classifyError :: "TransportError option \<Rightarrow> ProxyErrorType" where
  "classifyError e =
     (case e of
        None \<Rightarrow> ''''
      | Some err \<Rightarrow>
          if te_isDeadline err then ProxyErrTimeout
          else if te_isCanceled err then ProxyErrTimeout
          else (case te_opError err of
                  None \<Rightarrow> classifyRest err
                | Some oe \<Rightarrow>
                    if op_Op oe = ''dial'' then
                      if op_isRefused oe then ProxyErrConnectionRefused
                      else if op_isDNS oe then ProxyErrDNSFailure
                      else ProxyErrConnectionRefused
                    else if op_isReset oe then ProxyErrConnectionReset
                    else classifyRest err))"

definition statusForErrorType :: "ProxyErrorType \<Rightarrow> int" where
  "statusForErrorType t =
     (if t = ProxyErrCircuitOpen then 503 else if t = ProxyErrTimeout then 504 else 502)"

subsection \<open>Retry decisions and pauses\<close>

definition retryOn :: "RouteRetry \<Rightarrow> int \<Rightarrow> RetryCondition \<Rightarrow> bool" where
  "retryOn retry status cond =
     (if cond = RetryOnServerError then status \<ge> 500
      else if cond = RetryOnGatewayError then status = 502 \<or> status = 503 \<or> status = 504
      else if cond = RetryOnRetriableCodes then
        list_ex (\<lambda>code. (of_int status :: uint32) = code) (RouteRetry_RetriableCodes retry)
      else False)"

definition shouldRetry :: "int \<Rightarrow> RouteRetry \<Rightarrow> bool" where
  "shouldRetry status retry =
     (if length (RouteRetry_On retry) = 0 then status \<ge> 500
      else list_ex (retryOn retry status) (RouteRetry_On retry))"

text \<open>\<open>int63n\<close> is \<^verbatim>\<open>rand.Int63n\<close>, which panics unless its argument is positive.\<close>

definition cappedBackoff :: "duration \<Rightarrow> duration \<Rightarrow> nat \<Rightarrow> duration" where
  "cappedBackoff base mx attempt =
     (let backoff = swrap 64 (base * swrap 64 (2 ^ attempt)) in if backoff > mx then mx else backoff)"

definition calcBackoff :: "(int \<Rightarrow> int) \<Rightarrow> duration \<Rightarrow> duration \<Rightarrow> nat \<Rightarrow> duration go" where
  "calcBackoff int63n base mx attempt =
     (let half = quot (cappedBackoff base mx attempt) 2 in
      if half \<le> 0 then Inl InvalidArgument else Inr (swrap 64 (half + int63n half)))"

definition baseBackoff :: "(string \<Rightarrow> duration option) \<Rightarrow> RouteRetry \<Rightarrow> duration" where
  "baseBackoff parseDuration retry =
     (case RouteRetry_Backoff retry of
        None \<Rightarrow> 100 * millisecond
      | Some b \<Rightarrow> if RetryBackoff_Base b \<noteq> '''' then
                    case parseDuration (RetryBackoff_Base b) of Some d \<Rightarrow> d | None \<Rightarrow> 100 * millisecond
                  else 100 * millisecond)"

definition maxBackoff :: "(string \<Rightarrow> duration option) \<Rightarrow> RouteRetry \<Rightarrow> duration" where
  "maxBackoff parseDuration retry =
     (case RouteRetry_Backoff retry of
        None \<Rightarrow> second
      | Some b \<Rightarrow> if RetryBackoff_Max b \<noteq> '''' then
                    case parseDuration (RetryBackoff_Max b) of Some d \<Rightarrow> d | None \<Rightarrow> second
                  else second)"

definition perAttemptTimeout :: "(string \<Rightarrow> duration option) \<Rightarrow> RouteRetry \<Rightarrow> duration" where
  "perAttemptTimeout parseDuration retry =
     (if RouteRetry_PerAttemptTimeout retry \<noteq> '''' then
        case parseDuration (RouteRetry_PerAttemptTimeout retry) of Some d \<Rightarrow> d | None \<Rightarrow> 0
      else 0)"

subsection \<open>The attempts\<close>

datatype rt_event = OnRetry nat | Sent Request "duration option" | Slept duration

text \<open>
  A response comes with a flag that says whether the context of its request is still live: the
  per-attempt context is cancelled as soon as the headers have arrived.
\<close>

type_synonym 'e rt_result = "('e + Response \<times> bool) go"

definition attemptRequest :: "Request \<Rightarrow> nat \<Rightarrow> Request" where
  "attemptRequest req attempt =
     req\<lparr>Req_Header := headerSet (Req_Header req) ''X-Request-Attempt-Count'' (decimal (attempt + 1))\<rparr>"

function rt_attempts ::
  "RouteRetry \<Rightarrow> duration \<Rightarrow> duration \<Rightarrow> duration \<Rightarrow> (nat \<Rightarrow> int \<Rightarrow> int) \<Rightarrow> (nat \<Rightarrow> Request \<Rightarrow> 'e + Response) \<Rightarrow>
   nat \<Rightarrow> nat \<Rightarrow> 'e option \<Rightarrow> Request \<Rightarrow> 'e option rt_result \<times> rt_event list" where
  "rt_attempts retry base mx per int63n inner maxAttempts attempt lastErr req =
     (if attempt < maxAttempts then
        let req = attemptRequest req attempt;
            evs = (if attempt > 0 then [OnRetry attempt] else []) @ [Sent req (if per > 0 then Some per else None)];
            again = (\<lambda>lastErr.
              case calcBackoff (int63n attempt) base mx attempt of
                Inl p \<Rightarrow> (Inl p, evs)
              | Inr d \<Rightarrow>
                  (let (res, evs') = rt_attempts retry base mx per int63n inner maxAttempts (attempt + 1) lastErr req
                   in (res, evs @ Slept d # evs')))
        in case inner attempt req of
             Inl err \<Rightarrow> if attempt < maxAttempts - 1 then again (Some err) else (Inr (Inl (Some err)), evs)
           | Inr resp \<Rightarrow>
               if shouldRetry (Resp_Status resp) retry \<and> attempt < maxAttempts - 1 then again lastErr
               else (Inr (Inr (resp, \<not> per > 0)), evs)
      else (Inr (Inl lastErr), []))"
  by pat_completeness auto
termination
  by (relation "measure (\<lambda>(retry, base, mx, per, int63n, inner, maxAttempts, attempt, lastErr, req).
        maxAttempts - attempt)") auto

declare rt_attempts.simps [simp del]

text \<open>\<open>readErr\<close> is the error of reading the request body, if any.\<close>

definition rt_RoundTrip ::
  "(string \<Rightarrow> duration option) \<Rightarrow> RouteRetry \<Rightarrow> (nat \<Rightarrow> int \<Rightarrow> int) \<Rightarrow> (nat \<Rightarrow> Request \<Rightarrow> 'e + Response) \<Rightarrow>
   'e option \<Rightarrow> Request \<Rightarrow> 'e option rt_result \<times> rt_event list" where
  "rt_RoundTrip parseDuration retry int63n inner readErr req =
     (if Req_Body req \<noteq> None \<and> readErr \<noteq> None then (Inr (Inl readErr), [])
      else rt_attempts retry (baseBackoff parseDuration retry) (maxBackoff parseDuration retry)
             (perAttemptTimeout parseDuration retry) int63n inner (unat (RouteRetry_Attempts retry) + 1) 0 None req)"

text \<open>Without retries configured the transport is used as it is.\<close>

definition newRetryTransport ::
  "(string \<Rightarrow> duration option) \<Rightarrow> RouteRetry option \<Rightarrow> (nat \<Rightarrow> int \<Rightarrow> int) \<Rightarrow> (nat \<Rightarrow> Request \<Rightarrow> 'e + Response) \<Rightarrow>
   'e option \<Rightarrow> Request \<Rightarrow> 'e option rt_result \<times> rt_event list" where
  "newRetryTransport parseDuration retry int63n inner readErr req =
     (case retry of
        None \<Rightarrow> (Inr (case inner 0 req of Inl e \<Rightarrow> Inl (Some e) | Inr resp \<Rightarrow> Inr (resp, True)), [Sent req None])
      | Some rt \<Rightarrow>
          if RouteRetry_Attempts rt = 0 then
            (Inr (case inner 0 req of Inl e \<Rightarrow> Inl (Some e) | Inr resp \<Rightarrow> Inr (resp, True)), [Sent req None])
          else rt_RoundTrip parseDuration rt int63n inner readErr req)"

subsection \<open>Lemmas\<close>

lemma attemptRequest_again [simp]: "attemptRequest (attemptRequest req i) j = attemptRequest req j"
  by (simp add: attemptRequest_def headerSet_def)

text \<open>Attempt \<open>k\<close> got a response that is not to be retried.\<close>

definition accepted :: "RouteRetry \<Rightarrow> (nat \<Rightarrow> Request \<Rightarrow> 'e + Response) \<Rightarrow> Request \<Rightarrow> nat \<Rightarrow> bool" where
  "accepted retry inner req k =
     (case inner k (attemptRequest req k) of Inl e \<Rightarrow> False | Inr resp \<Rightarrow> \<not> shouldRetry (Resp_Status resp) retry)"

definition attemptResult ::
  "duration \<Rightarrow> (nat \<Rightarrow> Request \<Rightarrow> 'e + Response) \<Rightarrow> Request \<Rightarrow> nat \<Rightarrow> 'e option rt_result" where
  "attemptResult per inner req k =
     Inr (case inner k (attemptRequest req k) of Inl e \<Rightarrow> Inl (Some e) | Inr resp \<Rightarrow> Inr (resp, \<not> per > 0))"

fun sentOf :: "rt_event list \<Rightarrow> Request list" where
  "sentOf [] = []"
| "sentOf (Sent req t # evs) = req # sentOf evs"
| "sentOf (ev # evs) = sentOf evs"

lemma sentOf_append [simp]: "sentOf (xs @ ys) = sentOf xs @ sentOf ys"
  by (induction xs rule: sentOf.induct) auto

lemma sentOf_callback [simp]: "sentOf (if b then [OnRetry k] else []) = []"
  by simp

lemma rt_attempts_stop:
  assumes "attempt \<le> n" and "accepted retry inner req attempt \<or> attempt = n"
  shows "fst (rt_attempts retry base mx per int63n inner (Suc n) attempt lastErr (attemptRequest req i)) =
      attemptResult per inner req attempt"
    "sentOf (snd (rt_attempts retry base mx per int63n inner (Suc n) attempt lastErr (attemptRequest req i))) =
      [attemptRequest req attempt]"
  using assms
  by (cases "inner attempt (attemptRequest req attempt)",
      subst rt_attempts.simps, force simp: accepted_def attemptResult_def Let_def,
      subst rt_attempts.simps, force simp: accepted_def attemptResult_def Let_def)+

lemma rt_attempts_next:
  assumes "attempt < n" and "\<not> accepted retry inner req attempt"
    and "calcBackoff (int63n attempt) base mx attempt = Inr d"
  shows "\<exists>e. fst (rt_attempts retry base mx per int63n inner (Suc n) attempt lastErr (attemptRequest req i)) =
      fst (rt_attempts retry base mx per int63n inner (Suc n) (Suc attempt) e (attemptRequest req attempt)) \<and>
    sentOf (snd (rt_attempts retry base mx per int63n inner (Suc n) attempt lastErr (attemptRequest req i))) =
      attemptRequest req attempt #
      sentOf (snd (rt_attempts retry base mx per int63n inner (Suc n) (Suc attempt) e (attemptRequest req attempt)))"
proof (cases "inner attempt (attemptRequest req attempt)")
  case (Inl err)
  then show ?thesis
    using assms by (intro exI [of _ "Some err"]) (subst (1 3) rt_attempts.simps, simp add: Let_def split_def)
next
  case (Inr resp)
  then have "shouldRetry (Resp_Status resp) retry" using assms(2) by (simp add: accepted_def)
  then show ?thesis
    using assms Inr by (intro exI [of _ lastErr]) (subst (1 3) rt_attempts.simps, simp add: Let_def split_def)
qed

lemma rt_attempts_spec:
  assumes "attempt \<le> n" and "\<forall>j<n. \<exists>d. calcBackoff (int63n j) base mx j = Inr d"
  shows "\<exists>k\<le>n. attempt \<le> k \<and> (\<forall>j. attempt \<le> j \<longrightarrow> j < k \<longrightarrow> \<not> accepted retry inner req j) \<and>
    (accepted retry inner req k \<or> k = n) \<and>
    fst (rt_attempts retry base mx per int63n inner (Suc n) attempt lastErr (attemptRequest req i)) =
      attemptResult per inner req k \<and>
    sentOf (snd (rt_attempts retry base mx per int63n inner (Suc n) attempt lastErr (attemptRequest req i))) =
      map (attemptRequest req) [attempt..<Suc k]"
  using assms(1)
proof (induction "n - attempt" arbitrary: attempt lastErr i)
  case 0
  then have "attempt = n" by simp
  with rt_attempts_stop [of n n retry inner req base mx per int63n lastErr i] show ?case by auto
next
  case (Suc m)
  show ?case
  proof (cases "accepted retry inner req attempt")
    case True
    with rt_attempts_stop [OF Suc.prems, of retry inner req base mx per int63n lastErr i] Suc.prems
    show ?thesis by (intro exI [of _ attempt]) auto
  next
    case False
    have lt: "attempt < n" using Suc.hyps(2) by simp
    then obtain d where "calcBackoff (int63n attempt) base mx attempt = Inr d" using assms(2) by blast
    from rt_attempts_next [where int63n = int63n, OF lt False this, of per lastErr i] obtain e where
      e: "fst (rt_attempts retry base mx per int63n inner (Suc n) attempt lastErr (attemptRequest req i)) =
        fst (rt_attempts retry base mx per int63n inner (Suc n) (Suc attempt) e (attemptRequest req attempt))"
        "sentOf (snd (rt_attempts retry base mx per int63n inner (Suc n) attempt lastErr (attemptRequest req i))) =
          attemptRequest req attempt #
          sentOf (snd (rt_attempts retry base mx per int63n inner (Suc n) (Suc attempt) e (attemptRequest req attempt)))"
      by blast
    have "m = n - Suc attempt" "Suc attempt \<le> n" using Suc.hyps(2) lt by simp_all
    from Suc.hyps(1) [OF this, of e attempt]
    obtain k where k: "k \<le> n" "Suc attempt \<le> k" "\<forall>j. Suc attempt \<le> j \<longrightarrow> j < k \<longrightarrow> \<not> accepted retry inner req j"
      "accepted retry inner req k \<or> k = n"
      "fst (rt_attempts retry base mx per int63n inner (Suc n) (Suc attempt) e (attemptRequest req attempt)) =
        attemptResult per inner req k"
      "sentOf (snd (rt_attempts retry base mx per int63n inner (Suc n) (Suc attempt) e (attemptRequest req attempt))) =
        map (attemptRequest req) [Suc attempt..<Suc k]"
      by blast
    have "\<forall>j. attempt \<le> j \<longrightarrow> j < k \<longrightarrow> \<not> accepted retry inner req j"
      using k(3) False by (metis Suc_leI le_neq_implies_less)
    moreover have "attemptRequest req attempt # map (attemptRequest req) [Suc attempt..<Suc k] =
        map (attemptRequest req) [attempt..<Suc k]"
      using k(2) by (simp add: upt_conv_Cons del: upt_Suc)
    ultimately show ?thesis unfolding e k(5,6) using k(1,2,4) by (intro exI [of _ k]) (auto simp del: upt_Suc)
  qed
qed

lemma quot_two: "quot x 2 \<le> 0 \<longleftrightarrow> x < 2"
proof (cases "0 \<le> x")
  case True
  then show ?thesis by (simp add: quot_nonneg) presburger
next
  case False
  then show ?thesis by (simp add: quot_def)
qed

lemma cappedBackoff_exact:
  assumes "fits 64 (base * 2 ^ attempt)" and "attempt < 63"
  shows "cappedBackoff base mx attempt = min (base * 2 ^ attempt) mx"
proof -
  have "(2 :: int) ^ attempt < 2 ^ 63" using assms(2) by (intro power_strict_increasing) simp_all
  then have "swrap 64 (2 ^ attempt) = 2 ^ attempt" by (intro swrap64_id) (simp_all add: order_trans [of _ 0])
  moreover have "swrap 64 (base * 2 ^ attempt) = base * 2 ^ attempt" using assms(1) by (simp add: swrap_id)
  ultimately show ?thesis by (simp add: cappedBackoff_def Let_def)
qed

subsection \<open>Properties\<close>

definition sampleRetry :: "uint32 \<Rightarrow> RouteRetry" where
  "sampleRetry n =
     \<lparr>RouteRetry_Attempts = n, RouteRetry_PerAttemptTimeout = '''', RouteRetry_On = [],
      RouteRetry_RetriableCodes = [], RouteRetry_Backoff = None\<rparr>"

definition sampleResponse :: "int \<Rightarrow> Response" where
  "sampleResponse status = \<lparr>Resp_Status = status, Resp_Header = Map.empty, Resp_Body = ''''\<rparr>"



text \<open>C29: Below the overflow of the exponential, a pause lies between half the capped backoff and the
  whole of it, and computing it panics exactly when the capped backoff is shorter than two
  nanoseconds. The cap does not protect against the overflow: with the default settings the pause
  after the thirty-eighth attempt always panics.\<close>

theorem backoff_bounds:
  assumes "fits 64 (base * 2 ^ attempt)" and "attempt < 63" and "fits 64 mx"
    and "\<forall>n>0. 0 \<le> int63n n \<and> int63n n < n"
  shows "(case calcBackoff int63n base mx attempt of
      Inl p \<Rightarrow> min (base * 2 ^ attempt) mx < 2
    | Inr d \<Rightarrow> 2 \<le> min (base * 2 ^ attempt) mx \<and>
        min (base * 2 ^ attempt) mx div 2 \<le> d \<and> d < min (base * 2 ^ attempt) mx) \<and>
    calcBackoff int63n (100 * millisecond) second 37 = Inl InvalidArgument"
proof -
  define b where "b = min (base * 2 ^ attempt) mx"
  have default: "calcBackoff int63n (100 * millisecond) second 37 = Inl InvalidArgument"
    by (simp add: calcBackoff_def cappedBackoff_def millisecond_def second_def swrap_def quot_def)
  have capped: "cappedBackoff base mx attempt = b" unfolding b_def by (rule cappedBackoff_exact [OF assms(1,2)])
  have top: "b < 2 ^ 63" using assms(3) by (auto simp: b_def fits_def)
  show ?thesis unfolding b_def [symmetric]
  proof (cases "b < 2")
    case True
    then have "calcBackoff int63n base mx attempt = Inl InvalidArgument"
      by (simp add: calcBackoff_def capped quot_two)
    with True default show "(case calcBackoff int63n base mx attempt of Inl p \<Rightarrow> b < 2
        | Inr d \<Rightarrow> 2 \<le> b \<and> b div 2 \<le> d \<and> d < b) \<and> calcBackoff int63n (100 * millisecond) second 37 = Inl InvalidArgument"
      by simp
  next
    case False
    then have half: "quot b 2 = b div 2" "0 < b div 2" by (simp_all add: quot_nonneg)
    have draw: "0 \<le> int63n (b div 2)" "int63n (b div 2) < b div 2" using assms(4) half(2) by blast+
    then have "swrap 64 (b div 2 + int63n (b div 2)) = b div 2 + int63n (b div 2)"
      using top by (intro swrap64_id) auto
    then have "calcBackoff int63n base mx attempt = Inr (b div 2 + int63n (b div 2))"
      using half by (simp add: calcBackoff_def capped Let_def)
    moreover have "b div 2 + int63n (b div 2) < b" using draw by linarith
    ultimately show "(case calcBackoff int63n base mx attempt of Inl p \<Rightarrow> b < 2
        | Inr d \<Rightarrow> 2 \<le> b \<and> b div 2 \<le> d \<and> d < b) \<and> calcBackoff int63n (100 * millisecond) second 37 = Inl InvalidArgument"
      using False draw default by simp
  qed
qed

theorem backoff_bounds_witness:
  "case calcBackoff (\<lambda>n. n - 1) (100 * millisecond) second 2 of
     Inl p \<Rightarrow> False | Inr d \<Rightarrow> 200 * millisecond \<le> d \<and> d < 400 * millisecond"
  using backoff_bounds [of "100 * millisecond" 2 second "\<lambda>n. n - 1"]
  by (simp add: millisecond_def second_def fits_def split: sum.splits)

end
