(* ===== verification/Http.thy ===== *)
theory Http
  imports Go_Net Model
begin

text \<open>
  Handlers and what they do to a response: the response writer with its headers, the wrappers that
  run when the header is written, middlewares and their chain
  (\<^verbatim>\<open>server/internal/proxy/middlewares/types.go\<close>) and error bodies
  (\<^verbatim>\<open>server/internal/proxy/errors.go\<close>). The state that handlers share is a type parameter. A body is a
  list of chunks: bytes, or the encoding of a JSON value.
\<close>

subsection \<open>Response writers\<close>

datatype chunk = Raw string | Encoded json

text \<open>
  \<open>rw_hooks\<close> are the wrappers around \<^verbatim>\<open>WriteHeader\<close> and \<^verbatim>\<open>Write\<close>, innermost first; each changes the
  header map once, before the header is sent.
\<close>

record RW =
  rw_header :: header
  rw_sent :: "(int \<times> header) option"
  rw_body :: "chunk list"
  rw_hooks :: "(header \<Rightarrow> header) list"

definition newRW :: RW where
  "newRW = \<lparr>rw_header = Map.empty, rw_sent = None, rw_body = [], rw_hooks = []\<rparr>"

definition runHooks :: "RW \<Rightarrow> RW" where
  "runHooks w = w\<lparr>rw_header := foldl (\<lambda>h f. f h) (rw_header w) (rw_hooks w), rw_hooks := []\<rparr>"

text \<open>
  The first final status is sent with the headers as they are then. A code below 100 or above 999
  panics, and informational codes other than 101 leave the response open. A response with status
  204 or 304 has no body: writing one is an error that every caller only logs.
\<close>

definition WriteHeader :: "int \<Rightarrow> RW \<Rightarrow> RW go" where
  "WriteHeader code w =
     (let w = runHooks w in
      if rw_sent w \<noteq> None then Inr w
      else if code < 100 \<or> code > 999 then Inl InvalidArgument
      else if 100 \<le> code \<and> code \<le> 199 \<and> code \<noteq> 101 then Inr w
      else Inr (w\<lparr>rw_sent := Some (code, rw_header w)\<rparr>))"

definition Write :: "chunk \<Rightarrow> RW \<Rightarrow> RW" where
  "Write c w =
     (let w = runHooks w;
          w = (if rw_sent w = None then w\<lparr>rw_sent := Some (200, rw_header w)\<rparr> else w)
      in if (case rw_sent w of Some (code, h) \<Rightarrow> code = 204 \<or> code = 304 | None \<Rightarrow> False) then w
         else w\<lparr>rw_body := rw_body w @ [c]\<rparr>)"

definition setHeader :: "string \<Rightarrow> string \<Rightarrow> RW \<Rightarrow> RW" where
  "setHeader k v w = w\<lparr>rw_header := headerSet (rw_header w) k v\<rparr>"

definition respond :: "int \<Rightarrow> chunk list \<Rightarrow> RW \<Rightarrow> RW go" where
  "respond code cs w =
     (case WriteHeader code w of Inl p \<Rightarrow> Inl p | Inr w \<Rightarrow> Inr (foldl (\<lambda>w c. Write c w) w cs))"

definition httpError :: "RW \<Rightarrow> string \<Rightarrow> int \<Rightarrow> RW go" where
  "httpError w msg code =
     respond code [Raw (msg @ [CHR 10])]
       (setHeader ''X-Content-Type-Options'' ''nosniff''
         (setHeader ''Content-Type'' ''text/plain; charset=utf-8''
           (w\<lparr>rw_header := headerDel (rw_header w) ''Content-Length''\<rparr>)))"

definition statusText :: "int \<Rightarrow> string" where
  "statusText code =
     (case map_of
        [(100, ''Continue''), (101, ''Switching Protocols''), (102, ''Processing''), (103, ''Early Hints''),
         (200, ''OK''), (201, ''Created''), (202, ''Accepted''), (203, ''Non-Authoritative Information''),
         (204, ''No Content''), (205, ''Reset Content''), (206, ''Partial Content''), (207, ''Multi-Status''),
         (208, ''Already Reported''), (226, ''IM Used''), (300, ''Multiple Choices''),
         (301, ''Moved Permanently''), (302, ''Found''), (303, ''See Other''), (304, ''Not Modified''),
         (305, ''Use Proxy''), (307, ''Temporary Redirect''), (308, ''Permanent Redirect''),
         (400, ''Bad Request''), (401, ''Unauthorized''), (402, ''Payment Required''), (403, ''Forbidden''),
         (404, ''Not Found''), (405, ''Method Not Allowed''), (406, ''Not Acceptable''),
         (407, ''Proxy Authentication Required''), (408, ''Request Timeout''), (409, ''Conflict''),
         (410, ''Gone''), (411, ''Length Required''), (412, ''Precondition Failed''),
         (413, ''Request Entity Too Large''), (414, ''Request URI Too Long''), (415, ''Unsupported Media Type''),
         (416, ''Requested Range Not Satisfiable''), (417, ''Expectation Failed''),
         (418, ''I'' @ CHR 39 # ''m a teapot''), (421, ''Misdirected Request''), (422, ''Unprocessable Entity''),
         (423, ''Locked''), (424, ''Failed Dependency''), (425, ''Too Early''), (426, ''Upgrade Required''),
         (428, ''Precondition Required''), (429, ''Too Many Requests''),
         (431, ''Request Header Fields Too Large''), (451, ''Unavailable For Legal Reasons''),
         (500, ''Internal Server Error''), (501, ''Not Implemented''), (502, ''Bad Gateway''),
         (503, ''Service Unavailable''), (504, ''Gateway Timeout''), (505, ''HTTP Version Not Supported''),
         (506, ''Variant Also Negotiates''), (507, ''Insufficient Storage''), (508, ''Loop Detected''),
         (510, ''Not Extended''), (511, ''Network Authentication Required'')] code of
        None \<Rightarrow> ''''
      | Some t \<Rightarrow> t)"

subsection \<open>Handlers and middlewares\<close>

type_synonym 's handler = "Request \<Rightarrow> RW \<Rightarrow> 's \<Rightarrow> RW go \<times> 's"
type_synonym 's mware = "'s handler \<Rightarrow> 's handler"

definition passthrough :: "'s mware" where
  "passthrough next = next"

definition Chain :: "'s handler \<Rightarrow> 's mware list \<Rightarrow> 's handler" where
  "Chain h mws = foldl (\<lambda>h i. (mws ! i) h) h (rev [0..<length mws])"

definition jsonObj :: "(string \<times> json) list \<Rightarrow> json" where
  "jsonObj kvs = JObj (map_of kvs)"

definition writeJSONError :: "RW \<Rightarrow> int \<Rightarrow> string \<Rightarrow> RW go" where
  "writeJSONError w status msg =
     respond status [Encoded (jsonObj [(''error'', JStr msg)])] (setHeader ''Content-Type'' ''application/json'' w)"

subsection \<open>Captured metrics\<close>

text \<open>
  What \<^verbatim>\<open>httpsnoop.CaptureMetrics\<close> reports of a response: its final status, 200 unless another one was
  written, and the number of body bytes. \<open>enc\<close> is the length of an encoded JSON value.
\<close>

definition capturedCode :: "RW \<Rightarrow> int" where
  "capturedCode w =
     (case rw_sent w of Some (code, h) \<Rightarrow> if 100 \<le> code \<and> code \<le> 199 then 200 else code | None \<Rightarrow> 200)"

fun chunkLength :: "(json \<Rightarrow> nat) \<Rightarrow> chunk \<Rightarrow> nat" where
  "chunkLength enc (Raw b) = length b"
| "chunkLength enc (Encoded j) = enc j"

definition writtenBytes :: "(json \<Rightarrow> nat) \<Rightarrow> RW \<Rightarrow> int" where
  "writtenBytes enc w = int (sum_list (map (chunkLength enc) (rw_body w)))"

subsection \<open>Proxy errors\<close>

record ProxyError =
  pe_Type :: ProxyErrorType
  pe_Status :: int
  pe_Destination :: string
  pe_Endpoint :: string
  pe_Message :: string

definition withProxyErrorDetail :: "Request \<Rightarrow> ProxyErrorDetail \<Rightarrow> Request" where
  "withProxyErrorDetail r detail = r\<lparr>Req_Detail := Some detail\<rparr>"

definition proxyErrorDetailFromCtx :: "Request \<Rightarrow> ProxyErrorDetail" where
  "proxyErrorDetailFromCtx r =
     (case Req_Detail r of Some v \<Rightarrow> v | None \<Rightarrow> ProxyErrorDetailStandard)"

text \<open>The integer of a status field in decimal; \<open>now\<close> is the formatted time.\<close>

definition itoaInt :: "int \<Rightarrow> string" where
  "itoaInt n = (if n < 0 then CHR ''-'' # decimal (nat (- n)) else decimal (nat n))"

definition omitEmpty :: "string \<Rightarrow> string \<Rightarrow> (string \<times> json) list" where
  "omitEmpty k v = (if v = '''' then [] else [(k, JStr v)])"

definition proxyErrorBody :: "ProxyErrorDetail \<Rightarrow> string \<Rightarrow> ProxyError \<Rightarrow> json" where
  "proxyErrorBody detail now pe =
     (if detail = ProxyErrorDetailMinimal then
        jsonObj [(''error'', JStr (pe_Type pe)), (''status'', JNum (itoaInt (pe_Status pe)))]
      else if detail = ProxyErrorDetailFull then
        jsonObj ([(''error'', JStr (pe_Type pe)), (''status'', JNum (itoaInt (pe_Status pe))),
                  (''message'', JStr (pe_Message pe))] @
                 omitEmpty ''destination'' (pe_Destination pe) @ omitEmpty ''endpoint'' (pe_Endpoint pe) @
                 [(''timestamp'', JStr now)])
      else
        jsonObj [(''error'', JStr (pe_Type pe)), (''status'', JNum (itoaInt (pe_Status pe))),
                 (''message'', JStr (pe_Message pe))])"

definition writeProxyError :: "string \<Rightarrow> RW \<Rightarrow> Request \<Rightarrow> ProxyError \<Rightarrow> RW go" where
  "writeProxyError now w r pe =
     respond (pe_Status pe) [Encoded (proxyErrorBody (proxyErrorDetailFromCtx r) now pe)]
       (setHeader ''Content-Type'' ''application/json'' w)"

end
