(* ===== verification/Rewrite.thy ===== *)
theory Rewrite
  imports Retry Http
begin

text \<open>
  What \<^verbatim>\<open>server/internal/proxy/handler.go\<close> does to a request before it is forwarded: the client
  certificate header, path and host rewriting, and the gRPC timeout.
\<close>

subsection \<open>The client certificate header\<close>

definition peerURIs :: "Request \<Rightarrow> string list" where
  "peerURIs r = (case Req_TLS r of Some (cert # rest) \<Rightarrow> pc_URIs cert | _ \<Rightarrow> [])"

definition injectXFCC :: "Request \<Rightarrow> Request" where
  "injectXFCC r =
     (let h = headerDel (Req_Header r) ''X-Forwarded-Client-Cert'' in
      if length (peerURIs r) > 0
      then r\<lparr>Req_Header := headerSet h ''X-Forwarded-Client-Cert'' (joinStr (peerURIs r) '';'')\<rparr>
      else r\<lparr>Req_Header := h\<rparr>)"

subsection \<open>Rewriting\<close>

text \<open>
  \<open>replaceRe\<close> stands for compiling a pattern and replacing its matches. The cache of compiled patterns
  changes nothing that can be observed; \<open>cachedCompile\<close> is its model with the cache as a map.
\<close>

type_synonym 're regexCache = "string \<rightharpoonup> 're"

definition cachedCompile :: "(string \<Rightarrow> 're option) \<Rightarrow> 're regexCache \<Rightarrow> string \<Rightarrow> 're option \<times> 're regexCache" where
  "cachedCompile compile cache pattern =
     (case cache pattern of
        Some v \<Rightarrow> (Some v, cache)
      | None \<Rightarrow> (case compile pattern of None \<Rightarrow> (None, cache) | Some re \<Rightarrow> (Some re, cache(pattern \<mapsto> re))))"

definition setHost :: "string \<Rightarrow> Request \<Rightarrow> Request" where
  "setHost host r = r\<lparr>Req_Host := host, Req_Header := headerSet (Req_Header r) ''Host'' host\<rparr>"

definition rewritePath ::
  "(string \<Rightarrow> (string \<Rightarrow> string \<Rightarrow> string) option) \<Rightarrow> RouteRewrite \<Rightarrow> string \<Rightarrow> string" where
  "rewritePath replaceRe rw path =
     (case RouteRewrite_PathRegex rw of
        Some pr \<Rightarrow>
          (case replaceRe (RewriteRegex_Pattern pr) of
             Some f \<Rightarrow> f path (RewriteRegex_Substitution pr)
           | None \<Rightarrow> path)
      | None \<Rightarrow> if RouteRewrite_Path rw \<noteq> '''' then RouteRewrite_Path rw else path)"

definition applyRewrite ::
  "(string \<Rightarrow> (string \<Rightarrow> string \<Rightarrow> string) option) \<Rightarrow> RouteRewrite \<Rightarrow> Request \<Rightarrow> Request" where
  "applyRewrite replaceRe rw r =
     (let r = r\<lparr>Req_Path := rewritePath replaceRe rw (Req_Path r)\<rparr>;
          r = (if RouteRewrite_Host rw \<noteq> '''' then setHost (RouteRewrite_Host rw) r else r);
          r = (if RouteRewrite_HostFromHeader rw \<noteq> '''' then
                 let val = headerGet (Req_Header r) (RouteRewrite_HostFromHeader rw) in
                 if val \<noteq> '''' then setHost val r else r
               else r)
      in if RouteRewrite_AutoHost rw then r\<lparr>Req_Host := ''''\<rparr> else r)"

subsection \<open>gRPC timeouts\<close>

text \<open>The \<^verbatim>\<open>%d\<close> verb of \<^verbatim>\<open>fmt.Sscanf\<close>: leading space is skipped, a sign may follow, at least one digit
  must, and the rest of the input is ignored. The value has to fit an \<^verbatim>\<open>int\<close>.\<close>

definition digitValue :: "char \<Rightarrow> nat" where
  "digitValue c = of_char c - 48"

definition digitsToNat :: "string \<Rightarrow> nat" where
  "digitsToNat ds = foldl (\<lambda>n c. 10 * n + digitValue c) 0 ds"

definition scanInt :: "string \<Rightarrow> int option" where
  "scanInt s =
     (let s = dropWhile isSpace s;
          neg = (s \<noteq> [] \<and> hd s = CHR ''-'');
          s = (if s \<noteq> [] \<and> hd s \<in> {CHR ''-'', CHR ''+''} then tl s else s);
          ds = takeWhile isDigit s;
          n = (if neg then - int (digitsToNat ds) else int (digitsToNat ds))
      in if ds = [] \<or> \<not> fits 64 n then None else Some n)"

definition grpcUnit :: "char \<Rightarrow> duration option" where
  "grpcUnit c =
     (if c = CHR ''H'' then Some (3600 * second) else if c = CHR ''M'' then Some (60 * second)
      else if c = CHR ''S'' then Some second else if c = CHR ''m'' then Some millisecond
      else if c = CHR ''u'' then Some 1000 else if c = CHR ''n'' then Some 1 else None)"

definition parseGRPCTimeout :: "string \<Rightarrow> duration option" where
  "parseGRPCTimeout s =
     (if length s < 2 then None
      else case scanInt (butlast s) of
             None \<Rightarrow> None
           | Some n \<Rightarrow> (case grpcUnit (last s) of None \<Rightarrow> None | Some u \<Rightarrow> Some (swrap 64 (n * u))))"

definition formatGRPCTimeout :: "duration \<Rightarrow> string" where
  "formatGRPCTimeout d =
     (let us = quot d 1000 in
      if us < 1000 then itoaInt us @ ''u'' else itoaInt (quot d (10 ^ 6)) @ ''m'')"

definition capGRPCTimeout :: "(string \<Rightarrow> duration option) \<Rightarrow> string \<Rightarrow> Request \<Rightarrow> Request" where
  "capGRPCTimeout parseDuration maxTimeout r =
     (if maxTimeout = '''' then r
      else case parseDuration maxTimeout of
        None \<Rightarrow> r
      | Some maxDur \<Rightarrow>
          let grpcTimeout = headerGet (Req_Header r) ''grpc-timeout'' in
          if grpcTimeout = '''' then r
          else case parseGRPCTimeout grpcTimeout of
            None \<Rightarrow> r
          | Some clientDur \<Rightarrow>
              if clientDur > maxDur
              then r\<lparr>Req_Header := headerSet (Req_Header r) ''grpc-timeout'' (formatGRPCTimeout maxDur)\<rparr>
              else r)"

subsection \<open>Lemmas\<close>

lemma cachedCompile_sound:
  assumes "\<And>p v. cache p = Some v \<Longrightarrow> compile p = Some v"
  shows "fst (cachedCompile compile cache pattern) = compile pattern"
    "snd (cachedCompile compile cache pattern) p = Some v \<Longrightarrow> compile p = Some v"
  using assms by (auto simp: cachedCompile_def split: option.splits if_splits)

lemma digit_char_props:
  assumes "d < 10"
  shows "digitValue (digit_char d) = d" "isDigit (digit_char d)" "\<not> isSpace (digit_char d)"
    "digit_char d \<noteq> CHR ''-''" "digit_char d \<noteq> CHR ''+''"
proof -
  have "list_all (\<lambda>d. digitValue (digit_char d) = d \<and> isDigit (digit_char d) \<and> \<not> isSpace (digit_char d) \<and>
      digit_char d \<noteq> CHR ''-'' \<and> digit_char d \<noteq> CHR ''+'') [0..<10]"
    by code_simp
  moreover have "d \<in> set [0..<10]" using assms by simp
  ultimately show "digitValue (digit_char d) = d" "isDigit (digit_char d)" "\<not> isSpace (digit_char d)"
    "digit_char d \<noteq> CHR ''-''" "digit_char d \<noteq> CHR ''+''"
    unfolding list_all_iff by blast+
qed

lemma digitsToNat_rev: "list_all (\<lambda>d. d < 10) ds \<Longrightarrow> digitsToNat (map digit_char (rev ds)) = digits_value ds"
  by (induction ds) (simp_all add: digitsToNat_def digit_char_props)

lemma digits_list_all: "list_all (\<lambda>d. d < 10) (digits_rev n)"
  by (simp add: list_all_iff digits_rev_less)

lemma digitsToNat_decimal: "digitsToNat (decimal n) = n"
  unfolding decimal_def using digitsToNat_rev[OF digits_list_all] by (simp add: digits_value_rev)

lemma decimal_chars: "c \<in> set (decimal n) \<Longrightarrow> \<exists>d<10. c = digit_char d"
  by (auto simp: decimal_def dest: digits_rev_less)

lemma decimal_nonempty: "decimal n \<noteq> []"
  by (simp add: decimal_def digits_rev.simps[of n])

lemma scanInt_decimal:
  assumes "fits 64 (int n)"
  shows "scanInt (decimal n) = Some (int n)"
proof -
  obtain c cs where d: "decimal n = c # cs" using decimal_nonempty[of n] by (cases "decimal n") auto
  then have "c \<in> set (decimal n)" by simp
  then have c: "\<not> isSpace c" "c \<noteq> CHR ''-''" "c \<noteq> CHR ''+''"
    using decimal_chars[of c n] digit_char_props by auto
  have "takeWhile isDigit (decimal n) = decimal n"
    using decimal_chars[of _ n] digit_char_props(2) by (auto simp: takeWhile_eq_all_conv)
  then show ?thesis using assms c d digitsToNat_decimal[of n] by (simp add: scanInt_def Let_def)
qed

text \<open>C32: A duration written into the grpc-timeout header and read back, by the parser this proxy uses,
  is never longer than the duration and loses less than a microsecond below a millisecond, and less
  than a millisecond otherwise.\<close>

theorem grpc_timeout_round_trip:
  assumes "0 \<le> d" and "fits 64 d"
  shows "\<exists>d'. parseGRPCTimeout (formatGRPCTimeout d) = Some d' \<and> d' \<le> d \<and>
    d - d' < (if d < 10 ^ 6 then 1000 else 10 ^ 6)"
proof -
  have encoded: "parseGRPCTimeout (itoaInt (quot d u) @ [c]) = Some (quot d u * u) \<and>
      quot d u * u \<le> d \<and> d - quot d u * u < u"
    if u: "grpcUnit c = Some u" "0 < u" for c u
  proof -
    have q: "quot d u = d div u" "0 \<le> d div u" using assms that by (simp_all add: quot_nonneg pos_imp_zdiv_nonneg_iff)
    have mult: "d div u * u \<le> d" using div_mult_mod_eq[of d u] pos_mod_sign[of u d] that(2) by linarith
    have nonneg: "0 \<le> d div u * u" using that(2) q(2) by simp
    have le: "d div u \<le> d" using mult_left_mono[of 1 u "d div u"] that(2) q(2) mult by simp
    have fits: "fits 64 (int (nat (d div u)))" "fits 64 (d div u * u)"
      using assms(2) q(2) le mult nonneg by (simp_all add: fits_def)
    have "d - d div u * u = d mod u" by (simp add: minus_div_mult_eq_mod)
    moreover have "d mod u < u" using that(2) by simp
    moreover have "decimal (nat (d div u)) \<noteq> []" by (rule decimal_nonempty)
    ultimately show ?thesis
      using scanInt_decimal[OF fits(1)] fits(2) mult q that
      by (simp add: parseGRPCTimeout_def itoaInt_def swrap_id)
  qed
  have small: "quot d 1000 < 1000 \<longleftrightarrow> d < 10 ^ 6" using assms(1) by (simp add: quot_nonneg) linarith
  show ?thesis
  proof (cases "d < 10 ^ 6")
    case True
    with encoded[of "CHR ''u''" 1000] small show ?thesis
      by (simp add: grpcUnit_def formatGRPCTimeout_def Let_def)
  next
    case False
    with encoded[of "CHR ''m''" "10 ^ 6"] small show ?thesis
      by (simp add: grpcUnit_def millisecond_def formatGRPCTimeout_def Let_def)
  qed
qed

theorem grpc_timeout_round_trip_witness:
  "(0::int) \<le> 2500000 \<and> fits 64 2500000 \<and>
   (\<exists>d'. parseGRPCTimeout (formatGRPCTimeout 2500000) = Some d' \<and> d' \<le> 2500000 \<and> 2500000 - d' < 10 ^ 6)"
  using grpc_timeout_round_trip[of 2500000] by (simp add: fits_def)

end
