(* ===== verification/Metrics.thy ===== *)
theory Metrics
  imports Pool Http
begin

text \<open>
  The metrics collector of a listener (\<^verbatim>\<open>server/internal/proxy/metrics.go\<close>). Prometheus is not modelled: the
  collector is the list of metric vectors it registered and the list of calls it makes on them, in
  order. A call selects a child by its label values, as \<^verbatim>\<open>WithLabelValues\<close> does, and then changes it.
  Byte counts and states are converted to float64 by the source; here they stay integers.
\<close>

datatype vec_kind = CounterVec | GaugeVec | HistogramVec

record vec =
  vec_Name :: string
  vec_Kind :: vec_kind
  vec_Labels :: "string list"

datatype vec_op = VInc | VDec | VAdd int | VSet int | VObserve duration

record vec_call =
  vc_Name :: string
  vc_Values :: "string list"
  vc_Op :: vec_op

record MetricsCollector =
  mc_cfg :: ListenerMetrics
  mc_vecs :: "vec list"
  mc_calls :: "vec_call list"
  mc_pools :: "string \<rightharpoonup> DestinationPool"

definition mkVec :: "vec_kind \<Rightarrow> string \<Rightarrow> string list \<Rightarrow> vec" where
  "mkVec k name labels = \<lparr>vec_Name = name, vec_Kind = k, vec_Labels = labels\<rparr>"

definition routeVecs :: "vec list" where
  "routeVecs =
     [mkVec CounterVec ''vrata_route_requests_total''
        [''route'', ''group'', ''method'', ''status_code'', ''status_class''],
      mkVec HistogramVec ''vrata_route_duration_seconds'' [''route'', ''group'', ''method''],
      mkVec CounterVec ''vrata_route_request_bytes_total'' [''route'', ''group''],
      mkVec CounterVec ''vrata_route_response_bytes_total'' [''route'', ''group''],
      mkVec GaugeVec ''vrata_route_inflight_requests'' [''route'', ''group''],
      mkVec CounterVec ''vrata_route_retries_total'' [''route'', ''group'', ''attempt''],
      mkVec CounterVec ''vrata_mirror_requests_total'' [''route'', ''destination'']]"

definition destVecs :: "vec list" where
  "destVecs =
     [mkVec CounterVec ''vrata_destination_requests_total'' [''destination'', ''status_code'', ''status_class''],
      mkVec HistogramVec ''vrata_destination_duration_seconds'' [''destination''],
      mkVec GaugeVec ''vrata_destination_inflight_requests'' [''destination''],
      mkVec GaugeVec ''vrata_destination_circuit_breaker_state'' [''destination'']]"

definition epVecs :: "vec list" where
  "epVecs =
     [mkVec CounterVec ''vrata_endpoint_requests_total''
        [''destination'', ''endpoint'', ''status_code'', ''status_class''],
      mkVec HistogramVec ''vrata_endpoint_duration_seconds'' [''destination'', ''endpoint''],
      mkVec GaugeVec ''vrata_endpoint_healthy'' [''destination'', ''endpoint''],
      mkVec GaugeVec ''vrata_endpoint_consecutive_5xx'' [''destination'', ''endpoint'']]"

definition mwVecs :: "vec list" where
  "mwVecs =
     [mkVec HistogramVec ''vrata_middleware_duration_seconds'' [''middleware'', ''type''],
      mkVec CounterVec ''vrata_middleware_rejections_total'' [''middleware'', ''type'', ''status_code''],
      mkVec CounterVec ''vrata_middleware_passed_total'' [''middleware'', ''type'']]"

definition listenerVecs :: "vec list" where
  "listenerVecs =
     [mkVec CounterVec ''vrata_listener_connections_total'' [''listener'', ''address''],
      mkVec GaugeVec ''vrata_listener_active_connections'' [''listener'', ''address''],
      mkVec CounterVec ''vrata_listener_tls_handshake_errors_total'' [''listener'', ''address'']]"

definition registeredVecs :: "ListenerMetrics \<Rightarrow> vec list" where
  "registeredVecs c =
     (if CollectRoute c then routeVecs else []) @ (if CollectDestination c then destVecs else []) @
     (if CollectEndpoint c then epVecs else []) @ (if CollectMiddleware c then mwVecs else []) @
     (if CollectListener c then listenerVecs else [])"

definition NewMetricsCollector :: "ListenerMetrics option \<Rightarrow> MetricsCollector option" where
  "NewMetricsCollector cfg =
     (case cfg of
        None \<Rightarrow> None
      | Some c \<Rightarrow> Some
          \<lparr>mc_cfg = c, mc_vecs = registeredVecs c, mc_calls = [], mc_pools = Map.empty\<rparr>)"

text \<open>A vector that is not registered is a nil pointer of the source.\<close>

definition hasVec :: "MetricsCollector \<Rightarrow> string \<Rightarrow> bool" where
  "hasVec mc name = list_ex (\<lambda>v. vec_Name v = name) (mc_vecs mc)"

definition call :: "string \<Rightarrow> string list \<Rightarrow> vec_op \<Rightarrow> MetricsCollector \<Rightarrow> MetricsCollector" where
  "call name vals op mc =
     mc\<lparr>mc_calls := mc_calls mc @ [\<lparr>vc_Name = name, vc_Values = vals, vc_Op = op\<rparr>]\<rparr>"

definition UpdatePools :: "(string \<rightharpoonup> DestinationPool) \<Rightarrow> MetricsCollector \<Rightarrow> MetricsCollector" where
  "UpdatePools pools mc = mc\<lparr>mc_pools := pools\<rparr>"

definition circuitStateValue :: "CircuitState \<Rightarrow> int" where
  "circuitStateValue s = (case s of CircuitClosed \<Rightarrow> 0 | CircuitOpen \<Rightarrow> 1 | CircuitHalfOpen \<Rightarrow> 2)"

definition scrapeEndpoint :: "heap \<Rightarrow> string \<Rightarrow> MetricsCollector \<Rightarrow> addr \<Rightarrow> MetricsCollector" where
  "scrapeEndpoint hp destID mc a =
     (if hasVec mc ''vrata_endpoint_healthy'' then
        call ''vrata_endpoint_healthy'' [destID, epID hp a] (VSet (if isHealthy hp a then 1 else 0)) mc
      else mc)"

definition scrapePool :: "heap \<Rightarrow> MetricsCollector \<Rightarrow> DestinationPool \<Rightarrow> MetricsCollector" where
  "scrapePool hp mc pool =
     (let destID = Destination_ID (pool_Destination pool);
          mc = (case pool_CircuitBreaker pool of
                  None \<Rightarrow> mc
                | Some cb \<Rightarrow>
                    if hasVec mc ''vrata_destination_circuit_breaker_state'' then
                      call ''vrata_destination_circuit_breaker_state'' [destID]
                        (VSet (circuitStateValue (cb_state cb))) mc
                    else mc)
      in if hasVec mc ''vrata_endpoint_healthy'' \<or> hasVec mc ''vrata_endpoint_consecutive_5xx'' then
           foldl (scrapeEndpoint hp destID) mc (pool_Endpoints pool)
         else mc)"

definition scrapeGauges :: "heap \<Rightarrow> string list \<Rightarrow> MetricsCollector \<Rightarrow> MetricsCollector" where
  "scrapeGauges hp keys mc = foldl (scrapePool hp) mc (List.map_filter (mc_pools mc) keys)"

definition statusClass :: "int \<Rightarrow> string" where
  "statusClass code =
     (if code < 200 then ''1xx'' else if code < 300 then ''2xx'' else if code < 400 then ''3xx''
      else if code < 500 then ''4xx'' else ''5xx'')"

definition RecordRoute ::
  "string \<Rightarrow> string \<Rightarrow> string \<Rightarrow> int \<Rightarrow> duration \<Rightarrow> int \<Rightarrow> int \<Rightarrow> MetricsCollector \<Rightarrow> MetricsCollector" where
  "RecordRoute route groupName meth statusCode dur reqBytes respBytes mc =
     (if \<not> hasVec mc ''vrata_route_requests_total'' then mc
      else call ''vrata_route_response_bytes_total'' [route, groupName] (VAdd respBytes)
           (call ''vrata_route_request_bytes_total'' [route, groupName] (VAdd reqBytes)
           (call ''vrata_route_duration_seconds'' [route, groupName, meth] (VObserve dur)
           (call ''vrata_route_requests_total'' [route, groupName, meth, itoaInt statusCode, statusClass statusCode] VInc
              mc))))"

definition RouteInflightInc :: "string \<Rightarrow> string \<Rightarrow> MetricsCollector \<Rightarrow> MetricsCollector" where
  "RouteInflightInc route groupName mc =
     (if hasVec mc ''vrata_route_inflight_requests'' then
        call ''vrata_route_inflight_requests'' [route, groupName] VInc mc else mc)"

definition RouteInflightDec :: "string \<Rightarrow> string \<Rightarrow> MetricsCollector \<Rightarrow> MetricsCollector" where
  "RouteInflightDec route groupName mc =
     (if hasVec mc ''vrata_route_inflight_requests'' then
        call ''vrata_route_inflight_requests'' [route, groupName] VDec mc else mc)"

definition RecordRetry :: "string \<Rightarrow> string \<Rightarrow> nat \<Rightarrow> MetricsCollector \<Rightarrow> MetricsCollector" where
  "RecordRetry route groupName attempt mc =
     (if hasVec mc ''vrata_route_retries_total'' then
        call ''vrata_route_retries_total'' [route, groupName, decimal attempt] VInc mc else mc)"

definition RecordMirror :: "string \<Rightarrow> string \<Rightarrow> MetricsCollector \<Rightarrow> MetricsCollector" where
  "RecordMirror route destination mc =
     (if hasVec mc ''vrata_mirror_requests_total'' then
        call ''vrata_mirror_requests_total'' [route, destination] VInc mc else mc)"

definition RecordDestination :: "string \<Rightarrow> int \<Rightarrow> duration \<Rightarrow> MetricsCollector \<Rightarrow> MetricsCollector" where
  "RecordDestination destination statusCode dur mc =
     (if \<not> hasVec mc ''vrata_destination_requests_total'' then mc
      else call ''vrata_destination_duration_seconds'' [destination] (VObserve dur)
           (call ''vrata_destination_requests_total'' [destination, itoaInt statusCode, statusClass statusCode] VInc mc))"

definition DestInflightInc :: "string \<Rightarrow> MetricsCollector \<Rightarrow> MetricsCollector" where
  "DestInflightInc destination mc =
     (if hasVec mc ''vrata_destination_inflight_requests'' then
        call ''vrata_destination_inflight_requests'' [destination] VInc mc else mc)"

definition DestInflightDec :: "string \<Rightarrow> MetricsCollector \<Rightarrow> MetricsCollector" where
  "DestInflightDec destination mc =
     (if hasVec mc ''vrata_destination_inflight_requests'' then
        call ''vrata_destination_inflight_requests'' [destination] VDec mc else mc)"

definition RecordEndpoint :: "string \<Rightarrow> string \<Rightarrow> int \<Rightarrow> duration \<Rightarrow> MetricsCollector \<Rightarrow> MetricsCollector" where
  "RecordEndpoint destination endpoint statusCode dur mc =
     (if \<not> hasVec mc ''vrata_endpoint_requests_total'' then mc
      else call ''vrata_endpoint_duration_seconds'' [destination, endpoint] (VObserve dur)
           (call ''vrata_endpoint_requests_total''
              [destination, endpoint, itoaInt statusCode, statusClass statusCode] VInc mc))"

definition RecordMiddleware ::
  "string \<Rightarrow> string \<Rightarrow> duration \<Rightarrow> int \<Rightarrow> bool \<Rightarrow> MetricsCollector \<Rightarrow> MetricsCollector" where
  "RecordMiddleware name mwType dur statusCode passed mc =
     (if \<not> hasVec mc ''vrata_middleware_duration_seconds'' then mc
      else let mc = call ''vrata_middleware_duration_seconds'' [name, mwType] (VObserve dur) mc in
           if passed then call ''vrata_middleware_passed_total'' [name, mwType] VInc mc
           else call ''vrata_middleware_rejections_total'' [name, mwType, itoaInt statusCode] VInc mc)"

definition RecordListenerConnection :: "string \<Rightarrow> string \<Rightarrow> MetricsCollector \<Rightarrow> MetricsCollector" where
  "RecordListenerConnection listener address mc =
     (if hasVec mc ''vrata_listener_connections_total'' then
        call ''vrata_listener_connections_total'' [listener, address] VInc mc else mc)"

definition ListenerActiveInc :: "string \<Rightarrow> string \<Rightarrow> MetricsCollector \<Rightarrow> MetricsCollector" where
  "ListenerActiveInc listener address mc =
     (if hasVec mc ''vrata_listener_active_connections'' then
        call ''vrata_listener_active_connections'' [listener, address] VInc mc else mc)"

definition ListenerActiveDec :: "string \<Rightarrow> string \<Rightarrow> MetricsCollector \<Rightarrow> MetricsCollector" where
  "ListenerActiveDec listener address mc =
     (if hasVec mc ''vrata_listener_active_connections'' then
        call ''vrata_listener_active_connections'' [listener, address] VDec mc else mc)"

definition RecordTLSError :: "string \<Rightarrow> string \<Rightarrow> MetricsCollector \<Rightarrow> MetricsCollector" where
  "RecordTLSError listener address mc =
     (if hasVec mc ''vrata_listener_tls_handshake_errors_total'' then
        call ''vrata_listener_tls_handshake_errors_total'' [listener, address] VInc mc else mc)"

definition mc_Path :: "MetricsCollector \<Rightarrow> string" where
  "mc_Path mc = ResolvedPath (mc_cfg mc)"

definition FormatDestEndpoint :: "string \<Rightarrow> uint32 \<Rightarrow> string" where
  "FormatDestEndpoint host port = host @ '':'' @ decimal (unat port)"

subsection \<open>Typing of the calls\<close>

datatype mc_event =
  EvRoute string string string int duration int int
| EvRouteInc string string
| EvRouteDec string string
| EvRetry string string nat
| EvMirror string string
| EvDestination string int duration
| EvDestInc string
| EvDestDec string
| EvEndpoint string string int duration
| EvMiddleware string string duration int bool
| EvConnection string string
| EvActiveInc string string
| EvActiveDec string string
| EvTLSError string string
| EvPools "string \<rightharpoonup> DestinationPool"
| EvScrape heap "string list"

fun mc_exec :: "MetricsCollector \<Rightarrow> mc_event \<Rightarrow> MetricsCollector" where
  "mc_exec mc (EvRoute r g m c d i out) = RecordRoute r g m c d i out mc"
| "mc_exec mc (EvRouteInc r g) = RouteInflightInc r g mc"
| "mc_exec mc (EvRouteDec r g) = RouteInflightDec r g mc"
| "mc_exec mc (EvRetry r g n) = RecordRetry r g n mc"
| "mc_exec mc (EvMirror r d) = RecordMirror r d mc"
| "mc_exec mc (EvDestination d c t) = RecordDestination d c t mc"
| "mc_exec mc (EvDestInc d) = DestInflightInc d mc"
| "mc_exec mc (EvDestDec d) = DestInflightDec d mc"
| "mc_exec mc (EvEndpoint d e c t) = RecordEndpoint d e c t mc"
| "mc_exec mc (EvMiddleware n k t c p) = RecordMiddleware n k t c p mc"
| "mc_exec mc (EvConnection l a) = RecordListenerConnection l a mc"
| "mc_exec mc (EvActiveInc l a) = ListenerActiveInc l a mc"
| "mc_exec mc (EvActiveDec l a) = ListenerActiveDec l a mc"
| "mc_exec mc (EvTLSError l a) = RecordTLSError l a mc"
| "mc_exec mc (EvPools ps) = UpdatePools ps mc"
| "mc_exec mc (EvScrape hp ks) = scrapeGauges hp ks mc"

fun sizes_ok :: "mc_event \<Rightarrow> bool" where
  "sizes_ok (EvRoute r g m c d i out) \<longleftrightarrow> 0 \<le> i \<and> 0 \<le> out"
| "sizes_ok _ \<longleftrightarrow> True"

text \<open>
  What the library accepts: the vector is registered, there is one value per label, the operation
  exists for its kind, and a counter does not decrease. Anything else panics there.
\<close>

fun op_fits :: "vec_kind \<Rightarrow> vec_op \<Rightarrow> bool" where
  "op_fits CounterVec VInc \<longleftrightarrow> True"
| "op_fits CounterVec (VAdd n) \<longleftrightarrow> 0 \<le> n"
| "op_fits GaugeVec VInc \<longleftrightarrow> True"
| "op_fits GaugeVec VDec \<longleftrightarrow> True"
| "op_fits GaugeVec (VSet n) \<longleftrightarrow> True"
| "op_fits HistogramVec (VObserve d) \<longleftrightarrow> True"
| "op_fits _ _ \<longleftrightarrow> False"

definition call_ok :: "vec list \<Rightarrow> vec_call \<Rightarrow> bool" where
  "call_ok vs c = list_ex (\<lambda>v. vec_Name v = vc_Name c \<and> length (vec_Labels v) = length (vc_Values c) \<and>
     op_fits (vec_Kind v) (vc_Op c)) vs"

lemmas vec_tables = registeredVecs_def routeVecs_def destVecs_def epVecs_def mwVecs_def listenerVecs_def mkVec_def

lemmas recorders =
  RecordRoute_def RouteInflightInc_def RouteInflightDec_def RecordRetry_def RecordMirror_def RecordDestination_def
  DestInflightInc_def DestInflightDec_def RecordEndpoint_def RecordMiddleware_def RecordListenerConnection_def
  ListenerActiveInc_def ListenerActiveDec_def RecordTLSError_def UpdatePools_def

text \<open>Which vectors a collector has is decided by the flags of its configuration.\<close>

definition typed :: "ListenerMetrics \<Rightarrow> MetricsCollector \<Rightarrow> bool" where
  "typed c mc \<longleftrightarrow> mc_vecs mc = registeredVecs c \<and> list_all (call_ok (registeredVecs c)) (mc_calls mc)"

lemma typed_call:
  "typed c mc \<Longrightarrow> call_ok (registeredVecs c) \<lparr>vc_Name = n, vc_Values = vals, vc_Op = op\<rparr> \<Longrightarrow>
   typed c (call n vals op mc)"
  by (simp add: typed_def call_def)

lemma hasVec_call [simp]: "hasVec (call n vals op mc) = hasVec mc"
  by (simp add: hasVec_def call_def fun_eq_iff)

lemma hasVec_flags:
  assumes "typed c mc"
  shows "hasVec mc ''vrata_route_requests_total'' \<longleftrightarrow> CollectRoute c"
    "hasVec mc ''vrata_route_inflight_requests'' \<longleftrightarrow> CollectRoute c"
    "hasVec mc ''vrata_route_retries_total'' \<longleftrightarrow> CollectRoute c"
    "hasVec mc ''vrata_mirror_requests_total'' \<longleftrightarrow> CollectRoute c"
    "hasVec mc ''vrata_destination_requests_total'' \<longleftrightarrow> CollectDestination c"
    "hasVec mc ''vrata_destination_inflight_requests'' \<longleftrightarrow> CollectDestination c"
    "hasVec mc ''vrata_destination_circuit_breaker_state'' \<longleftrightarrow> CollectDestination c"
    "hasVec mc ''vrata_endpoint_requests_total'' \<longleftrightarrow> CollectEndpoint c"
    "hasVec mc ''vrata_endpoint_healthy'' \<longleftrightarrow> CollectEndpoint c"
    "hasVec mc ''vrata_middleware_duration_seconds'' \<longleftrightarrow> CollectMiddleware c"
    "hasVec mc ''vrata_listener_connections_total'' \<longleftrightarrow> CollectListener c"
    "hasVec mc ''vrata_listener_active_connections'' \<longleftrightarrow> CollectListener c"
    "hasVec mc ''vrata_listener_tls_handshake_errors_total'' \<longleftrightarrow> CollectListener c"
  using assms by (simp_all add: typed_def hasVec_def vec_tables)

lemma calls_ok:
  "CollectRoute c \<Longrightarrow> call_ok (registeredVecs c)
     \<lparr>vc_Name = ''vrata_route_requests_total'', vc_Values = [l1, l2, l3, l4, l5], vc_Op = VInc\<rparr>"
  "CollectRoute c \<Longrightarrow> call_ok (registeredVecs c)
     \<lparr>vc_Name = ''vrata_route_duration_seconds'', vc_Values = [l1, l2, l3], vc_Op = VObserve d\<rparr>"
  "CollectRoute c \<Longrightarrow> 0 \<le> n \<Longrightarrow> call_ok (registeredVecs c)
     \<lparr>vc_Name = ''vrata_route_request_bytes_total'', vc_Values = [l1, l2], vc_Op = VAdd n\<rparr>"
  "CollectRoute c \<Longrightarrow> 0 \<le> n \<Longrightarrow> call_ok (registeredVecs c)
     \<lparr>vc_Name = ''vrata_route_response_bytes_total'', vc_Values = [l1, l2], vc_Op = VAdd n\<rparr>"
  "CollectRoute c \<Longrightarrow> op = VInc \<or> op = VDec \<Longrightarrow> call_ok (registeredVecs c)
     \<lparr>vc_Name = ''vrata_route_inflight_requests'', vc_Values = [l1, l2], vc_Op = op\<rparr>"
  "CollectRoute c \<Longrightarrow> call_ok (registeredVecs c)
     \<lparr>vc_Name = ''vrata_route_retries_total'', vc_Values = [l1, l2, l3], vc_Op = VInc\<rparr>"
  "CollectRoute c \<Longrightarrow> call_ok (registeredVecs c)
     \<lparr>vc_Name = ''vrata_mirror_requests_total'', vc_Values = [l1, l2], vc_Op = VInc\<rparr>"
  "CollectDestination c \<Longrightarrow> call_ok (registeredVecs c)
     \<lparr>vc_Name = ''vrata_destination_requests_total'', vc_Values = [l1, l2, l3], vc_Op = VInc\<rparr>"
  "CollectDestination c \<Longrightarrow> call_ok (registeredVecs c)
     \<lparr>vc_Name = ''vrata_destination_duration_seconds'', vc_Values = [l1], vc_Op = VObserve d\<rparr>"
  "CollectDestination c \<Longrightarrow> op = VInc \<or> op = VDec \<Longrightarrow> call_ok (registeredVecs c)
     \<lparr>vc_Name = ''vrata_destination_inflight_requests'', vc_Values = [l1], vc_Op = op\<rparr>"
  "CollectDestination c \<Longrightarrow> call_ok (registeredVecs c)
     \<lparr>vc_Name = ''vrata_destination_circuit_breaker_state'', vc_Values = [l1], vc_Op = VSet n\<rparr>"
  "CollectEndpoint c \<Longrightarrow> call_ok (registeredVecs c)
     \<lparr>vc_Name = ''vrata_endpoint_requests_total'', vc_Values = [l1, l2, l3, l4], vc_Op = VInc\<rparr>"
  "CollectEndpoint c \<Longrightarrow> call_ok (registeredVecs c)
     \<lparr>vc_Name = ''vrata_endpoint_duration_seconds'', vc_Values = [l1, l2], vc_Op = VObserve d\<rparr>"
  "CollectEndpoint c \<Longrightarrow> call_ok (registeredVecs c)
     \<lparr>vc_Name = ''vrata_endpoint_healthy'', vc_Values = [l1, l2], vc_Op = VSet n\<rparr>"
  "CollectMiddleware c \<Longrightarrow> call_ok (registeredVecs c)
     \<lparr>vc_Name = ''vrata_middleware_duration_seconds'', vc_Values = [l1, l2], vc_Op = VObserve d\<rparr>"
  "CollectMiddleware c \<Longrightarrow> call_ok (registeredVecs c)
     \<lparr>vc_Name = ''vrata_middleware_rejections_total'', vc_Values = [l1, l2, l3], vc_Op = VInc\<rparr>"
  "CollectMiddleware c \<Longrightarrow> call_ok (registeredVecs c)
     \<lparr>vc_Name = ''vrata_middleware_passed_total'', vc_Values = [l1, l2], vc_Op = VInc\<rparr>"
  "CollectListener c \<Longrightarrow> call_ok (registeredVecs c)
     \<lparr>vc_Name = ''vrata_listener_connections_total'', vc_Values = [l1, l2], vc_Op = VInc\<rparr>"
  "CollectListener c \<Longrightarrow> op = VInc \<or> op = VDec \<Longrightarrow> call_ok (registeredVecs c)
     \<lparr>vc_Name = ''vrata_listener_active_connections'', vc_Values = [l1, l2], vc_Op = op\<rparr>"
  "CollectListener c \<Longrightarrow> call_ok (registeredVecs c)
     \<lparr>vc_Name = ''vrata_listener_tls_handshake_errors_total'', vc_Values = [l1, l2], vc_Op = VInc\<rparr>"
  by (auto simp: call_ok_def vec_tables)

lemma typed_scrapeEndpoint: "typed c mc \<Longrightarrow> typed c (scrapeEndpoint hp d mc a)"
  by (simp add: scrapeEndpoint_def hasVec_flags calls_ok typed_call)

lemma typed_scrapeEndpoints: "typed c mc \<Longrightarrow> typed c (foldl (scrapeEndpoint hp d) mc as)"
  by (induction as arbitrary: mc) (simp_all add: typed_scrapeEndpoint)

lemma typed_scrapePool: "typed c mc \<Longrightarrow> typed c (scrapePool hp mc pool)"
  by (simp add: scrapePool_def Let_def hasVec_flags calls_ok typed_call typed_scrapeEndpoints split: option.split)

lemma typed_scrapePools: "typed c mc \<Longrightarrow> typed c (foldl (scrapePool hp) mc ps)"
  by (induction ps arbitrary: mc) (simp_all add: typed_scrapePool)

lemma typed_exec:
  assumes "typed c mc" and "sizes_ok ev"
  shows "typed c (mc_exec mc ev)"
proof (cases ev)
  case (EvPools ps)
  with assms show ?thesis by (simp add: UpdatePools_def typed_def)
next
  case (EvScrape hp ks)
  with assms show ?thesis by (simp add: scrapeGauges_def typed_scrapePools)
qed (use assms in \<open>simp_all add: recorders Let_def hasVec_flags calls_ok typed_call\<close>)

lemma typed_run: "typed c mc \<Longrightarrow> list_all sizes_ok evs \<Longrightarrow> typed c (foldl mc_exec mc evs)"
  by (induction evs arbitrary: mc) (simp_all add: typed_exec)

lemma registered_distinct: "distinct (map vec_Name (registeredVecs c))"
proof -
  have "distinct (map vec_Name (routeVecs @ destVecs @ epVecs @ mwVecs @ listenerVecs))"
    by (simp add: routeVecs_def destVecs_def epVecs_def mwVecs_def listenerVecs_def mkVec_def)
  then show ?thesis unfolding registeredVecs_def map_append distinct_append
    by (simp add: disjoint_iff)
qed

text \<open>C31: A collector made for a configuration registers vectors with pairwise different names, and
  through any sequence of recordings and scrapes with non-negative sizes every call it makes is one
  the library accepts: on a registered vector, with one value for each of its labels, by an operation
  of its kind, and never decreasing a counter.\<close>

theorem metric_calls_typed:
  assumes "NewMetricsCollector (Some cfg) = Some mc" and "list_all sizes_ok evs"
  shows "distinct (map vec_Name (mc_vecs mc)) \<and>
    list_all (call_ok (mc_vecs mc)) (mc_calls (foldl mc_exec mc evs))"
proof -
  from assms(1) have mc: "mc = \<lparr>mc_cfg = cfg, mc_vecs = registeredVecs cfg, mc_calls = [], mc_pools = Map.empty\<rparr>"
    by (simp add: NewMetricsCollector_def)
  then have "typed cfg mc" by (simp add: typed_def)
  from typed_run[OF this assms(2)] have "list_all (call_ok (registeredVecs cfg)) (mc_calls (foldl mc_exec mc evs))"
    by (simp add: typed_def)
  moreover have "distinct (map vec_Name (mc_vecs mc))"
    unfolding mc using registered_distinct by simp
  ultimately show ?thesis unfolding mc by simp
qed

definition sampleMetrics :: ListenerMetrics where
  "sampleMetrics = \<lparr>ListenerMetrics_Path = '''', ListenerMetrics_Collect = None, ListenerMetrics_Histograms = None\<rparr>"

theorem metric_calls_typed_witness:
  "\<exists>mc. NewMetricsCollector (Some sampleMetrics) = Some mc \<and>
     list_all sizes_ok [EvRouteInc ''r'' ''g'', EvRoute ''r'' ''g'' ''GET'' 200 5 0 7] \<and>
     list_all (call_ok (mc_vecs mc))
       (mc_calls (foldl mc_exec mc [EvRouteInc ''r'' ''g'', EvRoute ''r'' ''g'' ''GET'' 200 5 0 7]))"
proof -
  obtain mc where mc: "NewMetricsCollector (Some sampleMetrics) = Some mc"
    by (simp add: NewMetricsCollector_def)
  have sizes: "list_all sizes_ok [EvRouteInc ''r'' ''g'', EvRoute ''r'' ''g'' ''GET'' 200 5 0 7]" by simp
  from metric_calls_typed[OF mc sizes] mc sizes show ?thesis by blast
qed

end
