(* ===== verification/Forward.thy ===== *)
theory Forward
  imports Destination_Select Outlier Rewrite Metrics
begin

text \<open>
  Forwarding a request to an endpoint (\<^verbatim>\<open>server/internal/proxy/handler.go\<close>): \<^verbatim>\<open>forwardHandler\<close> with mirroring and
  the recording of results, and the handlers of redirects and direct responses. The reverse proxy of
  the standard library is translated as far as it is used: the outgoing request, the error handler
  and the copied response; upgrades, trailers and informational responses are left out. The upstream
  is a parameter, a function from the transport, the target, the timeouts, the number of the attempt and the
  request to an error or a response.
\<close>

subsection \<open>State\<close>

record 'st px =
  px_pools :: "string \<rightharpoonup> DestinationPool"
  px_heap :: heap
  px_outlier :: trackers
  px_session :: 'st
  px_collectors :: "nat \<rightharpoonup> MetricsCollector"
  px_sent :: "Request list"
  px_mirrored :: "(string \<times> string \<times> Request) list"

text \<open>
  What one request draws from its environment: the random choices and session identifiers of the two
  selection levels, clock readings, the formatted time of an error body, and the upstream.
  \<open>fe_bodyFails\<close> tells whether copying the body of a response fails, given whether its context is live.
\<close>

record 'st fenv =
  fe_dest :: "'st env"
  fe_ep :: "'st env"
  fe_sort :: "(ringNode \<Rightarrow> uint32) \<Rightarrow> ringNode list \<Rightarrow> ringNode list"
  fe_hashSid :: string
  fe_draw :: uint32
  fe_mirrorDraw :: uint32
  fe_allowAt :: time
  fe_doneAt :: time
  fe_upstreamDur :: duration
  fe_stamp :: string
  fe_int63n :: "nat \<Rightarrow> int \<Rightarrow> int"
  fe_readErr :: "Request \<Rightarrow> TransportError option"
  fe_send :: "Transport \<Rightarrow> duration option \<Rightarrow> nat \<Rightarrow> Request \<Rightarrow> TransportError + Response"
  fe_bodyFails :: "bool \<Rightarrow> Response \<Rightarrow> bool"
  fe_keys :: "header \<Rightarrow> string list"
  fe_replaceRe :: "string \<Rightarrow> (string \<Rightarrow> string \<Rightarrow> string) option"

definition setPool :: "DestinationPool \<Rightarrow> 'st px \<Rightarrow> 'st px" where
  "setPool pool s = s\<lparr>px_pools := (px_pools s)(Destination_ID (pool_Destination pool) \<mapsto> pool)\<rparr>"

definition modPool :: "string \<Rightarrow> (DestinationPool \<Rightarrow> DestinationPool) \<Rightarrow> 'st px \<Rightarrow> 'st px" where
  "modPool destID f s =
     (case px_pools s destID of None \<Rightarrow> s | Some pool \<Rightarrow> s\<lparr>px_pools := (px_pools s)(destID \<mapsto> f pool)\<rparr>)"

definition onBreaker :: "(CircuitBreaker \<Rightarrow> CircuitBreaker) \<Rightarrow> DestinationPool \<Rightarrow> DestinationPool" where
  "onBreaker f pool = pool\<lparr>pool_CircuitBreaker := map_option f (pool_CircuitBreaker pool)\<rparr>"

definition collect :: "nat list \<Rightarrow> (MetricsCollector \<Rightarrow> MetricsCollector) \<Rightarrow> 'st px \<Rightarrow> 'st px" where
  "collect ids f s =
     s\<lparr>px_collectors := foldl (\<lambda>m i. case m i of None \<Rightarrow> m | Some mc \<Rightarrow> m(i \<mapsto> f mc)) (px_collectors s) ids\<rparr>"

subsection \<open>Cookies\<close>

definition validCookieValueByte :: "char \<Rightarrow> bool" where
  "validCookieValueByte c \<longleftrightarrow>
     (32::nat) \<le> of_char c \<and> of_char c < (127::nat) \<and> c \<noteq> CHR 34 \<and> c \<noteq> CHR '';'' \<and> c \<noteq> CHR 92"

definition cookieValue :: "string \<Rightarrow> string" where
  "cookieValue v =
     (let v = filter validCookieValueByte v in
      if CHR '' '' \<in> set v \<or> CHR '','' \<in> set v then CHR 34 # v @ [CHR 34] else v)"

definition cookieString :: "Cookie \<Rightarrow> string" where
  "cookieString c =
     (if Cookie_Name c = '''' \<or> \<not> list_all validHeaderFieldByte (Cookie_Name c) then ''''
      else Cookie_Name c @ ''='' @ cookieValue (Cookie_Value c) @
        (if Cookie_Path c \<noteq> '''' then ''; Path='' @ Cookie_Path c else '''') @
        (if Cookie_MaxAge c > 0 then ''; Max-Age='' @ itoaInt (Cookie_MaxAge c)
         else if Cookie_MaxAge c < 0 then ''; Max-Age=0'' else '''') @
        (if Cookie_HttpOnly c then ''; HttpOnly'' else '''') @
        (if Cookie_SameSiteLax c then ''; SameSite=Lax'' else ''''))"

definition setCookie :: "RW \<Rightarrow> Cookie \<Rightarrow> RW" where
  "setCookie w c =
     (if cookieString c = '''' then w
      else w\<lparr>rw_header := headerAdd (rw_header w) ''Set-Cookie'' (cookieString c)\<rparr>)"

definition setCookies :: "RW \<Rightarrow> Cookie list \<Rightarrow> RW" where
  "setCookies w cs = foldl setCookie w cs"

subsection \<open>The reverse proxy\<close>

definition hopHeaders :: "string list" where
  "hopHeaders =
     [''Connection'', ''Proxy-Connection'', ''Keep-Alive'', ''Proxy-Authenticate'', ''Proxy-Authorization'',
      ''Te'', ''Trailer'', ''Transfer-Encoding'', ''Upgrade'']"

fun splitComma :: "string \<Rightarrow> string list" where
  "splitComma [] = [[]]"
| "splitComma (c # s) =
     (if c = CHR '','' then [] # splitComma s
      else case splitComma s of [] \<Rightarrow> [[c]] | f # fs \<Rightarrow> (c # f) # fs)"

definition connectionHeaders :: "header \<Rightarrow> string list" where
  "connectionHeaders h =
     filter (\<lambda>f. f \<noteq> '''') (map trimSpace (concat (map splitComma (headerValues h ''Connection''))))"

definition removeHopByHopHeaders :: "header \<Rightarrow> header" where
  "removeHopByHopHeaders h = foldl headerDel (foldl headerDel h (connectionHeaders h)) hopHeaders"

definition forwardedFor :: "Request \<Rightarrow> header \<Rightarrow> header" where
  "forwardedFor r h =
     (case splitHostPort (Req_RemoteAddr r) of
        None \<Rightarrow> h
      | Some (ip, port) \<Rightarrow>
          (let prior = headerValues h ''X-Forwarded-For'' in
           headerSet h ''X-Forwarded-For'' (if length prior > 0 then joinStr prior '', '' @ '', '' @ ip else ip)))"

definition outRequest :: "string \<times> string \<Rightarrow> Request \<Rightarrow> Request" where
  "outRequest target r =
     (let path = (if hasPrefix (Req_Path r) ''/'' then Req_Path r else ''/'' @ Req_Path r);
          h = forwardedFor r (removeHopByHopHeaders (Req_Header r));
          h = (if h (canonicalKey ''User-Agent'') = None then headerSet h ''User-Agent'' '''' else h)
      in r\<lparr>Req_Scheme := fst target, Req_URLHost := snd target, Req_Path := path, Req_Header := h,
           Req_Body := (if Req_ContentLength r = 0 then None else Req_Body r)\<rparr>)"

definition copyResponse :: "(bool \<Rightarrow> Response \<Rightarrow> bool) \<Rightarrow> bool \<Rightarrow> Response \<Rightarrow> (header \<Rightarrow> string list) \<Rightarrow> RW \<Rightarrow> RW go" where
  "copyResponse bodyFails live resp keys w =
     (let h = removeHopByHopHeaders (Resp_Header resp);
          w = w\<lparr>rw_header := foldl (\<lambda>d k. foldl (\<lambda>d v. headerAdd d k v) d (case h k of None \<Rightarrow> [] | Some vs \<Rightarrow> vs))
                               (rw_header w) (keys h)\<rparr>
      in case WriteHeader (Resp_Status resp) w of
           Inl p \<Rightarrow> Inl p
         | Inr w \<Rightarrow> if bodyFails live resp then Inl AbortHandler else Inr (Write (Raw (Resp_Body resp)) w))"

subsection \<open>Direct responses and redirects\<close>

definition directResponseHandler :: "RouteDirectResponse \<Rightarrow> 's handler" where
  "directResponseHandler dr =
     (\<lambda>r w s. (respond (uint (RouteDirectResponse_Status dr))
        (if RouteDirectResponse_Body dr \<noteq> '''' then [Raw (RouteDirectResponse_Body dr)] else []) w, s))"

text \<open>
  The target of a redirect. \<open>urlString\<close> is the rendering of a URL and \<open>redirect\<close> the library's \<^verbatim>\<open>http.Redirect\<close>
  after it has made the target absolute: it sets the location and writes a short page for GET and HEAD.
\<close>

definition redirectTarget :: "(Request \<Rightarrow> string) \<Rightarrow> RouteRedirect \<Rightarrow> Request \<Rightarrow> string" where
  "redirectTarget urlString rd r =
     (if RouteRedirect_URL rd \<noteq> '''' then RouteRedirect_URL rd
      else
        let u = r;
            u = (if RouteRedirect_Scheme rd \<noteq> '''' then u\<lparr>Req_Scheme := RouteRedirect_Scheme rd\<rparr> else u);
            u = (if RouteRedirect_Host rd \<noteq> '''' then u\<lparr>Req_URLHost := RouteRedirect_Host rd\<rparr> else u);
            u = (if RouteRedirect_Path rd \<noteq> '''' then u\<lparr>Req_Path := RouteRedirect_Path rd\<rparr> else u);
            u = (if RouteRedirect_StripQuery rd then u\<lparr>Req_RawQuery := ''''\<rparr> else u)
        in urlString u)"

definition redirectHandler ::
  "(Request \<Rightarrow> string) \<Rightarrow> (RW \<Rightarrow> Request \<Rightarrow> string \<Rightarrow> int \<Rightarrow> RW go) \<Rightarrow> RouteRedirect \<Rightarrow> 's handler" where
  "redirectHandler urlString redirect rd =
     (\<lambda>r w s. let code = (if RouteRedirect_Code rd = 0 then 301 else uint (RouteRedirect_Code rd)) in
        (redirect w r (redirectTarget urlString rd r) code, s))"

subsection \<open>Mirroring\<close>

text \<open>
  The request as it goes on, and the copy that is sent to the first endpoint of the mirror. The copy
  has a fresh context.
\<close>

definition mirrorRequest ::
  "'st fenv \<Rightarrow> RouteMirror \<Rightarrow> (string \<rightharpoonup> DestinationPool) \<Rightarrow> heap \<Rightarrow> Request \<Rightarrow> (string \<times> string \<times> Request) option" where
  "mirrorRequest fe mirror pools hp r =
     (let pct = RouteMirror_Percentage mirror in
      if 0 < pct \<and> pct < 100 \<and> fe_mirrorDraw fe mod 100 \<ge> pct then None
      else case pools (RouteMirror_DestinationID mirror) of
        None \<Rightarrow> None
      | Some pool \<Rightarrow>
          (case pool_Endpoints pool of
             [] \<Rightarrow> None
           | ep # eps \<Rightarrow>
               if Req_Body r \<noteq> None \<and> fe_readErr fe r \<noteq> None then None
               else Some (RouteMirror_DestinationID mirror, epID hp ep,
                          outRequest (ReverseProxyFor hp pool ep)
                            (r\<lparr>Req_BodyData := None, Req_Detail := None, Req_Metrics := []\<rparr>))))"

subsection \<open>Recording results\<close>

definition recordEndpointResult :: "'st fenv \<Rightarrow> addr \<Rightarrow> string \<Rightarrow> int \<Rightarrow> nat list \<Rightarrow> 'st px \<Rightarrow> 'st px" where
  "recordEndpointResult fe ep destID status collectors s =
     (let s = modPool destID (onBreaker (if status \<ge> 500 then RecordFailure (fe_doneAt fe) else RecordSuccess)) s;
          s = (case px_heap s ep of
                 None \<Rightarrow> s
               | Some e \<Rightarrow>
                   if ep_OnResponse e then
                     let (ts, hp) = RecordResponse (fe_doneAt fe) destID (ep_ID e) status (px_outlier s, px_heap s)
                     in s\<lparr>px_outlier := ts, px_heap := hp\<rparr>
                   else s)
      in collect collectors (\<lambda>mc. RecordEndpoint destID (epID (px_heap s) ep) status (fe_upstreamDur fe)
           (RecordDestination destID status (fe_upstreamDur fe) mc)) s)"

subsection \<open>Forwarding\<close>

definition requestTimeout :: "(string \<Rightarrow> duration option) \<Rightarrow> ForwardAction \<Rightarrow> Destination \<Rightarrow> duration" where
  "requestTimeout parseDuration fwd d =
     (let route = (case ForwardAction_Timeouts fwd of
                     None \<Rightarrow> 0
                   | Some t \<Rightarrow> if RouteTimeouts_Request t \<noteq> '''' then
                       case parseDuration (RouteTimeouts_Request t) of Some x \<Rightarrow> x | None \<Rightarrow> 0 else 0)
      in if route \<noteq> 0 then route
         else case Destination_Options d of
           None \<Rightarrow> 0
         | Some opt \<Rightarrow>
             (case DestinationOptions_Timeouts opt of
                None \<Rightarrow> 0
              | Some t \<Rightarrow> if DestinationTimeouts_Request t \<noteq> '''' then
                  case parseDuration (DestinationTimeouts_Request t) of Some x \<Rightarrow> x | None \<Rightarrow> 0 else 0))"

definition effectiveRetry :: "ForwardAction \<Rightarrow> RouteGroup option \<Rightarrow> RouteRetry option" where
  "effectiveRetry fwd group' =
     (case ForwardAction_Retry fwd of
        Some rt \<Rightarrow> Some rt
      | None \<Rightarrow> (case group' of None \<Rightarrow> None | Some g \<Rightarrow> RouteGroup_RetryDefault g))"

definition prepareRequest :: "'st fenv \<Rightarrow> ForwardAction \<Rightarrow> RouteGroup option \<Rightarrow> Request \<Rightarrow> Request" where
  "prepareRequest fe fwd group' r =
     (let r = (if (case group' of None \<Rightarrow> False | Some g \<Rightarrow> RouteGroup_IncludeAttemptCount g)
               then r\<lparr>Req_Header := headerSet (Req_Header r) ''X-Request-Attempt-Count'' ''1''\<rparr> else r)
      in capGRPCTimeout (env_parseDuration (fe_dest fe)) (ForwardAction_MaxGRPCTimeout fwd) r)"

fun retriesOf :: "rt_event list \<Rightarrow> nat list" where
  "retriesOf [] = []"
| "retriesOf (OnRetry n # evs) = n # retriesOf evs"
| "retriesOf (ev # evs) = retriesOf evs"

text \<open>What comes of the transport: a panic, a response to copy, or an error to report.\<close>

definition finishExchange ::
  "'st fenv \<Rightarrow> string \<Rightarrow> addr \<Rightarrow> ProxyEndpoint \<Rightarrow> duration \<Rightarrow> nat list \<Rightarrow> TransportError option rt_result \<Rightarrow>
   'st px handler" where
  "finishExchange fe destID ep e timeout collectors res r w s =
     (let fail = (\<lambda>t status msg. \<lparr>pe_Type = t, pe_Status = status, pe_Destination = destID,
                    pe_Endpoint = ep_ID e, pe_Message = msg\<rparr>)
      in case res of
           Inl p \<Rightarrow> (Inl p, s)
         | Inr (Inr (resp, live)) \<Rightarrow>
             (case copyResponse (fe_bodyFails fe) live resp (fe_keys fe) w of
                Inl p \<Rightarrow> (Inl p, s)
              | Inr w \<Rightarrow> (Inr w, recordEndpointResult fe ep destID (Resp_Status resp) collectors s))
         | Inr (Inl err) \<Rightarrow>
             if timeout > 0 then
               (case writeProxyError (fe_stamp fe) w r (fail ProxyErrTimeout 504 ''request timeout'') of
                  Inl p \<Rightarrow> (Inl p, s)
                | Inr w \<Rightarrow> (Inr w, recordEndpointResult fe ep destID 0 collectors s))
             else (case err of
                 None \<Rightarrow> (Inr w, recordEndpointResult fe ep destID 0 collectors s)
               | Some te \<Rightarrow>
                   let t = classifyError err; pe = fail t (statusForErrorType t) (te_msg te) in
                   (case writeProxyError (fe_stamp fe) w r pe of
                      Inl p \<Rightarrow> (Inl p, s)
                    | Inr w \<Rightarrow> (Inr w, recordEndpointResult fe ep destID (pe_Status pe) collectors s))))"

definition mirrorStep :: "'st fenv \<Rightarrow> ForwardAction \<Rightarrow> string \<Rightarrow> Request \<Rightarrow> 'st px \<Rightarrow> 'st px" where
  "mirrorStep fe fwd routeID r s =
     (case ForwardAction_Mirror fwd of
        None \<Rightarrow> s
      | Some m \<Rightarrow> collect (Req_Metrics r) (RecordMirror routeID (RouteMirror_DestinationID m))
          (s\<lparr>px_mirrored := px_mirrored s @
              (case mirrorRequest fe m (px_pools s) (px_heap s) r of None \<Rightarrow> [] | Some q \<Rightarrow> [q])\<rparr>))"

definition rewriteStep :: "'st fenv \<Rightarrow> ForwardAction \<Rightarrow> Request \<Rightarrow> Request" where
  "rewriteStep fe fwd r = (case ForwardAction_Rewrite fwd of None \<Rightarrow> r | Some rw \<Rightarrow> applyRewrite (fe_replaceRe fe) rw r)"

text \<open>The exchange with the chosen endpoint, from the rewriting of the request to the recorded result.\<close>

definition exchange ::
  "'st fenv \<Rightarrow> ForwardAction \<Rightarrow> RouteGroup option \<Rightarrow> string \<Rightarrow> string \<Rightarrow> DestinationPool \<Rightarrow> addr \<Rightarrow> ProxyEndpoint \<Rightarrow>
   'st px handler" where
  "exchange fe fwd group' routeID routeName pool ep e r w s =
     (let parseDuration = env_parseDuration (fe_dest fe);
          collectors = Req_Metrics r;
          r = rewriteStep fe fwd r;
          s = mirrorStep fe fwd routeID r s;
          r = prepareRequest fe fwd group' r;
          timeout = requestTimeout parseDuration fwd (pool_Destination pool);
          out = outRequest (ReverseProxyFor (px_heap s) pool ep) r;
          (res, evs) = newRetryTransport parseDuration (effectiveRetry fwd group') (fe_int63n fe)
             (fe_send fe (ep_Transport e) (if timeout > 0 then Some timeout else None)) (fe_readErr fe out) out;
          groupName = (case group' of None \<Rightarrow> '''' | Some g \<Rightarrow> RouteGroup_Name g);
          s = foldl (\<lambda>s n. collect collectors (RecordRetry routeName groupName n) s) s (retriesOf evs);
          s = s\<lparr>px_sent := px_sent s @ sentOf evs\<rparr>
      in finishExchange fe (Destination_ID (pool_Destination pool)) ep e timeout collectors res r w s)"

definition plainError :: "ProxyErrorType \<Rightarrow> int \<Rightarrow> string \<Rightarrow> string \<Rightarrow> ProxyError" where
  "plainError t status destID msg =
     \<lparr>pe_Type = t, pe_Status = status, pe_Destination = destID, pe_Endpoint = '''', pe_Message = msg\<rparr>"

definition doneBalancer :: "string \<Rightarrow> DestinationPool \<Rightarrow> DestinationPool" where
  "doneBalancer ep pool =
     (case pool_Balancer pool of
        Some (BLeastRequest lb) \<Rightarrow> pool\<lparr>pool_Balancer := Some (BLeastRequest (lr_Done lb ep))\<rparr>
      | _ \<Rightarrow> pool)"

text \<open>The deferred calls, which run in reverse order and also when the exchange panics.\<close>

definition deferred :: "string \<Rightarrow> string \<Rightarrow> nat list \<Rightarrow> 'st px \<Rightarrow> 'st px" where
  "deferred destID ep collectors s =
     modPool destID (onBreaker OnComplete) (modPool destID (doneBalancer ep) (collect collectors (DestInflightDec destID) s))"

text \<open>The breaker admits the request or not; a rejected request does not reach the deferred calls.\<close>

definition admit ::
  "'st fenv \<Rightarrow> ForwardAction \<Rightarrow> RouteGroup option \<Rightarrow> string \<Rightarrow> string \<Rightarrow> DestinationPool \<Rightarrow> addr \<Rightarrow> 'st px handler" where
  "admit fe fwd group' routeID routeName pool ep r w s =
     (let destID = Destination_ID (pool_Destination pool);
          (ok, cb) = (case pool_CircuitBreaker pool of
                        None \<Rightarrow> (True, None)
                      | Some cb \<Rightarrow> map_prod id Some (Allow (fe_allowAt fe) cb))
      in if \<not> ok then
           (writeProxyError (fe_stamp fe) w r (plainError ProxyErrCircuitOpen 503 destID ''circuit breaker open''),
            setPool (pool\<lparr>pool_CircuitBreaker := cb\<rparr>) s)
         else
           let pool = pool\<lparr>pool_CircuitBreaker := map_option OnRequest cb\<rparr>;
               s = collect (Req_Metrics r) (DestInflightInc destID) (setPool pool s)
           in case px_heap s ep of
                None \<Rightarrow> (Inl NilDereference, s)
              | Some e \<Rightarrow>
                  let (res, s) = exchange fe fwd group' routeID routeName pool ep e r w s
                  in (res, deferred destID (ep_ID e) (Req_Metrics r) s))"

definition pickEndpoint ::
  "'st fenv \<Rightarrow> heap \<Rightarrow> DestinationPool \<Rightarrow> Request \<Rightarrow> RW \<Rightarrow> 'st \<Rightarrow> (addr option \<times> DestinationPool \<times> RW \<times> 'st) go" where
  "pickEndpoint fe hp pool r w st =
     (let policies = EndpointHashPolicies pool;
          (picked, w) = (if length policies > 0 then
             let (h, ck) = hashRequestWithPolicy (env_parseDuration (fe_ep fe)) (fe_hashSid fe) r policies
                             (Destination_ID (pool_Destination pool))
             in (pool_PickByHash (fe_ep fe) hp pool h r st, setCookies w (case ck of None \<Rightarrow> [] | Some c \<Rightarrow> [c]))
           else (pool_Pick (fe_ep fe) hp pool r st, w))
      in case picked of
           Inl p \<Rightarrow> Inl p
         | Inr (ep, pool, cookies, st) \<Rightarrow> Inr (ep, pool, setCookies w cookies, st))"

definition pinRingOf ::
  "((ringNode \<Rightarrow> uint32) \<Rightarrow> ringNode list \<Rightarrow> ringNode list) \<Rightarrow> ForwardAction \<Rightarrow> destinationRing option" where
  "pinRingOf srt fwd =
     (case ForwardAction_DestinationBalancing fwd of
        None \<Rightarrow> None
      | Some db \<Rightarrow>
          if DestinationBalancing_Algorithm db = DestinationLBWeightedConsistentHash \<or>
             DestinationBalancing_Algorithm db = DestinationLBSticky
          then Some (buildDestinationRing srt (ForwardAction_Destinations fwd)) else None)"

definition forwardHandler ::
  "'st fenv \<Rightarrow> ForwardAction \<Rightarrow> RouteGroup option \<Rightarrow> string \<Rightarrow> string \<Rightarrow> bool \<Rightarrow> 'st px handler" where
  "forwardHandler fe fwd group' routeID routeName hasStore r w s =
     (let r = injectXFCC r in
      case pickDestinationPool (fe_dest fe) (fe_draw fe) (px_heap s) fwd (px_pools s) r routeID
             (pinRingOf (fe_sort fe) fwd) hasStore (px_session s) of
        Inl p \<Rightarrow> (Inl p, s)
      | Inr (None, cookies, st) \<Rightarrow>
          (writeProxyError (fe_stamp fe) (setCookies w cookies) r
             (plainError ProxyErrNoDestination 502 '''' ''no destination available''), s\<lparr>px_session := st\<rparr>)
      | Inr (Some pool, cookies, st) \<Rightarrow>
          (case pickEndpoint fe (px_heap s) pool r (setCookies w cookies) st of
             Inl p \<Rightarrow> (Inl p, s\<lparr>px_session := st\<rparr>)
           | Inr (None, pool, w, st) \<Rightarrow>
               (writeProxyError (fe_stamp fe) w r
                  (plainError ProxyErrNoEndpoint 502 (Destination_ID (pool_Destination pool)) ''no healthy endpoint''),
                setPool pool (s\<lparr>px_session := st\<rparr>))
           | Inr (Some ep, pool, w, st) \<Rightarrow>
               admit fe fwd group' routeID routeName pool ep r w (setPool pool (s\<lparr>px_session := st\<rparr>))))"

subsection \<open>The pools of the state\<close>

text \<open>Every pool is stored under the identifier of its destination.\<close>

definition keyed :: "'st px \<Rightarrow> bool" where
  "keyed s \<longleftrightarrow> (\<forall>d p. px_pools s d = Some p \<longrightarrow> Destination_ID (pool_Destination p) = d)"

lemma keyedD: "keyed s \<Longrightarrow> px_pools s d = Some p \<Longrightarrow> Destination_ID (pool_Destination p) = d"
  by (simp add: keyed_def)

lemma SelectDestination_range: "SelectDestination intn u dests pools = Inr (Some pool) \<Longrightarrow> \<exists>d. pools d = Some pool"
  by (auto simp: SelectDestination_def split: if_splits sum.splits)

lemma pickPinnedPool_range:
  "pickPinnedPool env u db pools r routeID ring healthy = Inr (Some pool, cs) \<Longrightarrow> \<exists>d. pools d = Some pool"
  using SelectDestination_range[of "env_intn env" u healthy pools pool]
  by (auto simp: pickPinnedPool_def Let_def split_def split: if_splits sum.splits)

lemma pickStickyPool_range:
  "pickStickyPool env u db pools r routeID healthy st = Inr (Some pool, cs, st') \<Longrightarrow> \<exists>d. pools d = Some pool"
  using SelectDestination_range[of "env_intn env" u healthy pools pool]
  by (force simp: pickStickyPool_def Let_def split_def split: if_splits sum.splits option.splits)

lemma pickDestinationPool_range:
  assumes "pickDestinationPool env u hp fwd pools r routeID pinRing hasStore st = Inr (Some pool, cs, st')"
  shows "\<exists>d. pools d = Some pool"
  using assms SelectDestination_range[of "env_intn env" u _ pools pool] pickPinnedPool_range[of env u _ pools r routeID _ _ pool]
    pickStickyPool_range[of env u _ pools r routeID _ st pool]
  by (auto simp: pickDestinationPool_def Let_def split: if_splits option.splits sum.splits prod.splits)

text \<open>Picking an endpoint changes nothing of a pool but its balancer.\<close>

lemma pool_Pick_frame:
  "pool_Pick env hp dp r st = Inr (e, dp', cs, st') \<Longrightarrow>
   pool_Destination dp' = pool_Destination dp \<and> pool_CircuitBreaker dp' = pool_CircuitBreaker dp"
  by (auto simp: pool_Pick_def Let_def split_def split: if_splits option.splits sum.splits)

lemma pool_PickByHash_frame:
  "pool_PickByHash env hp dp h r st = Inr (e, dp', cs, st') \<Longrightarrow>
   pool_Destination dp' = pool_Destination dp \<and> pool_CircuitBreaker dp' = pool_CircuitBreaker dp"
  using pool_Pick_frame[of env hp dp r st e dp' cs st']
  by (auto simp: pool_PickByHash_def Let_def split_def split: if_splits option.splits sum.splits Balancer.splits)

lemma pickEndpoint_cases:
  assumes "pickEndpoint fe hp pool r w st = Inr (e, pool', w', st')"
  obtains cs where "pool_Pick (fe_ep fe) hp pool r st = Inr (e, pool', cs, st')"
  | h cs where "pool_PickByHash (fe_ep fe) hp pool h r st = Inr (e, pool', cs, st')"
proof (cases "EndpointHashPolicies pool = []")
  case True
  then show ?thesis
    using assms that(1) by (cases "pool_Pick (fe_ep fe) hp pool r st") (auto simp: pickEndpoint_def)
next
  case False
  obtain h ck where "hashRequestWithPolicy (env_parseDuration (fe_ep fe)) (fe_hashSid fe) r
      (EndpointHashPolicies pool) (Destination_ID (pool_Destination pool)) = (h, ck)" by fastforce
  with False show ?thesis
    using assms that(2)[of h] by (cases "pool_PickByHash (fe_ep fe) hp pool h r st") (auto simp: pickEndpoint_def)
qed

definition same_pool :: "DestinationPool \<Rightarrow> DestinationPool \<Rightarrow> bool" where
  "same_pool pool pool' \<longleftrightarrow>
     pool_Destination pool' = pool_Destination pool \<and> pool_CircuitBreaker pool' = pool_CircuitBreaker pool"

lemma pickEndpoint_frame:
  assumes "pickEndpoint fe hp pool r w st = Inr (e, pool', w', st')"
  shows "same_pool pool pool'"
  unfolding same_pool_def
  using assms by (rule pickEndpoint_cases) (blast dest: pool_Pick_frame pool_PickByHash_frame)+

lemma pickEndpoint_healthy:
  assumes "pickEndpoint fe hp pool r w st = Inr (Some ep, pool', w', st')" and "draws_ok (fe_ep fe)"
  obtains e where "hp ep = Some e" "ep_Healthy e"
proof -
  from assms(1) have "ep \<in> set (healthyEndpoints hp pool)"
    by (rule pickEndpoint_cases) (blast dest: pool_Pick_healthy[OF assms(2)] pool_PickByHash_healthy[OF assms(2)])+
  then show ?thesis using that by (auto simp: healthy_iff isHealthy_def split: option.splits)
qed

text \<open>How a request is handled: it ends without an endpoint, or goes to the breaker of its pool.\<close>

lemma forwardHandler_cases:
  assumes "draws_ok (fe_ep fe)"
  obtains (stop) st where "snd (forwardHandler fe fwd g routeID routeName hasStore r w s) = s\<lparr>px_session := st\<rparr>"
  | (none) d pool pool' st where "px_pools s d = Some pool" "same_pool pool pool'"
      "snd (forwardHandler fe fwd g routeID routeName hasStore r w s) = setPool pool' (s\<lparr>px_session := st\<rparr>)"
  | (admit) d pool pool' st ep e w' where "px_pools s d = Some pool" "same_pool pool pool'" "px_heap s ep = Some e"
      "forwardHandler fe fwd g routeID routeName hasStore r w s =
       admit fe fwd g routeID routeName pool' ep (injectXFCC r) w' (setPool pool' (s\<lparr>px_session := st\<rparr>))"
proof (cases "pickDestinationPool (fe_dest fe) (fe_draw fe) (px_heap s) fwd (px_pools s) (injectXFCC r) routeID
    (pinRingOf (fe_sort fe) fwd) hasStore (px_session s)")
  case (Inl p)
  then show thesis using stop[of "px_session s"] by (simp add: forwardHandler_def)
next
  case (Inr res)
  obtain mp cs st where dest: "res = (mp, cs, st)" by (cases res)
  show thesis
  proof (cases mp)
    case None
    with Inr dest show thesis using stop[of st] by (simp add: forwardHandler_def)
  next
    case (Some pool)
    obtain d where d: "px_pools s d = Some pool"
      using pickDestinationPool_range[OF Inr[unfolded dest Some]] by blast
    show thesis
    proof (cases "pickEndpoint fe (px_heap s) pool (injectXFCC r) (setCookies w cs) st")
      case (Inl p)
      with Inr dest Some show thesis using stop[of st] by (simp add: forwardHandler_def)
    next
      case e: (Inr res')
      obtain me pool' w' st' where res': "res' = (me, pool', w', st')" by (cases res')
      note frame = pickEndpoint_frame[OF e[unfolded res']]
      show thesis
      proof (cases me)
        case None
        with Inr dest Some e res' show thesis using none[OF d frame, of st'] by (simp add: forwardHandler_def)
      next
        case ep: (Some ep)
        obtain a where "px_heap s ep = Some a" using pickEndpoint_healthy[OF e[unfolded res' ep] assms] by blast
        with Inr dest Some e res' ep show thesis
          using admit[OF d frame, of ep a w' st'] by (simp add: forwardHandler_def)
      qed
    qed
  qed
qed

text \<open>The requests in flight that the breaker of a destination counts.\<close>

definition active :: "string \<Rightarrow> 'st px \<Rightarrow> (int \<times> int) option" where
  "active d s =
     (case px_pools s d of
        None \<Rightarrow> None
      | Some pool \<Rightarrow> map_option (\<lambda>cb. (cb_activeRequests cb, cb_activeConnections cb)) (pool_CircuitBreaker pool))"

lemma active_frame [simp]:
  "active d (collect ids f s) = active d s"
  "active d (s\<lparr>px_sent := qs\<rparr>) = active d s"
  "active d (s\<lparr>px_session := st\<rparr>) = active d s"
  "active d (mirrorStep fe fwd rid r s) = active d s"
  by (simp_all add: active_def collect_def mirrorStep_def split: option.split)

lemma active_retries [simp]: "active d (foldl (\<lambda>s n. collect ids (f n) s) s ns) = active d s"
  by (induction ns arbitrary: s) simp_all

lemma Allow_counts:
  "cb_activeRequests (snd (Allow now cb)) = cb_activeRequests cb"
  "cb_activeConnections (snd (Allow now cb)) = cb_activeConnections cb"
  by (auto simp: Allow_def takeProbe_def Let_def split: CircuitState.splits)

lemma Record_counts [simp]:
  "cb_activeRequests (RecordSuccess cb) = cb_activeRequests cb"
  "cb_activeConnections (RecordSuccess cb) = cb_activeConnections cb"
  "cb_activeRequests (RecordFailure now cb) = cb_activeRequests cb"
  "cb_activeConnections (RecordFailure now cb) = cb_activeConnections cb"
  by (simp_all add: RecordSuccess_def RecordFailure_def Let_def)

lemma active_onBreaker:
  assumes "\<And>cb. cb_activeRequests (f cb) = cb_activeRequests cb" "\<And>cb. cb_activeConnections (f cb) = cb_activeConnections cb"
  shows "active d (modPool destID (onBreaker f) s) = active d s"
  by (simp add: active_def modPool_def onBreaker_def option.map_comp o_def assms split: option.split)

lemma active_recordEndpointResult [simp]: "active d (recordEndpointResult fe ep destID status cs s) = active d s"
proof -
  have "active d (modPool destID (onBreaker (RecordFailure (fe_doneAt fe))) s) = active d s"
    "active d (modPool destID (onBreaker RecordSuccess) s) = active d s" by (rule active_onBreaker; simp)+
  moreover have "active d (s\<lparr>px_outlier := ts, px_heap := hp\<rparr>) = active d s" for ts hp and s :: "'a px"
    by (simp add: active_def)
  ultimately show ?thesis by (simp add: recordEndpointResult_def Let_def split_def split: option.split)
qed

lemma active_finish [simp]: "active d (snd (finishExchange fe destID ep e timeout cs res r w s)) = active d s"
  by (simp add: finishExchange_def Let_def split: sum.split option.split prod.split)

lemma active_exchange [simp]: "active d (snd (exchange fe fwd g rid rn pool ep e r w s)) = active d s"
  by (simp add: exchange_def Let_def split_def)

text \<open>Neither entering nor leaving wraps around while the counters are below their width.\<close>

definition counts_fit :: "'st px \<Rightarrow> bool" where
  "counts_fit s \<longleftrightarrow> (\<forall>d. case active d s of None \<Rightarrow> True | Some (a, c) \<Rightarrow> fits 64 a \<and> fits 64 c)"

lemma counts_back: "fits 64 n \<Longrightarrow> swrap 64 (swrap 64 (n + 1) - 1) = n"
  by (auto simp: fits_def swrap_def mod_simps)

lemma active_setPool:
  "active d (setPool pool s) =
   (if d = Destination_ID (pool_Destination pool)
    then map_option (\<lambda>cb. (cb_activeRequests cb, cb_activeConnections cb)) (pool_CircuitBreaker pool) else active d s)"
  by (simp add: active_def setPool_def)

lemma active_done [simp]: "active d (modPool destID (doneBalancer ep) s) = active d s"
  by (auto simp: active_def modPool_def doneBalancer_def split: option.split Balancer.split)

lemma active_complete:
  "active d (modPool destID (onBreaker OnComplete) s) =
   (if d = destID then map_option (\<lambda>(a, c). (swrap 64 (a - 1), swrap 64 (c - 1))) (active d s) else active d s)"
  by (simp add: active_def modPool_def onBreaker_def OnComplete_def option.map_comp o_def split: option.split)

lemma active_deferred:
  "active d (deferred destID ep cs s) =
   (if d = destID then map_option (\<lambda>(a, c). (swrap 64 (a - 1), swrap 64 (c - 1))) (active d s) else active d s)"
  by (simp add: deferred_def active_complete)

lemma px_heap_frame [simp]: "px_heap (collect ids f s) = px_heap s" "px_heap (setPool pool s) = px_heap s"
  by (simp_all add: collect_def setPool_def)

lemma active_admit:
  assumes "counts_fit s" and "px_heap s ep = Some e"
    and "active (Destination_ID (pool_Destination pool)) s =
      map_option (\<lambda>cb. (cb_activeRequests cb, cb_activeConnections cb)) (pool_CircuitBreaker pool)"
  shows "active d (snd (admit fe fwd g rid rn pool ep r w s)) = active d s"
proof (cases "pool_CircuitBreaker pool")
  case None
  then show ?thesis
    using assms(2,3) by (simp add: admit_def Let_def split_def active_deferred active_setPool)
next
  case (Some cb)
  have fit: "fits 64 (cb_activeRequests cb)" "fits 64 (cb_activeConnections cb)"
    using assms Some by (auto simp: counts_fit_def dest: spec[of _ "Destination_ID (pool_Destination pool)"])
  obtain ok cb' where allow: "Allow (fe_allowAt fe) cb = (ok, cb')" by fastforce
  then have same: "cb_activeRequests cb' = cb_activeRequests cb" "cb_activeConnections cb' = cb_activeConnections cb"
    using Allow_counts[of "fe_allowAt fe" cb] by simp_all
  show ?thesis
    using assms(2,3) Some allow same counts_back[OF fit(1)] counts_back[OF fit(2)]
    by (cases ok) (simp_all add: admit_def Let_def split_def active_deferred active_setPool OnRequest_def)
qed

lemma active_pool:
  "keyed s \<Longrightarrow> px_pools s d = Some pool \<Longrightarrow>
   active (Destination_ID (pool_Destination pool)) s =
     map_option (\<lambda>cb. (cb_activeRequests cb, cb_activeConnections cb)) (pool_CircuitBreaker pool)"
  by (simp add: active_def keyedD)

lemma active_repicked:
  assumes "keyed s" and "px_pools s d' = Some pool" and "same_pool pool pool'"
  shows "active d (setPool pool' (s\<lparr>px_session := st\<rparr>)) = active d s"
  using active_pool[OF assms(1,2)] assms(3) by (simp add: active_setPool same_pool_def)

text \<open>C18: Whatever comes of a forwarded request, an answer, an error at any stage or a panic, the numbers of
  active requests and connections that the breaker of every destination counts are afterwards what
  they were before: each request that entered has left.\<close>

theorem breaker_counts_restored:
  assumes "keyed s" and "counts_fit s" and "draws_ok (fe_ep fe)"
  shows "active d (snd (forwardHandler fe fwd g routeID routeName hasStore r w s)) = active d s"
proof (rule forwardHandler_cases[OF assms(3), of fwd g routeID routeName hasStore r w s])
  fix d' pool pool' st ep e w'
  assume pool: "px_pools s d' = Some pool" "same_pool pool pool'" and e: "px_heap s ep = Some e"
    and fwd: "forwardHandler fe fwd g routeID routeName hasStore r w s =
      admit fe fwd g routeID routeName pool' ep (injectXFCC r) w' (setPool pool' (s\<lparr>px_session := st\<rparr>))"
  have same: "active d (setPool pool' (s\<lparr>px_session := st\<rparr>)) = active d s" for d
    by (rule active_repicked[OF assms(1) pool])
  show ?thesis
    unfolding fwd using e assms(2) active_pool[OF assms(1) pool(1)] pool(2) same
    by (subst active_admit) (simp_all add: counts_fit_def same_pool_def)
next
  fix d' pool pool' st
  assume "px_pools s d' = Some pool" "same_pool pool pool'"
    "snd (forwardHandler fe fwd g routeID routeName hasStore r w s) = setPool pool' (s\<lparr>px_session := st\<rparr>)"
  then show ?thesis using active_repicked[OF assms(1)] by metis
qed simp

definition sampleFenv :: "redis fenv" where
  "sampleFenv =
     \<lparr>fe_dest = sampleEnv, fe_ep = sampleEnv, fe_sort = sort_key, fe_hashSid = ''h1'', fe_draw = 0, fe_mirrorDraw = 0,
      fe_allowAt = 0, fe_doneAt = 0, fe_upstreamDur = 0, fe_stamp = '''', fe_int63n = (\<lambda>n k. 0),
      fe_readErr = (\<lambda>r. None),
      fe_send = (\<lambda>t d n q. Inr \<lparr>Resp_Status = 200, Resp_Header = Map.empty, Resp_Body = ''ok''\<rparr>),
      fe_bodyFails = (\<lambda>live resp. False), fe_keys = (\<lambda>h. []), fe_replaceRe = (\<lambda>p. None)\<rparr>"

definition samplePx :: "redis px" where
  "samplePx =
     \<lparr>px_pools = [''d1'' \<mapsto> samplePool None [0]\<lparr>pool_CircuitBreaker := Some (NewCircuitBreaker (\<lambda>s. None) 0 0 0 0 0 [] 0)\<rparr>],
      px_heap = sampleHeap True, px_outlier = Map.empty, px_session = Some Map.empty, px_collectors = Map.empty,
      px_sent = [], px_mirrored = []\<rparr>"

theorem breaker_counts_restored_witness:
  "keyed samplePx \<and> counts_fit samplePx \<and> draws_ok (fe_ep sampleFenv) \<and>
   active ''d1'' (snd (forwardHandler sampleFenv
     (sampleForward\<lparr>ForwardAction_Destinations := [\<lparr>DestinationRef_DestinationID = ''d1'', DestinationRef_Weight = 1\<rparr>]\<rparr>)
     None ''r'' ''r'' False sampleRequest newRW samplePx)) = Some (0, 0)"
proof -
  have "keyed samplePx" by (auto simp: keyed_def samplePx_def samplePool_def sampleDestination_def split: if_splits)
  moreover have zero: "active d samplePx = (if d = ''d1'' then Some (0, 0) else None)" for d
    by (simp add: active_def samplePx_def NewCircuitBreaker_def)
  then have "counts_fit samplePx" by (simp add: counts_fit_def fits_def)
  moreover have "draws_ok (fe_ep sampleFenv)" by (simp add: draws_ok_def sampleFenv_def sampleEnv_def)
  ultimately show ?thesis using breaker_counts_restored[of samplePx sampleFenv "''d1''"] zero by simp
qed

subsection \<open>The client certificate header\<close>

abbreviation XFCC :: string where
  "XFCC \<equiv> ''X-Forwarded-Client-Cert''"

definition certOf :: "Request \<Rightarrow> string" where
  "certOf r = (if peerURIs r = [] then '''' else joinStr (peerURIs r) '';'')"

lemma other_keys [simp]:
  "canonicalKey ''Host'' \<noteq> canonicalKey XFCC" "canonicalKey ''grpc-timeout'' \<noteq> canonicalKey XFCC"
  "canonicalKey ''X-Request-Attempt-Count'' \<noteq> canonicalKey XFCC" "canonicalKey ''X-Forwarded-For'' \<noteq> canonicalKey XFCC"
  "canonicalKey ''User-Agent'' \<noteq> canonicalKey XFCC"
  by code_simp+

lemma xfcc_injected: "headerGet (Req_Header (injectXFCC r)) XFCC = certOf r"
  by (simp add: injectXFCC_def certOf_def Let_def)

lemma xfcc_setHost [simp]: "headerGet (Req_Header (setHost host r)) XFCC = headerGet (Req_Header r) XFCC"
  by (simp add: setHost_def)

lemma xfcc_rewrite [simp]: "headerGet (Req_Header (rewriteStep fe fwd r)) XFCC = headerGet (Req_Header r) XFCC"
  by (simp add: rewriteStep_def applyRewrite_def Let_def split: option.split)

lemma xfcc_prepare [simp]: "headerGet (Req_Header (prepareRequest fe fwd g r)) XFCC = headerGet (Req_Header r) XFCC"
  by (simp add: prepareRequest_def capGRPCTimeout_def Let_def split: option.split)

lemma xfcc_attempt [simp]: "headerGet (Req_Header (attemptRequest r k)) XFCC = headerGet (Req_Header r) XFCC"
  by (simp add: attemptRequest_def)

lemma headerGet_Dels: "headerGet (foldl headerDel h ks) k \<in> {'''', headerGet h k}"
proof (induction ks arbitrary: h)
  case (Cons a ks)
  then show ?case using Cons[of "headerDel h a"] by (simp split: if_splits)
qed simp

lemma xfcc_out: "headerGet (Req_Header (outRequest target r)) XFCC \<in> {'''', headerGet (Req_Header r) XFCC}"
proof -
  have "headerGet (forwardedFor r h) XFCC = headerGet h XFCC" for h
    by (simp add: forwardedFor_def Let_def split: option.split prod.split)
  moreover have "headerGet (removeHopByHopHeaders h) XFCC \<in> {'''', headerGet h XFCC}" for h
    unfolding removeHopByHopHeaders_def
    using headerGet_Dels[of "foldl headerDel h (connectionHeaders h)" hopHeaders XFCC]
      headerGet_Dels[of h "connectionHeaders h" XFCC] by auto
  ultimately show ?thesis by (simp add: outRequest_def Let_def)
qed

lemma sent_attempts:
  "q \<in> set (sentOf (snd (rt_attempts rt base mx per f inner m n err out))) \<Longrightarrow> \<exists>k. q = attemptRequest out k"
proof (induction "m - n" arbitrary: n err out)
  case 0
  then show ?case by (simp add: rt_attempts.simps[of rt base mx per f inner m n err out])
next
  case (Suc j)
  have IH: "\<exists>k. q = attemptRequest out k"
    if "q \<in> set (sentOf (snd (rt_attempts rt base mx per f inner m (n + 1) e (attemptRequest out n))))" for e
    using Suc(1)[of "n + 1" e "attemptRequest out n"] that Suc(2) by auto
  show ?case
    using Suc(3) IH[unfolded Suc_eq_plus1[symmetric]]
    unfolding rt_attempts.simps[of rt base mx per f inner m n err out]
    by (auto simp: Let_def split_def split: if_splits sum.splits)
qed

lemma sent_transport:
  "q \<in> set (sentOf (snd (newRetryTransport pd rt f inner rerr out))) \<Longrightarrow> q = out \<or> (\<exists>k. q = attemptRequest out k)"
  by (auto simp: newRetryTransport_def rt_RoundTrip_def split: option.splits if_splits dest!: sent_attempts)

lemma px_sent_frame [simp]:
  "px_sent (collect ids f s) = px_sent s" "px_sent (setPool pool s) = px_sent s"
  "px_sent (modPool d h s) = px_sent s" "px_sent (mirrorStep fe fwd rid r s) = px_sent s"
  by (simp_all add: collect_def setPool_def modPool_def mirrorStep_def split: option.split)

lemma px_sent_retries [simp]: "px_sent (foldl (\<lambda>s n. collect ids (f n) s) s ns) = px_sent s"
  by (induction ns arbitrary: s) simp_all

lemma px_sent_record [simp]: "px_sent (recordEndpointResult fe ep destID status cs s) = px_sent s"
  by (simp add: recordEndpointResult_def Let_def split_def split: option.split)

lemma px_sent_finish [simp]: "px_sent (snd (finishExchange fe destID ep e timeout cs res r w s)) = px_sent s"
  by (simp add: finishExchange_def Let_def split: sum.split option.split prod.split)

lemma px_sent_exchange:
  "\<exists>target rt f inner (rerr :: TransportError option). px_sent (snd (exchange fe fwd g rid rn pool ep e r w s)) =
     px_sent s @ sentOf (snd (newRetryTransport (env_parseDuration (fe_dest fe)) rt f inner rerr
       (outRequest target (prepareRequest fe fwd g (rewriteStep fe fwd r)))))"
  by (simp add: exchange_def Let_def split_def del: split_paired_Ex split del: if_split) (intro exI, rule refl)

lemma xfcc_sent:
  "q \<in> set (sentOf (snd (newRetryTransport pd rt f inner rerr
       (outRequest target (prepareRequest fe fwd g (rewriteStep fe fwd r)))))) \<Longrightarrow>
   headerGet (Req_Header q) XFCC \<in> {'''', headerGet (Req_Header r) XFCC}"
  using sent_transport[of q pd rt f inner rerr "outRequest target (prepareRequest fe fwd g (rewriteStep fe fwd r))"]
    xfcc_out[of target "prepareRequest fe fwd g (rewriteStep fe fwd r)"] by auto

text \<open>The requests sent on the way from one state to another carry the given certificate header or none.\<close>

definition sends :: "string \<Rightarrow> 'st px \<Rightarrow> 'st px \<Rightarrow> bool" where
  "sends cert s s' \<longleftrightarrow> (\<exists>qs. px_sent s' = px_sent s @ qs \<and>
     list_all (\<lambda>q. headerGet (Req_Header q) XFCC \<in> {'''', cert}) qs)"

lemma sends_refl [simp]: "px_sent s' = px_sent s \<Longrightarrow> sends cert s s'"
  by (simp add: sends_def)

lemma sends_exchange [simp]:
  assumes "px_sent s' = px_sent s"
  shows "sends (headerGet (Req_Header r) XFCC) s (snd (exchange fe fwd g rid rn pool ep e r w s'))"
  unfolding sends_def using px_sent_exchange[of fe fwd g rid rn pool ep e r w s'] assms
  by (elim exE) (simp add: list_all_iff xfcc_sent del: insert_iff singleton_iff)

lemma sends_deferred [simp]: "sends cert s (deferred d ep cs s') = sends cert s s'"
  by (simp add: sends_def deferred_def)

lemma sends_admit:
  "px_sent s' = px_sent s \<Longrightarrow>
   sends (headerGet (Req_Header r) XFCC) s (snd (admit fe fwd g rid rn pool ep r w s'))"
  by (simp add: admit_def Let_def split_def split: option.split)



subsection \<open>Transport errors and the breaker\<close>

definition breakerOf :: "string \<Rightarrow> 'st px \<Rightarrow> CircuitBreaker option" where
  "breakerOf d s = (case px_pools s d of None \<Rightarrow> None | Some pool \<Rightarrow> pool_CircuitBreaker pool)"

lemma breakerOf_frame [simp]:
  "breakerOf d (collect ids f s) = breakerOf d s"
  "breakerOf d (s\<lparr>px_sent := qs\<rparr>) = breakerOf d s"
  "breakerOf d (s\<lparr>px_outlier := ts, px_heap := hp\<rparr>) = breakerOf d s"
  "breakerOf d (mirrorStep fe fwd rid r s) = breakerOf d s"
  by (simp_all add: breakerOf_def collect_def mirrorStep_def split: option.split)

lemma breakerOf_retries [simp]: "breakerOf d (foldl (\<lambda>s n. collect ids (f n) s) s ns) = breakerOf d s"
  by (induction ns arbitrary: s) simp_all

lemma breakerOf_onBreaker [simp]: "breakerOf d (modPool d (onBreaker f) s) = map_option f (breakerOf d s)"
  by (simp add: breakerOf_def modPool_def onBreaker_def split: option.split)

lemma breakerOf_record [simp]:
  "breakerOf d (recordEndpointResult fe ep d status cs s) =
   map_option (if status \<ge> 500 then RecordFailure (fe_doneAt fe) else RecordSuccess) (breakerOf d s)"
  by (simp add: recordEndpointResult_def Let_def split_def split: option.split)

lemma writeProxyError_status:
  assumes "rw_sent w = None" and "200 \<le> pe_Status pe" "pe_Status pe \<le> 999"
  shows "\<exists>w'. writeProxyError now w r pe = Inr w' \<and> map_option fst (rw_sent w') = Some (pe_Status pe)"
  using assms
  by (simp add: writeProxyError_def respond_def WriteHeader_def Write_def setHeader_def runHooks_def Let_def)

lemma statusForErrorType_range: "502 \<le> statusForErrorType t" "statusForErrorType t \<le> 504"
  by (simp_all add: statusForErrorType_def)

lemma send_once:
  "newRetryTransport pd None f inner rerr out =
     (Inr (case inner 0 out of Inl e \<Rightarrow> Inl (Some e) | Inr resp \<Rightarrow> Inr (resp, True)), [Sent out None])"
  by (simp add: newRetryTransport_def)

lemma finish_error:
  assumes "rw_sent w = None"
  shows "\<exists>w'. fst (finishExchange fe d ep e T cs (Inr (Inl (Some err))) r w s) = Inr w' \<and>
    map_option fst (rw_sent w') = Some (if 0 < T then 504 else statusForErrorType (classifyError (Some err))) \<and>
    breakerOf d (snd (finishExchange fe d ep e T cs (Inr (Inl (Some err))) r w s)) =
      map_option (if 0 < T then RecordSuccess else RecordFailure (fe_doneAt fe)) (breakerOf d s)"
proof -
  define pe where "pe = (if 0 < T then \<lparr>pe_Type = ProxyErrTimeout, pe_Status = 504, pe_Destination = d,
      pe_Endpoint = ep_ID e, pe_Message = ''request timeout''\<rparr>
    else \<lparr>pe_Type = classifyError (Some err), pe_Status = statusForErrorType (classifyError (Some err)),
      pe_Destination = d, pe_Endpoint = ep_ID e, pe_Message = te_msg err\<rparr>)"
  have "200 \<le> pe_Status pe" "pe_Status pe \<le> 999" "500 \<le> statusForErrorType (classifyError (Some err))"
    using statusForErrorType_range[of "classifyError (Some err)"] by (simp_all add: pe_def)
  moreover from this obtain w' where "writeProxyError (fe_stamp fe) w r pe = Inr w'"
      "map_option fst (rw_sent w') = Some (pe_Status pe)"
    using writeProxyError_status[OF assms] by blast
  ultimately show ?thesis by (cases "0 < T") (simp_all add: finishExchange_def Let_def pe_def)
qed



text \<open>A request that the breaker rejects after its endpoint was picked is not reported as done to the balancer.\<close>

lemma rejected_pick_stays_counted:
  assumes "pool_CircuitBreaker pool = Some cb" and "\<not> fst (Allow (fe_allowAt fe) cb)"
  shows "\<exists>pool'. px_pools (snd (admit fe fwd g rid rn pool ep r w s)) (Destination_ID (pool_Destination pool)) =
    Some pool' \<and> pool_Balancer pool' = pool_Balancer pool"
  using assms by (simp add: admit_def Let_def split_def setPool_def)

text \<open>A client that names the certificate header in its own Connection header suppresses it.\<close>

lemma client_cert_suppressed:
  "headerGet (removeHopByHopHeaders (headerSet (headerSet Map.empty ''Connection'' ''x-forwarded-client-cert'')
     XFCC ''spiffe://client'')) XFCC = ''''"
  by code_simp


end
