(* ===== verification/Interpolate.thy ===== *)
theory Interpolate
  imports Http Go_Strings
begin

text \<open>
  Placeholders in configured header values (\<^verbatim>\<open>server/internal/proxy/middlewares/interpolate.go\<close>). The
  loop over the header placeholders keeps the position behind the last replacement; its
  termination is proved from that position.
\<close>

definition requestHost :: "Request \<Rightarrow> string" where
  "requestHost r = beforeSep (Req_Host r) '':''"

definition headerMark :: string where
  "headerMark = ''${request.header.''"

lemma headerMark_nonempty [simp]: "headerMark \<noteq> []" "0 < length headerMark"
  by (simp_all add: headerMark_def)

text \<open>One step of the loop: the start and the end of the next placeholder at or behind \<open>pos\<close>.\<close>

definition nextMark :: "string \<Rightarrow> nat \<Rightarrow> (nat \<times> nat) option" where
  "nextMark result pos =
     (case indexStr (drop pos result) headerMark of
        None \<Rightarrow> None
      | Some idx \<Rightarrow>
          (case indexStr (drop (pos + idx) result) ''}'' of
             None \<Rightarrow> None
           | Some e \<Rightarrow> Some (pos + idx, pos + idx + e)))"

lemma nextMark_range:
  assumes "nextMark result pos = Some (start, end')"
  shows "pos \<le> start" "start + length headerMark \<le> end'" "end' < length result"
proof -
  obtain idx e where idx: "indexStr (drop pos result) headerMark = Some idx" "start = pos + idx"
    and e: "indexStr (drop start result) ''}'' = Some e" "end' = start + e"
    using assms by (auto simp: nextMark_def split: option.splits)
  have drop_start: "take (length headerMark) (drop start result) = headerMark"
    using indexStr_Some [OF idx(1)] idx(2) by (simp add: add.commute)
  have last: "take 1 (drop e (drop start result)) = ''}''" "e + 1 \<le> length (drop start result)"
    using indexStr_Some [OF e(1)] by auto
  show "pos \<le> start" using idx(2) by simp
  show "end' < length result" using last(2) e(2) by auto
  show "start + length headerMark \<le> end'"
  proof (rule ccontr)
    assume "\<not> ?thesis"
    then have lt: "e < length headerMark" using e(2) by simp
    have "drop start result ! e = CHR ''}''"
      using last by (cases "drop e (drop start result)") (auto simp: nth_via_drop simp del: drop_drop)
    moreover have "drop start result ! e = headerMark ! e"
      using lt drop_start by (metis nth_take)
    moreover have "headerMark ! e \<noteq> CHR ''}''" using lt
      by (auto simp: headerMark_def less_Suc_eq nth_Cons' numeral_eq_Suc split: if_splits)
    ultimately show False by simp
  qed
qed



function expandHeaders :: "header \<Rightarrow> string \<Rightarrow> nat \<Rightarrow> string" where
  "expandHeaders h result pos =
     (case nextMark result pos of
        None \<Rightarrow> result
      | Some (start, end') \<Rightarrow>
          let headerName = take (end' - (start + length headerMark)) (drop (start + length headerMark) result);
              headerValue = headerGet h headerName
          in expandHeaders h (take start result @ headerValue @ drop (end' + 1) result) (start + length headerValue))"
  by pat_completeness auto
termination
proof (relation "measure (\<lambda>(h, result, pos). length result - pos)")
  fix h result pos p start end' headerName headerValue
  assume "nextMark result pos = Some p" "(start, end') = p"
  then have m: "nextMark result pos = Some (start, end')" by simp
  have "start \<le> length result" "pos \<le> start" "start + length headerMark \<le> end'" "end' < length result"
    using nextMark_range [OF m] by auto
  moreover have "0 < length headerMark" by simp
  ultimately show "((h, take start result @ headerValue @ drop (end' + 1) result, start + length headerValue), h, result, pos)
      \<in> measure (\<lambda>(h, result, pos). length result - pos)"
    by auto
qed simp

declare expandHeaders.simps [simp del]

definition Interpolate :: "string \<Rightarrow> Request \<Rightarrow> string" where
  "Interpolate template r =
     (if \<not> contains template ''${'' then template
      else
        let result = replaceAll template ''${request.host}'' (requestHost r);
            result = replaceAll result ''${request.path}'' (Req_Path r);
            result = replaceAll result ''${request.method}'' (Req_Method r);
            result = replaceAll result ''${request.authority}'' (Req_Host r);
            result = replaceAll result ''${request.scheme}'' (if Req_TLS r \<noteq> None then ''https'' else ''http'')
        in expandHeaders (Req_Header r) result 0)"

subsection \<open>One pass over the template\<close>

text \<open>The reference: placeholders are replaced from left to right and the values are copied as they are.\<close>

function onePass :: "header \<Rightarrow> string \<Rightarrow> string" where
  "onePass h s =
     (case nextMark s 0 of
        None \<Rightarrow> s
      | Some (start, end') \<Rightarrow>
          take start s @ headerGet h (take (end' - (start + length headerMark)) (drop (start + length headerMark) s)) @
            onePass h (drop (end' + 1) s))"
  by pat_completeness auto
termination
  by (relation "measure (\<lambda>(h, s). length s)") (auto dest!: nextMark_range(3))

declare onePass.simps [simp del]

lemma nextMark_append:
  "nextMark (pre @ s) (length pre) = map_option (\<lambda>(a, b). (length pre + a, length pre + b)) (nextMark s 0)"
  by (simp add: nextMark_def split: option.splits)

lemma expandHeaders_onePass: "expandHeaders h (pre @ s) (length pre) = pre @ onePass h s"
proof (induction "length s" arbitrary: pre s rule: less_induct)
  case less
  show ?case
  proof (cases "nextMark s 0")
    case None
    then show ?thesis by (simp add: expandHeaders.simps onePass.simps nextMark_append)
  next
    case (Some p)
    obtain start end' where p: "p = (start, end')" by (cases p)
    note r = nextMark_range [OF Some [unfolded p]]
    let ?v = "headerGet h (take (end' - (start + length headerMark)) (drop (start + length headerMark) s))"
    let ?pre = "pre @ take start s @ ?v"
    have len: "length ?pre = length pre + start + length ?v" using r by simp
    have "expandHeaders h (pre @ s) (length pre) = expandHeaders h (?pre @ drop (end' + 1) s) (length ?pre)"
      unfolding len by (subst expandHeaders.simps) (simp add: nextMark_append Some p add.assoc Let_def)
    also have "\<dots> = ?pre @ onePass h (drop (end' + 1) s)" using r by (intro less) simp
    also have "\<dots> = pre @ onePass h s" by (subst (2) onePass.simps) (simp add: Some p)
    finally show ?thesis .
  qed
qed

subsection \<open>Properties\<close>

text \<open>The loop that expands header placeholders always ends and agrees with a single pass over the
  string from left to right that copies every header value literally: a header value is never
  expanded again, even if it contains a placeholder.\<close>

theorem header_values_expanded_once: "expandHeaders h s 0 = onePass h s"
  using expandHeaders_onePass [of h "[]" s] by simp

text \<open>The other placeholders are replaced before, so a request path that contains a header placeholder
  is expanded.\<close>

lemma path_placeholder_expanded:
  assumes "Req_Path r = ''/${request.header.A}''" and "Req_Header r = [''A'' \<mapsto> [''secret'']]"
    and "Req_TLS r = None" and "Req_Host r = ''h''" and "Req_Method r = ''GET''"
  shows "Interpolate ''${request.path}'' r = ''/secret''"
proof -
  have "replaceAll ''${request.path}'' ''${request.path}'' v = v" for v
    by (simp add: replaceAll.simps hasPrefix_def)
  moreover have "onePass (Req_Header r) ''/${request.header.A}'' = ''/secret''"
    by (simp add: onePass.simps nextMark_def headerMark_def hasPrefix_def assms headerGet_def canonicalKey_def
        validHeaderFieldByte_def isLower_def isUpper_def isDigit_def toUpperChar_def)
  ultimately show ?thesis
    using assms
    by (simp add: Interpolate_def contains_def hasPrefix_def expandHeaders_onePass [of _ "[]", simplified]
        replaceAll.simps)
qed

end
