(* ===== verification/Access_Log.thy ===== *)
theory Access_Log
  imports Interpolate Pool
begin

text \<open>
  The access log middleware (\<^verbatim>\<open>server/internal/proxy/middlewares/accesslog.go\<close>). Request identifiers, clocks, the JSON
  encoder, the rendering of fractional seconds and the files are parameters; a line is given to the
  sink it is written to. \<open>le_request\<close> is the request as the wrapped handler leaves it, since handlers
  change it in place.
\<close>

datatype log_sink = Stdout | Stderr | File string

record 's log_env =
  le_open :: "string \<Rightarrow> bool"
  le_write :: "log_sink \<Rightarrow> string \<Rightarrow> 's \<Rightarrow> 's"
  le_uuid :: "'s \<Rightarrow> string"
  le_duration :: "'s \<Rightarrow> duration"
  le_keys :: "(string \<rightharpoonup> string) \<Rightarrow> string list"
  le_marshal :: "(string \<rightharpoonup> string) \<Rightarrow> string"
  le_seconds :: "duration \<Rightarrow> string"
  le_encoded :: "json \<Rightarrow> nat"
  le_request :: "'s \<Rightarrow> Request \<Rightarrow> Request"

definition openLogWriter :: "'s log_env \<Rightarrow> string \<Rightarrow> log_sink" where
  "openLogWriter le path =
     (if path = ''/dev/stdout'' \<or> path = ''stdout'' then Stdout
      else if path = ''/dev/stderr'' \<or> path = ''stderr'' then Stderr
      else if le_open le path then File path else Stdout)"

definition logLine :: "'s log_env \<Rightarrow> (string \<rightharpoonup> string) \<Rightarrow> bool \<Rightarrow> string" where
  "logLine le flds useJSON =
     (if useJSON then le_marshal le flds @ [CHR 10]
      else joinStr (map (\<lambda>k. k @ ''='' @ (case flds k of None \<Rightarrow> '''' | Some v \<Rightarrow> v)) (le_keys le flds)) '' '' @ [CHR 10])"

definition writeLine :: "'s log_env \<Rightarrow> log_sink \<Rightarrow> (string \<rightharpoonup> string) \<Rightarrow> bool \<Rightarrow> 's \<Rightarrow> 's" where
  "writeLine le lw flds useJSON = le_write le lw (logLine le flds useJSON)"

definition clientIPFromRequest :: "Request \<Rightarrow> string" where
  "clientIPFromRequest r =
     (let xff = headerGet (Req_Header r) ''X-Forwarded-For'' in
      if xff \<noteq> '''' then trimSpace (beforeSep xff '','')
      else case splitHostPort (Req_RemoteAddr r) of Some (h, p) \<Rightarrow> h | None \<Rightarrow> '''')"

record log_facts =
  lf_path :: string
  lf_status :: int
  lf_bytes :: int
  lf_id :: string
  lf_duration :: duration

definition interpolateField :: "'s log_env \<Rightarrow> Request \<Rightarrow> log_facts \<Rightarrow> string \<Rightarrow> string" where
  "interpolateField le r f tmpl =
     (let val = replaceAll tmpl ''${id}'' (lf_id f);
          val = replaceAll val ''${request.method}'' (Req_Method r);
          val = replaceAll val ''${request.path}'' (lf_path f);
          val = replaceAll val ''${request.host}'' (requestHost r);
          val = replaceAll val ''${request.authority}'' (Req_Host r);
          val = replaceAll val ''${request.clientIp}'' (clientIPFromRequest r);
          val = replaceAll val ''${request.scheme}'' (if Req_TLS r \<noteq> None then ''https'' else ''http'');
          val = expandHeaders (Req_Header r) val 0;
          val = replaceAll val ''${response.status}'' (itoaInt (lf_status f));
          val = replaceAll val ''${response.bytes}'' (itoaInt (lf_bytes f));
          val = replaceAll val ''${duration.ms}'' (itoaInt (quot (lf_duration f) (10 ^ 6)));
          val = replaceAll val ''${duration.us}'' (itoaInt (quot (lf_duration f) 1000))
      in replaceAll val ''${duration.s}'' (le_seconds le (lf_duration f)))"

definition interpolateFields ::
  "'s log_env \<Rightarrow> (string \<rightharpoonup> string) \<Rightarrow> Request \<Rightarrow> log_facts \<Rightarrow> (string \<rightharpoonup> string)" where
  "interpolateFields le flds r f = map_option (interpolateField le r f) \<circ> flds"

definition AccessLogMiddleware :: "'s log_env \<Rightarrow> AccessLogConfig option \<Rightarrow> 's mware" where
  "AccessLogMiddleware le cfg next =
     (case cfg of
        None \<Rightarrow> passthrough next
      | Some cfg \<Rightarrow>
          if AccessLogConfig_Path cfg = '''' then passthrough next
          else if AccessLogConfig_OnRequest cfg = None \<and> AccessLogConfig_OnResponse cfg = None then passthrough next
          else (\<lambda>r w s.
            let lw = openLogWriter le (AccessLogConfig_Path cfg);
                requestID = le_uuid le s;
                facts = \<lparr>lf_path = Req_Path r, lf_status = 0, lf_bytes = 0, lf_id = requestID, lf_duration = 0\<rparr>;
                s = (case AccessLogConfig_OnRequest cfg of
                       None \<Rightarrow> s
                     | Some entry \<Rightarrow> writeLine le lw (interpolateFields le (AccessLogEntry_Fields entry) r facts)
                                       (AccessLogConfig_JSON cfg) s);
                (res, s) = next r w s
            in case res of
                 Inl p \<Rightarrow> (Inl p, s)
               | Inr w \<Rightarrow>
                   (Inr w, case AccessLogConfig_OnResponse cfg of
                      None \<Rightarrow> s
                    | Some entry \<Rightarrow>
                        writeLine le lw (interpolateFields le (AccessLogEntry_Fields entry) (le_request le s r)
                          (facts\<lparr>lf_status := capturedCode w, lf_bytes := writtenBytes (le_encoded le) w,
                                 lf_duration := le_duration le s\<rparr>))
                          (AccessLogConfig_JSON cfg) s)))"

text \<open>The closing function of the middleware closes a file and leaves the standard streams alone.\<close>

definition closesSink :: "log_sink \<Rightarrow> bool" where
  "closesSink lw = (case lw of File p \<Rightarrow> True | _ \<Rightarrow> False)"

text \<open>A line break in the path, which arrives as an escape in the URL, ends a text entry early.\<close>

definition sampleLogEnv :: "string list log_env" where
  "sampleLogEnv =
     \<lparr>le_open = (\<lambda>p. True), le_write = (\<lambda>lw l s. s @ [l]), le_uuid = (\<lambda>s. ''1''), le_duration = (\<lambda>s. 0),
      le_keys = (\<lambda>m. [''path'']), le_marshal = (\<lambda>m. ''''), le_seconds = (\<lambda>d. ''''), le_encoded = (\<lambda>j. 0),
      le_request = (\<lambda>s r. r)\<rparr>"

lemma path_forges_entry:
  "logLine sampleLogEnv (interpolateFields sampleLogEnv [''path'' \<mapsto> ''${request.path}''] sampleRequest
     \<lparr>lf_path = ''/a'' @ CHR 10 # ''path=/b'', lf_status = 0, lf_bytes = 0, lf_id = ''1'', lf_duration = 0\<rparr>) False =
   ''path=/a'' @ CHR 10 # ''path=/b'' @ [CHR 10]"
  by code_simp

end
