(* ===== verification/Rate_Limit.thy ===== *)
theory Rate_Limit
  imports Complex_Main Http Go_Strings
begin

text \<open>
  The rate limiter (\<^verbatim>\<open>server/internal/proxy/middlewares/ratelimit.go\<close>): one token bucket per client
  address. Tokens are \<^verbatim>\<open>float64\<close> values: the model computes with real numbers and rounds every
  operation with \<open>fl_rnd\<close>, and \<open>fl_secs\<close> is \<^verbatim>\<open>Duration.Seconds\<close>. What is used of rounding is that it is
  monotone, keeps the integers up to two to the power of 53, and has a relative error of at most
  \<open>fl_eps\<close>, which for \<^verbatim>\<open>float64\<close> is two to the power of minus 53. Parsing of networks is a parameter.
\<close>

record arith =
  fl_rnd :: "real \<Rightarrow> real"
  fl_secs :: "duration \<Rightarrow> real"
  fl_eps :: real

record bucket =
  bk_tokens :: real
  bk_lastTime :: time

record tokenBucketLimiter =
  tb_rps :: real
  tb_burst :: int
  tb_buckets :: "string \<rightharpoonup> bucket"

definition newTokenBucketLimiter :: "real \<Rightarrow> int \<Rightarrow> tokenBucketLimiter" where
  "newTokenBucketLimiter rps burst =
     (let rps = (if rps \<le> 0 then 10 else rps);
          burst = (if burst \<le> 0 then \<lfloor>rps\<rfloor> else burst)
      in \<lparr>tb_rps = rps, tb_burst = burst, tb_buckets = Map.empty\<rparr>)"

definition refilled :: "arith \<Rightarrow> tokenBucketLimiter \<Rightarrow> time \<Rightarrow> bucket \<Rightarrow> real" where
  "refilled fl l now b =
     (let elapsed = fl_secs fl (timeSub now (bk_lastTime b));
          tokens = fl_rnd fl (bk_tokens b + fl_rnd fl (elapsed * tb_rps l))
      in if tokens > of_int (tb_burst l) then of_int (tb_burst l) else tokens)"

definition tb_Allow :: "arith \<Rightarrow> time \<Rightarrow> string \<Rightarrow> tokenBucketLimiter \<Rightarrow> bool \<times> tokenBucketLimiter" where
  "tb_Allow fl now key l =
     (let b = (case tb_buckets l key of
                 None \<Rightarrow> \<lparr>bk_tokens = of_int (tb_burst l), bk_lastTime = now\<rparr>
               | Some b \<Rightarrow> b);
          tokens = refilled fl l now b
      in if tokens < 1 then
           (False, l\<lparr>tb_buckets := (tb_buckets l)(key \<mapsto> \<lparr>bk_tokens = tokens, bk_lastTime = now\<rparr>)\<rparr>)
         else
           (True, l\<lparr>tb_buckets := (tb_buckets l)(key \<mapsto> \<lparr>bk_tokens = fl_rnd fl (tokens - 1), bk_lastTime = now\<rparr>)\<rparr>))"

definition evictionThreshold :: "arith \<Rightarrow> tokenBucketLimiter \<Rightarrow> duration" where
  "evictionThreshold fl l =
     swrap 64 (2 * \<lfloor>fl_rnd fl (fl_rnd fl (10 ^ 9 * of_int (tb_burst l)) / tb_rps l)\<rfloor>)"

definition evictStale :: "arith \<Rightarrow> time \<Rightarrow> tokenBucketLimiter \<Rightarrow> tokenBucketLimiter" where
  "evictStale fl now l =
     l\<lparr>tb_buckets := (\<lambda>key. case tb_buckets l key of
          None \<Rightarrow> None
        | Some b \<Rightarrow> if timeSub now (bk_lastTime b) > evictionThreshold fl l then None else Some b)\<rparr>"

subsection \<open>The client address\<close>

definition parseTrustedProxies :: "(string \<Rightarrow> (string \<Rightarrow> bool) option) \<Rightarrow> string list \<Rightarrow> (string \<Rightarrow> bool) list" where
  "parseTrustedProxies parseCIDR cidrs =
     concat (map (\<lambda>c. case parseCIDR c of None \<Rightarrow> [] | Some n \<Rightarrow> [n]) cidrs)"

definition clientIP :: "(string \<Rightarrow> bool) list \<Rightarrow> Request \<Rightarrow> string" where
  "clientIP trusted r =
     (let directIP = splitHost (Req_RemoteAddr r); xff = headerGet (Req_Header r) ''X-Forwarded-For'' in
      if length trusted > 0 \<and> xff \<noteq> '''' then
        if list_ex (\<lambda>n. n directIP) trusted then trimSpace (beforeSep xff '','') else directIP
      else directIP)"

text \<open>\<open>now\<close> is the clock reading of the request; the limiter is the state of the middleware.\<close>

definition RateLimitMiddleware ::
  "arith \<Rightarrow> (string \<Rightarrow> (string \<Rightarrow> bool) option) \<Rightarrow> ('s \<Rightarrow> time) \<Rightarrow> ('s \<Rightarrow> tokenBucketLimiter) \<Rightarrow>
   (tokenBucketLimiter \<Rightarrow> 's \<Rightarrow> 's) \<Rightarrow> RateLimitConfig option \<Rightarrow> 's mware" where
  "RateLimitMiddleware fl parseCIDR now get put cfg next =
     (case cfg of
        None \<Rightarrow> passthrough next
      | Some cfg \<Rightarrow> (\<lambda>r w s.
          let key = clientIP (parseTrustedProxies parseCIDR (RateLimitConfig_TrustedProxies cfg)) r;
              (ok, l) = tb_Allow fl (now s) key (get s);
              s = put l s
          in if \<not> ok then (writeJSONError w 429 ''rate limit exceeded'', s) else next r w s))"

subsection \<open>Rounding\<close>

locale rounding =
  fixes fl :: arith
  assumes eps: "0 \<le> fl_eps fl"
    and mono: "x \<le> y \<Longrightarrow> fl_rnd fl x \<le> fl_rnd fl y"
    and integer: "0 \<le> n \<Longrightarrow> n \<le> 2 ^ 53 \<Longrightarrow> fl_rnd fl (of_int n) = of_int n"
    and error: "0 \<le> x \<Longrightarrow> fl_rnd fl x \<le> (1 + fl_eps fl) * x"
    and secs: "0 \<le> d \<Longrightarrow> 0 \<le> fl_secs fl d \<and> fl_secs fl d \<le> (1 + fl_eps fl) * (of_int d / 10 ^ 9)"
begin

lemma rnd_nonneg: "0 \<le> x \<Longrightarrow> 0 \<le> fl_rnd fl x"
  using mono [of 0 x] integer [of 0] by simp

lemma refilled_range:
  assumes "0 \<le> bk_tokens b" and "bk_lastTime b \<le> now" and "0 < tb_rps l" and "0 \<le> tb_burst l"
  shows "0 \<le> refilled fl l now b" "refilled fl l now b \<le> of_int (tb_burst l)"
proof -
  have "0 \<le> fl_secs fl (timeSub now (bk_lastTime b))" using assms(2) secs [of "timeSub now (bk_lastTime b)"]
    by (simp add: timeSub_def)
  then have "0 \<le> bk_tokens b + fl_rnd fl (fl_secs fl (timeSub now (bk_lastTime b)) * tb_rps l)"
    using assms(1,3) by (intro add_nonneg_nonneg rnd_nonneg) simp_all
  from rnd_nonneg [OF this] assms(4)
  show "0 \<le> refilled fl l now b" by (simp add: refilled_def Let_def)
  show "refilled fl l now b \<le> of_int (tb_burst l)" by (simp add: refilled_def Let_def)
qed

text \<open>A refill adds at most the elapsed time at the configured rate, up to rounding.\<close>

lemma refilled_le:
  assumes "0 \<le> bk_tokens b" and "bk_lastTime b \<le> now" and "0 < tb_rps l" and "0 \<le> tb_burst l"
  shows "refilled fl l now b \<le> bk_tokens b + (1 + fl_eps fl)\<^sup>2 * (of_int (now - bk_lastTime b) / 10 ^ 9 * tb_rps l) +
    2 * fl_eps fl * of_int (tb_burst l)"
proof -
  define e t \<rho> B where defs: "e = fl_eps fl" "t = bk_tokens b"
    "\<rho> = fl_rnd fl (fl_secs fl (timeSub now (bk_lastTime b)) * tb_rps l)" "B = (of_int (tb_burst l) :: real)"
  let ?d = "of_int (now - bk_lastTime b) / 10 ^ 9 :: real"
  have e: "0 \<le> e" and t: "0 \<le> t" and B: "0 \<le> B" using eps assms(1,4) by (simp_all add: defs)
  have s: "0 \<le> fl_secs fl (timeSub now (bk_lastTime b))"
    "fl_secs fl (timeSub now (bk_lastTime b)) \<le> (1 + e) * (of_int (timeSub now (bk_lastTime b)) / 10 ^ 9)"
    using secs [of "timeSub now (bk_lastTime b)"] assms(2) by (simp_all add: timeSub_def defs)
  have "timeSub now (bk_lastTime b) \<le> now - bk_lastTime b" using assms(2) by (simp add: timeSub_def)
  then have "(of_int (timeSub now (bk_lastTime b)) :: real) \<le> of_int (now - bk_lastTime b)" by (simp only: of_int_le_iff)
  then have "(1 + e) * (of_int (timeSub now (bk_lastTime b)) / 10 ^ 9) \<le> (1 + e) * ?d"
    using e by (intro mult_left_mono divide_right_mono) simp_all
  then have s2: "fl_secs fl (timeSub now (bk_lastTime b)) \<le> (1 + e) * ?d" using s(2) by linarith
  have "fl_secs fl (timeSub now (bk_lastTime b)) * tb_rps l \<le> (1 + e) * ?d * tb_rps l"
    using s2 assms(3) by (intro mult_right_mono) simp_all
  then have "(1 + e) * (fl_secs fl (timeSub now (bk_lastTime b)) * tb_rps l) \<le> (1 + e) * ((1 + e) * ?d * tb_rps l)"
    using e by (intro mult_left_mono) simp_all
  then have \<rho>: "0 \<le> \<rho>" "\<rho> \<le> (1 + e)\<^sup>2 * (?d * tb_rps l)"
    using error [of "fl_secs fl (timeSub now (bk_lastTime b)) * tb_rps l"] s(1) assms(3)
      rnd_nonneg [of "fl_secs fl (timeSub now (bk_lastTime b)) * tb_rps l"]
    by (simp_all add: defs power2_eq_square algebra_simps)
  have r: "refilled fl l now b = (if fl_rnd fl (t + \<rho>) > B then B else fl_rnd fl (t + \<rho>))"
    by (simp add: refilled_def defs)
  have "refilled fl l now b \<le> t + \<rho> + 2 * e * B"
  proof (cases "t + \<rho> \<le> 2 * B")
    case True
    have "fl_rnd fl (t + \<rho>) \<le> (1 + e) * (t + \<rho>)" using error [of "t + \<rho>"] t \<rho>(1) by (simp add: defs)
    moreover have "e * (t + \<rho>) \<le> e * (2 * B)" using True e by (intro mult_left_mono)
    ultimately show ?thesis by (auto simp: r algebra_simps)
  next
    case False
    moreover have "0 \<le> 2 * e * B" using e B by simp
    moreover have "refilled fl l now b \<le> B" by (simp add: r)
    ultimately show ?thesis using B by linarith
  qed
  with \<rho>(2) show ?thesis by (simp add: defs)
qed

end

text \<open>The decisions for the requests of one client at the given times.\<close>

fun tb_Allows :: "arith \<Rightarrow> string \<Rightarrow> time list \<Rightarrow> tokenBucketLimiter \<Rightarrow> bool list" where
  "tb_Allows fl key [] l = []"
| "tb_Allows fl key (now # ts) l = (let (ok, l) = tb_Allow fl now key l in ok # tb_Allows fl key ts l)"

definition admitted :: "bool list \<Rightarrow> real" where
  "admitted oks = of_nat (length (filter id oks))"

lemma admitted_simps [simp]:
  "admitted [] = 0" "admitted (ok # oks) = (if ok then 1 else 0) + admitted oks"
  by (simp_all add: admitted_def)

lemma tb_Allow_config [simp]:
  "tb_rps (snd (tb_Allow fl now key l)) = tb_rps l" "tb_burst (snd (tb_Allow fl now key l)) = tb_burst l"
  by (simp_all add: tb_Allow_def Let_def)

context rounding begin

lemma Allow_step:
  assumes "tb_buckets l key = Some b" and "0 \<le> bk_tokens b" and "bk_lastTime b \<le> now"
    and "0 < tb_rps l" and "0 \<le> tb_burst l"
  shows "\<exists>b'. tb_buckets (snd (tb_Allow fl now key l)) key = Some b' \<and> 0 \<le> bk_tokens b' \<and> bk_lastTime b' = now \<and>
    (if fst (tb_Allow fl now key l) then 1 else 0) + bk_tokens b' \<le>
      bk_tokens b + (1 + fl_eps fl)\<^sup>2 * (of_int (now - bk_lastTime b) / 10 ^ 9 * tb_rps l) +
      3 * fl_eps fl * of_int (tb_burst l)"
proof -
  let ?s = "refilled fl l now b" and ?B = "of_int (tb_burst l) :: real" and ?e = "fl_eps fl"
  note range = refilled_range [OF assms(2-5)] and le = refilled_le [OF assms(2-5)]
  have eB: "0 \<le> ?e * ?B" using eps assms(5) by simp
  show ?thesis
  proof (cases "?s < 1")
    case True
    then have "tb_Allow fl now key l =
        (False, l\<lparr>tb_buckets := (tb_buckets l)(key \<mapsto> \<lparr>bk_tokens = ?s, bk_lastTime = now\<rparr>)\<rparr>)"
      using assms(1) by (simp add: tb_Allow_def)
    then show ?thesis using range(1) le eB by simp
  next
    case False
    then have allow: "tb_Allow fl now key l =
        (True, l\<lparr>tb_buckets := (tb_buckets l)(key \<mapsto> \<lparr>bk_tokens = fl_rnd fl (?s - 1), bk_lastTime = now\<rparr>)\<rparr>)"
      using assms(1) by (simp add: tb_Allow_def)
    have "fl_rnd fl (?s - 1) \<le> (1 + ?e) * (?s - 1)" using False error [of "?s - 1"] by simp
    moreover have "?e * (?s - 1) \<le> ?e * ?B" using range(2) eps by (intro mult_left_mono) simp_all
    ultimately have "fl_rnd fl (?s - 1) \<le> ?s - 1 + ?e * ?B" by (simp add: algebra_simps)
    moreover have "0 \<le> fl_rnd fl (?s - 1)" using False by (intro rnd_nonneg) simp
    ultimately show ?thesis using le by (simp add: allow)
  qed
qed

lemma Allows_bound:
  assumes "tb_buckets l key = Some b" and "0 \<le> bk_tokens b" and "sorted (bk_lastTime b # ts)"
    and "0 < tb_rps l" and "0 \<le> tb_burst l"
  shows "admitted (tb_Allows fl key ts l) \<le>
    bk_tokens b + (1 + fl_eps fl)\<^sup>2 * (of_int (last (bk_lastTime b # ts) - bk_lastTime b) / 10 ^ 9 * tb_rps l) +
    of_nat (length ts) * (3 * fl_eps fl * of_int (tb_burst l))"
  using assms
proof (induction ts arbitrary: l b)
  case Nil
  then show ?case by simp
next
  case (Cons now ts)
  obtain b' where b': "tb_buckets (snd (tb_Allow fl now key l)) key = Some b'" "0 \<le> bk_tokens b'" "bk_lastTime b' = now"
    and step: "(if fst (tb_Allow fl now key l) then 1 else 0) + bk_tokens b' \<le>
      bk_tokens b + (1 + fl_eps fl)\<^sup>2 * (of_int (now - bk_lastTime b) / 10 ^ 9 * tb_rps l) +
      3 * fl_eps fl * of_int (tb_burst l)"
    using Allow_step [OF Cons.prems(1,2) _ Cons.prems(4,5), of now] Cons.prems(3) by auto
  let ?c = "(1 + fl_eps fl)\<^sup>2" and ?r = "tb_rps l"
  have IH: "admitted (tb_Allows fl key ts (snd (tb_Allow fl now key l))) \<le>
      bk_tokens b' + ?c * (of_int (last (now # ts) - now) / 10 ^ 9 * ?r) +
      of_nat (length ts) * (3 * fl_eps fl * of_int (tb_burst l))"
    using Cons.IH [OF b'(1,2)] Cons.prems(3-5) b'(3) by simp
  have sum: "?c * (of_int (now - bk_lastTime b) / 10 ^ 9 * ?r) + ?c * (of_int (last (now # ts) - now) / 10 ^ 9 * ?r) =
      ?c * (of_int (last (now # ts) - bk_lastTime b) / 10 ^ 9 * ?r)"
    by (simp add: algebra_simps diff_divide_distrib)
  have len: "of_nat (length (now # ts)) * (3 * fl_eps fl * of_int (tb_burst l)) =
      3 * fl_eps fl * of_int (tb_burst l) + of_nat (length ts) * (3 * fl_eps fl * of_int (tb_burst l))"
    by (simp add: distrib_right)
  have adm: "admitted (tb_Allows fl key (now # ts) l) =
      (if fst (tb_Allow fl now key l) then 1 else 0) + admitted (tb_Allows fl key ts (snd (tb_Allow fl now key l)))"
    by (simp add: split_def Let_def)
  have last: "last (bk_lastTime b # now # ts) = last (now # ts)" by simp
  have "A \<le> t + Z + M" if "A = i + R" "R \<le> t' + Y + N" "i + t' \<le> t + X + K" "X + Y = Z" "M = K + N"
    for A i R t t' X Y Z K N M :: real using that by linarith
  from this [OF adm IH step sum len] show ?case unfolding last .
qed

lemma Allows_first:
  assumes "tb_buckets l key = None" and "0 < tb_rps l" and "0 \<le> tb_burst l"
  shows "tb_Allows fl key (now # ts) l = tb_Allows fl key (now # ts)
    (l\<lparr>tb_buckets := (tb_buckets l)(key \<mapsto> \<lparr>bk_tokens = of_int (tb_burst l), bk_lastTime = now\<rparr>)\<rparr>)"
  using assms by (simp add: tb_Allow_def refilled_def Let_def)

end

text \<open>Exact arithmetic is one instance of the rounding contract.\<close>

definition exactArith :: arith where
  "exactArith = \<lparr>fl_rnd = (\<lambda>x. x), fl_secs = (\<lambda>d. of_int d / 10 ^ 9), fl_eps = 0\<rparr>"

interpretation exact: rounding exactArith
  by unfold_locales (simp_all add: exactArith_def)

subsection \<open>Properties\<close>

text \<open>C14: However the requests of a new client are spaced, the limiter admits at most the burst plus the
  configured rate times the elapsed seconds, up to the rounding error of the floating-point
  operations: two roundings of the refill and three of the bucket per request.\<close>

theorem rate_limit_bound:
  assumes "rounding fl" and "tb_buckets l key = None" and "0 < tb_rps l" and "0 \<le> tb_burst l"
    and "sorted (t # ts)"
  shows "admitted (tb_Allows fl key (t # ts) l) \<le>
    of_int (tb_burst l) + (1 + fl_eps fl)\<^sup>2 * (of_int (last (t # ts) - t) / 10 ^ 9 * tb_rps l) +
    of_nat (length (t # ts)) * (3 * fl_eps fl * of_int (tb_burst l))"
proof -
  let ?l = "l\<lparr>tb_buckets := (tb_buckets l)(key \<mapsto> \<lparr>bk_tokens = of_int (tb_burst l), bk_lastTime = t\<rparr>)\<rparr>"
  have "admitted (tb_Allows fl key (t # ts) ?l) \<le>
      of_int (tb_burst l) + (1 + fl_eps fl)\<^sup>2 * (of_int (last (t # t # ts) - t) / 10 ^ 9 * tb_rps l) +
      of_nat (length (t # ts)) * (3 * fl_eps fl * of_int (tb_burst l))"
    using rounding.Allows_bound [OF assms(1), of ?l key "\<lparr>bk_tokens = of_int (tb_burst l), bk_lastTime = t\<rparr>" "t # ts"]
      assms(3-5) by simp
  then show ?thesis
    using rounding.Allows_first [OF assms(1-4), of t ts] by (simp del: tb_Allows.simps)
qed

theorem rate_limit_bound_witness:
  "admitted (tb_Allows exactArith ''10.0.0.1'' [0, 0, 0, 0, 500000000] (newTokenBucketLimiter 2 3)) \<le> 4"
  using rate_limit_bound [OF exact.rounding_axioms, of "newTokenBucketLimiter 2 3" "''10.0.0.1''" 0
      "[0, 0, 0, 500000000]"]
  by (simp add: newTokenBucketLimiter_def exactArith_def del: tb_Allows.simps)

text \<open>With a rate below one request per second and no burst configured the burst is zero, and every
  request is rejected.\<close>

lemma low_rate_rejects_all:
  assumes "rounding fl" and "0 < rps" and "rps < 1"
  shows "tb_burst (newTokenBucketLimiter rps 0) = 0" "\<not> fst (tb_Allow fl now key (newTokenBucketLimiter rps 0))"
proof -
  show burst: "tb_burst (newTokenBucketLimiter rps 0) = 0"
    using assms(2,3) by (simp add: newTokenBucketLimiter_def floor_eq_iff)
  have "refilled fl (newTokenBucketLimiter rps 0) now b \<le> 0" for b
    by (simp add: refilled_def Let_def burst)
  then have "refilled fl (newTokenBucketLimiter rps 0) now b < 1" for b
    using order.strict_trans1 zero_less_one by blast
  then show "\<not> fst (tb_Allow fl now key (newTokenBucketLimiter rps 0))"
    by (simp add: tb_Allow_def Let_def)
qed

end
