(* ===== verification/Cel.thy ===== *)
theory Cel
  imports Http Go_Strings
begin

text \<open>
  Expressions on requests (\<^verbatim>\<open>server/internal/proxy/celeval/cel.go\<close>). The CEL compiler is a parameter: it
  gives, for an expression, whether its type is bool and, if a program could be made, the function
  from the variables to the value, \<open>None\<close> standing for an evaluation error. Decoding JSON is a
  parameter as well, and \<open>keys\<close> gives the keys of a header or query map in the order of iteration.
\<close>

record celAst =
  ast_isBool :: bool
  ast_program :: "(json \<Rightarrow> json option) option"

type_synonym celLib = "string \<Rightarrow> celAst option"

record Program =
  prog_eval :: "json \<Rightarrow> json option"
  prog_needsBody :: bool

definition exprReferencesBody :: "string \<Rightarrow> bool" where
  "exprReferencesBody expr = contains expr ''request.body''"

definition cel_Compile :: "celLib \<Rightarrow> string \<Rightarrow> Program option" where
  "cel_Compile lib expr =
     (case lib expr of
        None \<Rightarrow> None
      | Some ast \<Rightarrow>
          if \<not> ast_isBool ast then None
          else (case ast_program ast of
                  None \<Rightarrow> None
                | Some prg \<Rightarrow> Some \<lparr>prog_eval = prg, prog_needsBody = exprReferencesBody expr\<rparr>))"

record cel_env =
  ce_lib :: celLib
  ce_decode :: "string \<Rightarrow> (string \<rightharpoonup> json) option"
  ce_keys :: "(string \<rightharpoonup> string list) \<Rightarrow> string list"
  ce_readFails :: "Request \<Rightarrow> bool"

subsection \<open>Buffering the body\<close>

definition bodyJSON :: "cel_env \<Rightarrow> Request \<Rightarrow> string \<Rightarrow> (string \<rightharpoonup> json) option" where
  "bodyJSON ce r raw =
     (if hasPrefix (headerGet (Req_Header r) ''Content-Type'') ''application/json'' then ce_decode ce raw else None)"

definition BufferBody :: "cel_env \<Rightarrow> int \<Rightarrow> Request \<Rightarrow> Request go" where
  "BufferBody ce maxSize r =
     (if Req_BodyData r \<noteq> None then Inr r
      else case Req_Body r of
        None \<Rightarrow> Inr (r\<lparr>Req_BodyData := Some \<lparr>bd_Raw = '''', bd_JSON = None\<rparr>\<rparr>)
      | Some body \<Rightarrow>
          if ce_readFails ce r then Inr (r\<lparr>Req_BodyData := Some \<lparr>bd_Raw = '''', bd_JSON = None\<rparr>\<rparr>)
          else
            let raw = take (nat (maxSize + 1)) body in
            if int (length raw) > maxSize then
              if maxSize < 0 then Inl IndexOutOfRange
              else let raw = take (nat maxSize) raw in
                   Inr (r\<lparr>Req_Body := Some raw, Req_BodyData := Some \<lparr>bd_Raw = raw, bd_JSON = None\<rparr>\<rparr>)
            else Inr (r\<lparr>Req_Body := Some raw, Req_BodyData := Some \<lparr>bd_Raw = raw, bd_JSON = bodyJSON ce r raw\<rparr>\<rparr>))"

subsection \<open>The variables of a request\<close>

definition firstValues :: "(string \<Rightarrow> string) \<Rightarrow> string list \<Rightarrow> (string \<rightharpoonup> string list) \<Rightarrow> json" where
  "firstValues f ks m =
     JObj (foldl (\<lambda>o' k. case m k of Some (v # vs) \<Rightarrow> o'(f k \<mapsto> JStr v) | _ \<Rightarrow> o') Map.empty ks)"

definition stripPort :: "string \<Rightarrow> string" where
  "stripPort host = beforeSep host '':''"

definition celClientIP :: "Request \<Rightarrow> string" where
  "celClientIP r =
     (let xff = headerGet (Req_Header r) ''X-Forwarded-For'' in
      if xff \<noteq> '''' then trimSpace (beforeSep xff '','')
      else case splitHostPort (Req_RemoteAddr r) of Some (h, p) \<Rightarrow> h | None \<Rightarrow> Req_RemoteAddr r)"

definition celBody :: "Request \<Rightarrow> (string \<times> json) list" where
  "celBody r =
     (case Req_BodyData r of
        None \<Rightarrow> []
      | Some data \<Rightarrow>
          [(''body'', jsonObj ((''raw'', JStr (bd_Raw data)) #
              (case bd_JSON data of None \<Rightarrow> [] | Some j \<Rightarrow> [(''json'', JObj j)])))])"

definition celTLS :: "Request \<Rightarrow> (string \<times> json) list" where
  "celTLS r =
     (case Req_TLS r of
        Some (cert # rest) \<Rightarrow>
          [(''tls'', jsonObj [(''peerCertificate'', jsonObj
             [(''uris'', JArr (map JStr (pc_URIs cert))), (''dnsNames'', JArr (map JStr (pc_DNSNames cert))),
              (''subject'', JStr (pc_Subject cert)), (''serial'', JStr (pc_Serial cert))])])]
      | _ \<Rightarrow> [])"

definition buildRequestMap :: "cel_env \<Rightarrow> Request \<Rightarrow> json" where
  "buildRequestMap ce r =
     jsonObj ([(''method'', JStr (Req_Method r)), (''path'', JStr (Req_Path r)),
               (''host'', JStr (stripPort (Req_Host r))),
               (''scheme'', JStr (if Req_TLS r \<noteq> None then ''https'' else ''http'')),
               (''headers'', firstValues toLowerStr (ce_keys ce (Req_Header r)) (Req_Header r)),
               (''queryParams'', firstValues id (ce_keys ce (Req_Query r)) (Req_Query r)),
               (''clientIp'', JStr (celClientIP r))] @ celBody r @ celTLS r)"

definition cel_Eval :: "cel_env \<Rightarrow> Program \<Rightarrow> Request \<Rightarrow> bool" where
  "cel_Eval ce p r =
     (case prog_eval p (jsonObj [(''request'', buildRequestMap ce r)]) of
        Some (JBool b) \<Rightarrow> b
      | _ \<Rightarrow> False)"

subsection \<open>Expressions on token claims\<close>

text \<open>\<open>sprint\<close> renders a value, as the \<^verbatim>\<open>%v\<close> verb does.\<close>

definition CompileClaims :: "celLib \<Rightarrow> string \<Rightarrow> (json \<Rightarrow> json option) option" where
  "CompileClaims lib expr =
     (case lib expr of None \<Rightarrow> None | Some ast \<Rightarrow> if \<not> ast_isBool ast then None else ast_program ast)"

definition claims_Eval :: "(json \<Rightarrow> json option) \<Rightarrow> (string \<rightharpoonup> json) \<Rightarrow> bool" where
  "claims_Eval prg claims =
     (case prg (jsonObj [(''claims'', JObj claims)]) of Some (JBool b) \<Rightarrow> b | _ \<Rightarrow> False)"

definition CompileClaimsString :: "celLib \<Rightarrow> string \<Rightarrow> (json \<Rightarrow> json option) option" where
  "CompileClaimsString lib expr = (case lib expr of None \<Rightarrow> None | Some ast \<Rightarrow> ast_program ast)"

definition claims_EvalString :: "(json \<Rightarrow> string) \<Rightarrow> (json \<Rightarrow> json option) \<Rightarrow> (string \<rightharpoonup> json) \<Rightarrow> string" where
  "claims_EvalString sprint prg claims =
     (case prg (jsonObj [(''claims'', JObj claims)]) of Some v \<Rightarrow> sprint v | None \<Rightarrow> '''')"

subsection \<open>Buffering again\<close>

text \<open>The body is buffered once; buffering again returns the same request.\<close>

lemma BufferBody_again: "BufferBody ce n r = Inr r' \<Longrightarrow> BufferBody ce m r' = Inr r'"
proof -
  assume "BufferBody ce n r = Inr r'"
  then have "Req_BodyData r' \<noteq> None"
    by (cases "Req_BodyData r"; cases "Req_Body r") (auto simp: BufferBody_def Let_def split: if_splits)
  then show ?thesis by (simp add: BufferBody_def)
qed

end
