(* ===== verification/Middlewares.thy ===== *)
theory Middlewares
  imports Cel
begin

text \<open>
  The middlewares that need nothing outside the process: CORS, header changes and inline
  authorization (\<^verbatim>\<open>cors.go\<close>, \<^verbatim>\<open>headers.go\<close>, \<^verbatim>\<open>inlineauthz.go\<close> and \<^verbatim>\<open>headermatch.go\<close> in
  \<^verbatim>\<open>server/internal/proxy/middlewares\<close>). \<open>re\<close> is the regular expression compiler, giving the
  match predicate of a valid pattern.
\<close>

type_synonym regexLib = "string \<Rightarrow> (string \<Rightarrow> bool) option"

subsection \<open>CORS\<close>

record originMatcher =
  om_exact :: string
  om_regex :: "(string \<Rightarrow> bool) option"

definition corsMatchers :: "regexLib \<Rightarrow> CORSOrigin list \<Rightarrow> originMatcher list" where
  "corsMatchers re os =
     concat (map (\<lambda>o'. if CORSOrigin_Regex o' then
                         (case re (CORSOrigin_Value o') of
                            Some m \<Rightarrow> [\<lparr>om_exact = '''', om_regex = Some m\<rparr>]
                          | None \<Rightarrow> [])
                       else [\<lparr>om_exact = CORSOrigin_Value o', om_regex = None\<rparr>]) os)"

definition originMatches :: "string \<Rightarrow> originMatcher \<Rightarrow> bool" where
  "originMatches origin m \<longleftrightarrow>
     om_exact m = ''*'' \<or> om_exact m = origin \<or> (case om_regex m of Some f \<Rightarrow> f origin | None \<Rightarrow> False)"

definition corsAllowed :: "regexLib \<Rightarrow> CORSConfig \<Rightarrow> string \<Rightarrow> bool" where
  "corsAllowed re cfg origin = list_ex (originMatches origin) (corsMatchers re (CORSConfig_AllowOrigins cfg))"

definition setIf :: "bool \<Rightarrow> string \<Rightarrow> string \<Rightarrow> RW \<Rightarrow> RW" where
  "setIf b k v w = (if b then setHeader k v w else w)"

definition CORSMiddleware :: "regexLib \<Rightarrow> CORSConfig option \<Rightarrow> 's mware" where
  "CORSMiddleware re cfg next =
     (case cfg of
        None \<Rightarrow> passthrough next
      | Some cfg \<Rightarrow> (\<lambda>r w s.
          let methods = joinStr (CORSConfig_AllowMethods cfg) '', '';
              headers = joinStr (CORSConfig_AllowHeaders cfg) '', '';
              expose = joinStr (CORSConfig_ExposeHeaders cfg) '', '';
              maxAge = (if CORSConfig_MaxAge cfg > 0 then itoaInt (CORSConfig_MaxAge cfg) else '''');
              origin = headerGet (Req_Header r) ''Origin''
          in if origin = '''' then next r w s
             else if \<not> corsAllowed re cfg origin then next r w s
             else
               let w = setHeader ''Access-Control-Allow-Origin'' origin w;
                   w = setIf (CORSConfig_AllowCredentials cfg) ''Access-Control-Allow-Credentials'' ''true'' w;
                   w = setIf (expose \<noteq> '''') ''Access-Control-Expose-Headers'' expose w
               in if Req_Method r = ''OPTIONS'' then
                    let w = setIf (methods \<noteq> '''') ''Access-Control-Allow-Methods'' methods w;
                        w = setIf (headers \<noteq> '''') ''Access-Control-Allow-Headers'' headers w;
                        w = setIf (maxAge \<noteq> '''') ''Access-Control-Max-Age'' maxAge w
                    in (WriteHeader 204 w, s)
                  else next r w s))"

subsection \<open>Header changes\<close>

definition addHeader :: "header \<Rightarrow> HeaderValue \<Rightarrow> header" where
  "addHeader h hv =
     (if HeaderValue_Append hv then headerAdd h (HeaderValue_Key hv) (HeaderValue_Value hv)
      else headerSet h (HeaderValue_Key hv) (HeaderValue_Value hv))"

definition changeHeaders :: "HeaderValue list \<Rightarrow> string list \<Rightarrow> header \<Rightarrow> header" where
  "changeHeaders adds removes h = foldl headerDel (foldl addHeader h adds) removes"

text \<open>
  The response headers change when the wrapped writer is first used. A handler that writes nothing
  leaves the wrapper unused, and it is dropped with the wrapped writer.
\<close>

definition HeadersMiddleware :: "HeadersConfig option \<Rightarrow> 's mware" where
  "HeadersMiddleware cfg next =
     (case cfg of
        None \<Rightarrow> passthrough next
      | Some cfg \<Rightarrow> (\<lambda>r w s.
          let r = r\<lparr>Req_Header := changeHeaders (HeadersConfig_RequestHeadersToAdd cfg)
                      (HeadersConfig_RequestHeadersToRemove cfg) (Req_Header r)\<rparr>;
              hook = changeHeaders (HeadersConfig_ResponseHeadersToAdd cfg) (HeadersConfig_ResponseHeadersToRemove cfg);
              (res, s) = next r (w\<lparr>rw_hooks := hook # rw_hooks w\<rparr>) s
          in (map_sum id (\<lambda>w'. if rw_hooks w' = [] then w' else w'\<lparr>rw_hooks := rw_hooks w\<rparr>) res, s)))"

subsection \<open>Inline authorization\<close>

record compiledAuthzRule =
  ar_program :: Program
  ar_action :: string

definition authzRules :: "cel_env \<Rightarrow> InlineAuthzConfig \<Rightarrow> compiledAuthzRule list" where
  "authzRules ce cfg =
     concat (map (\<lambda>r. case cel_Compile (ce_lib ce) (InlineAuthzRule_CEL r) of
                        None \<Rightarrow> []
                      | Some prg \<Rightarrow> [\<lparr>ar_program = prg, ar_action = InlineAuthzRule_Action r\<rparr>])
        (InlineAuthzConfig_Rules cfg))"

definition authzNeedsBody :: "cel_env \<Rightarrow> InlineAuthzConfig \<Rightarrow> bool" where
  "authzNeedsBody ce cfg = list_ex (\<lambda>rule. prog_needsBody (ar_program rule)) (authzRules ce cfg)"

definition denyStatus :: "InlineAuthzConfig \<Rightarrow> int" where
  "denyStatus cfg = (if InlineAuthzConfig_DenyStatus cfg = 0 then 403 else uint (InlineAuthzConfig_DenyStatus cfg))"

definition denyBody :: "InlineAuthzConfig \<Rightarrow> string" where
  "denyBody cfg =
     (if InlineAuthzConfig_DenyBody cfg = '''' then
        ''{'' @ [CHR 0x22] @ ''error'' @ [CHR 0x22] @ '':'' @ [CHR 0x22] @ ''access denied'' @ [CHR 0x22] @ ''}''
      else InlineAuthzConfig_DenyBody cfg)"

definition writeDenyResponse :: "int \<Rightarrow> string \<Rightarrow> RW \<Rightarrow> RW go" where
  "writeDenyResponse status body w =
     respond status [Raw body] (setHeader ''Content-Type'' ''application/json'' w)"

fun authzEval :: "cel_env \<Rightarrow> string \<Rightarrow> compiledAuthzRule list \<Rightarrow> Request \<Rightarrow> string" where
  "authzEval ce defaultAction [] r = defaultAction"
| "authzEval ce defaultAction (rule # rules) r =
     (if cel_Eval ce (ar_program rule) r then ar_action rule else authzEval ce defaultAction rules r)"

definition InlineAuthzMiddleware :: "cel_env \<Rightarrow> InlineAuthzConfig option \<Rightarrow> int \<Rightarrow> 's mware" where
  "InlineAuthzMiddleware ce cfg celBodyMaxSize next =
     (case cfg of
        None \<Rightarrow> passthrough next
      | Some cfg \<Rightarrow> (\<lambda>r w s.
          let defaultAction = (if InlineAuthzConfig_DefaultAction cfg = '''' then ''deny''
                               else InlineAuthzConfig_DefaultAction cfg)
          in case (if authzNeedsBody ce cfg then BufferBody ce celBodyMaxSize r else Inr r) of
               Inl p \<Rightarrow> (Inl p, s)
             | Inr r \<Rightarrow>
                 if authzEval ce defaultAction (authzRules ce cfg) r = ''allow'' then next r w s
                 else (writeDenyResponse (denyStatus cfg) (denyBody cfg) w, s)))"

definition InlineAuthzNeedsBody :: "cel_env \<Rightarrow> InlineAuthzConfig option \<Rightarrow> bool" where
  "InlineAuthzNeedsBody ce cfg = (case cfg of None \<Rightarrow> False | Some cfg \<Rightarrow> authzNeedsBody ce cfg)"

subsection \<open>Header patterns\<close>

definition headerPattern :: "string \<Rightarrow> string \<Rightarrow> bool" where
  "headerPattern lower p \<longleftrightarrow>
     (let pl = toLowerStr p in
      pl = lower \<or> hasSuffix pl ''*'' \<and> hasPrefix lower (take (length pl - 1) pl))"

definition headerMatchesAny :: "string \<Rightarrow> string list \<Rightarrow> bool" where
  "headerMatchesAny name patterns = list_ex (headerPattern (toLowerStr name)) patterns"

definition copyMatchingHeaders :: "(header \<Rightarrow> string list) \<Rightarrow> header \<Rightarrow> header \<Rightarrow> string list \<Rightarrow> header" where
  "copyMatchingHeaders keys dst src patterns =
     foldl (\<lambda>dst name. if headerMatchesAny name patterns
                       then foldl (\<lambda>dst v. headerAdd dst name v) dst (case src name of None \<Rightarrow> [] | Some vs \<Rightarrow> vs)
                       else dst) dst (keys src)"

end
