(* ===== verification/Ext_Authz.thy ===== *)
theory Ext_Authz
  imports Middlewares Interpolate Pool
begin

text \<open>
  External authorization (\<^verbatim>\<open>server/internal/proxy/middlewares/extauthz.go\<close>) in its HTTP and gRPC modes,
  with the services of \<^verbatim>\<open>service.go\<close>. The authorization service is a parameter: it answers a check
  with a response, or \<open>None\<close> when the call fails. Copying a body to the client is one write.
\<close>

record CheckReq =
  ck_Method :: string
  ck_URL :: string
  ck_Header :: header
  ck_Body :: "string option"

record CheckRequest =
  cq_Method :: string
  cq_Path :: string
  cq_Headers :: "(string \<times> string) list"
  cq_Body :: "string option"

record CheckResponse =
  cr_Allowed :: bool
  cr_Headers :: "(string \<times> string) list"
  cr_DeniedStatus :: uint32
  cr_DeniedBody :: "string option"

record Service =
  svc_BaseURL :: string
  svc_Transport :: "Transport option"

record authz_env =
  az_parseDuration :: "string \<Rightarrow> duration option"
  az_keys :: "header \<Rightarrow> string list"
  az_readFails :: "Request \<Rightarrow> bool"
  az_newRequest :: "string \<Rightarrow> string \<Rightarrow> bool"
  az_do :: "Service \<Rightarrow> duration \<Rightarrow> CheckReq \<Rightarrow> Response option"
  az_dial :: "string \<Rightarrow> bool"
  az_check :: "string \<Rightarrow> duration \<Rightarrow> CheckRequest \<Rightarrow> string + CheckResponse"
  az_requestURI :: "Request \<Rightarrow> string"

definition handleAuthzError :: "bool \<Rightarrow> string \<Rightarrow> 's handler \<Rightarrow> 's handler" where
  "handleAuthzError allow msg next =
     (\<lambda>r w s. if allow then next r w s else (writeJSONError w 403 (''ext_authz: '' @ msg), s))"

definition forwardedHeaders :: "ExtAuthzConfig \<Rightarrow> string list" where
  "forwardedHeaders cfg =
     ''host'' # ''content-length'' #
     (case ExtAuthzConfig_OnCheck cfg of None \<Rightarrow> [] | Some oc \<Rightarrow> map toLowerStr (ExtAuthzOnCheck_ForwardHeaders oc))"

definition headerPairs :: "authz_env \<Rightarrow> ExtAuthzConfig \<Rightarrow> header \<Rightarrow> (string \<times> string) list" where
  "headerPairs az cfg h =
     concat (map (\<lambda>key. if toLowerStr key \<in> set (forwardedHeaders cfg)
                        then map (\<lambda>v. (key, v)) (case h key of None \<Rightarrow> [] | Some vs \<Rightarrow> vs) else []) (az_keys az h))"

definition injectHeaders :: "ExtAuthzConfig \<Rightarrow> Request \<Rightarrow> header \<Rightarrow> header" where
  "injectHeaders cfg r h =
     (case ExtAuthzConfig_OnCheck cfg of
        None \<Rightarrow> h
      | Some oc \<Rightarrow> foldl (\<lambda>h hv. headerSet h (HeaderValue_Key hv) (Interpolate (HeaderValue_Value hv) r)) h
                      (ExtAuthzOnCheck_InjectHeaders oc))"

definition allowPatterns :: "ExtAuthzConfig \<Rightarrow> string list" where
  "allowPatterns cfg = (case ExtAuthzConfig_OnAllow cfg of None \<Rightarrow> [] | Some oa \<Rightarrow> ExtAuthzOnAllow_CopyToUpstream oa)"

definition denyPatterns :: "ExtAuthzConfig \<Rightarrow> string list" where
  "denyPatterns cfg =
     [''location'', ''set-cookie'', ''www-authenticate'', ''content-type''] @
     (case ExtAuthzConfig_OnDeny cfg of None \<Rightarrow> [] | Some od \<Rightarrow> ExtAuthzOnDeny_CopyToClient od)"

definition extAuthzHTTP :: "authz_env \<Rightarrow> ExtAuthzConfig \<Rightarrow> Service \<Rightarrow> duration \<Rightarrow> 's mware" where
  "extAuthzHTTP az cfg svc timeout next =
     (\<lambda>r w s.
        let url = svc_BaseURL svc @ ExtAuthzConfig_Path cfg;
            includeBody = (ExtAuthzConfig_IncludeBody cfg \<and> Req_Body r \<noteq> None)
        in if includeBody \<and> az_readFails az r then
             handleAuthzError (ExtAuthzConfig_FailureModeAllow cfg) ''failed to read request body'' next r w s
           else if \<not> az_newRequest az (Req_Method r) url then
             handleAuthzError (ExtAuthzConfig_FailureModeAllow cfg) ''failed to create check request'' next r w s
           else
             let h = foldl (\<lambda>h (k, v). headerAdd h k v) Map.empty (headerPairs az cfg (Req_Header r));
                 req = \<lparr>ck_Method = Req_Method r, ck_URL = url, ck_Header = injectHeaders cfg r h,
                        ck_Body = (if includeBody then Req_Body r else None)\<rparr>
             in case az_do az svc timeout req of
                  None \<Rightarrow>
                    handleAuthzError (ExtAuthzConfig_FailureModeAllow cfg) ''authz service unreachable'' next r w s
                | Some resp \<Rightarrow>
                    if 200 \<le> Resp_Status resp \<and> Resp_Status resp < 300 then
                      let r = (if length (allowPatterns cfg) > 0 then
                                 r\<lparr>Req_Header := copyMatchingHeaders (az_keys az) (Req_Header r) (Resp_Header resp)
                                                   (allowPatterns cfg)\<rparr>
                               else r)
                      in next r w s
                    else
                      (respond (Resp_Status resp) [Raw (Resp_Body resp)]
                         (w\<lparr>rw_header := copyMatchingHeaders (az_keys az) (rw_header w) (Resp_Header resp)
                                           (denyPatterns cfg)\<rparr>), s))"

definition extAuthzGRPC :: "authz_env \<Rightarrow> ExtAuthzConfig \<Rightarrow> Service \<Rightarrow> duration \<Rightarrow> 's mware" where
  "extAuthzGRPC az cfg svc timeout next =
     (let target = trimPrefix (trimPrefix (svc_BaseURL svc) ''http://'') ''https://'' in
      if \<not> az_dial az target then passthrough next
      else (\<lambda>r w s.
        let includeBody = (ExtAuthzConfig_IncludeBody cfg \<and> Req_Body r \<noteq> None) in
        if includeBody \<and> az_readFails az r then
          handleAuthzError (ExtAuthzConfig_FailureModeAllow cfg) ''failed to read request body'' next r w s
        else
          let req = \<lparr>cq_Method = Req_Method r, cq_Path = az_requestURI az r,
                     cq_Headers = map (\<lambda>(k, v). (toLowerStr k, v)) (headerPairs az cfg (Req_Header r)),
                     cq_Body = (if includeBody then Req_Body r else None)\<rparr>
          in case az_check az target timeout req of
               Inl err \<Rightarrow>
                 handleAuthzError (ExtAuthzConfig_FailureModeAllow cfg) (''grpc check failed: '' @ err) next r w s
             | Inr resp \<Rightarrow>
                 if cr_Allowed resp then
                   next (r\<lparr>Req_Header := foldl (\<lambda>h (k, v). headerSet h k v) (Req_Header r) (cr_Headers resp)\<rparr>) w s
                 else
                   let w = w\<lparr>rw_header := foldl (\<lambda>h (k, v). headerSet h k v) (rw_header w) (cr_Headers resp)\<rparr>;
                       status = (if cr_DeniedStatus resp = 0 then 403 else uint (cr_DeniedStatus resp))
                   in (respond status (case cr_DeniedBody resp of None \<Rightarrow> [] | Some b \<Rightarrow> [Raw b]) w, s)))"

definition ExtAuthzMiddleware ::
  "authz_env \<Rightarrow> ExtAuthzConfig option \<Rightarrow> (string \<rightharpoonup> Service) \<Rightarrow> 's mware" where
  "ExtAuthzMiddleware az cfg services next =
     (case cfg of
        None \<Rightarrow> passthrough next
      | Some cfg \<Rightarrow>
          if ExtAuthzConfig_DestinationID cfg = '''' then passthrough next
          else case services (ExtAuthzConfig_DestinationID cfg) of
            None \<Rightarrow> passthrough next
          | Some svc \<Rightarrow>
              let timeout = (if ExtAuthzConfig_DecisionTimeout cfg \<noteq> '''' then
                               case az_parseDuration az (ExtAuthzConfig_DecisionTimeout cfg) of
                                 Some d \<Rightarrow> d | None \<Rightarrow> 5 * second
                             else 5 * second)
              in if ExtAuthzConfig_Mode cfg = ''grpc'' then extAuthzGRPC az cfg svc timeout next
                 else extAuthzHTTP az cfg svc timeout next)"

end
