(* ===== verification/Jwt.thy ===== *)
theory Jwt
  imports Ext_Authz
begin

text \<open>
  Token validation (\<^verbatim>\<open>server/internal/proxy/middlewares/jwt.go\<close>). Hashing and signature verification, JSON and PEM decoding
  and the fetching of key sets are parameters; the conversion of ECDSA signatures, base64, the
  selection of keys and the checks of claims are translated. Byte strings are strings.
\<close>

subsection \<open>Base64 in the raw URL alphabet\<close>

definition sextet :: "char \<Rightarrow> nat option" where
  "sextet c =
     (let n = of_char c :: nat in
      if isUpper c then Some (n - 65) else if isLower c then Some (n - 97 + 26)
      else if isDigit c then Some (n - 48 + 52)
      else if c = CHR ''-'' then Some 62 else if c = CHR ''_'' then Some 63 else None)"

fun decodeQuads :: "nat list \<Rightarrow> string option" where
  "decodeQuads [] = Some []"
| "decodeQuads [a] = None"
| "decodeQuads [a, b] = Some [char_of (a * 4 + b div 16)]"
| "decodeQuads [a, b, c] = Some [char_of (a * 4 + b div 16), char_of (b mod 16 * 16 + c div 4)]"
| "decodeQuads (a # b # c # d # ns) =
     map_option (\<lambda>s. char_of (a * 4 + b div 16) # char_of (b mod 16 * 16 + c div 4) # char_of (c mod 4 * 64 + d) # s)
       (decodeQuads ns)"

text \<open>Line breaks in the input are skipped; any other character outside the alphabet is an error.\<close>

definition rawURLDecode :: "string \<Rightarrow> string option" where
  "rawURLDecode s =
     (let t = filter (\<lambda>c. c \<noteq> CHR 10 \<and> c \<noteq> CHR 13) s in
      if list_all (\<lambda>c. sextet c \<noteq> None) t then decodeQuads (map (the \<circ> sextet) t) else None)"

subsection \<open>Keys\<close>

datatype curve = P256 | P384 | P521

datatype hash = SHA256 | SHA384 | SHA512

datatype publicKey =
  RSAKey nat int
| ECKey curve nat nat
| EdKey string

record verifierKey =
  vk_kid :: string
  vk_alg :: string
  vk_key :: publicKey

record jwtHeader =
  jh_Alg :: string
  jh_Kid :: string

record jwkEntry =
  jwk_Kty :: string
  jwk_Kid :: string
  jwk_Alg :: string
  jwk_N :: string
  jwk_E :: string
  jwk_Crv :: string
  jwk_X :: string
  jwk_Y :: string

record jwt_env =
  jw_parseDuration :: "string \<Rightarrow> duration option"
  jw_cel :: celLib
  jw_sprint :: "json \<Rightarrow> string"
  jw_header :: "string \<Rightarrow> jwtHeader option"
  jw_claims :: "string \<Rightarrow> (string \<rightharpoonup> json) option"
  jw_keys :: "string \<Rightarrow> jwkEntry list option"
  jw_pem :: "string \<Rightarrow> publicKey option"
  jw_int64 :: "string \<Rightarrow> int"
  jw_rsa :: "nat \<times> int \<Rightarrow> hash \<Rightarrow> string \<Rightarrow> string \<Rightarrow> bool"
  jw_ec :: "curve \<times> nat \<times> nat \<Rightarrow> hash \<Rightarrow> string \<Rightarrow> string \<Rightarrow> bool"
  jw_ed :: "string \<Rightarrow> string \<Rightarrow> string \<Rightarrow> bool"

definition bigBytes :: "string \<Rightarrow> nat" where
  "bigBytes s = foldl (\<lambda>n c. 256 * n + of_char c) 0 s"

fun natBytes :: "nat \<Rightarrow> string" where
  "natBytes n = (if n = 0 then [] else natBytes (n div 256) @ [char_of (n mod 256)])"

declare natBytes.simps [simp del]

definition curveBits :: "curve \<Rightarrow> nat" where
  "curveBits c = (case c of P256 \<Rightarrow> 256 | P384 \<Rightarrow> 384 | P521 \<Rightarrow> 521)"

definition byteLen :: "curve \<Rightarrow> nat" where
  "byteLen c = (curveBits c + 7) div 8"

definition padHigh :: "string \<Rightarrow> string" where
  "padHigh s = (if s \<noteq> [] \<and> (of_char (hd s) :: nat) \<ge> 128 then char_of (0::nat) # s else s)"

definition ecConvertP1363ToASN1 :: "string \<Rightarrow> curve \<Rightarrow> string option" where
  "ecConvertP1363ToASN1 sig c =
     (if length sig \<noteq> 2 * byteLen c then None
      else
        let rBytes = padHigh (natBytes (bigBytes (take (byteLen c) sig)));
            sBytes = padHigh (natBytes (bigBytes (drop (byteLen c) sig)))
        in Some ([char_of (0x30::nat), char_of (length rBytes + length sBytes + 4),
                  char_of (0x02::nat), char_of (length rBytes)] @ rBytes @
                 [char_of (0x02::nat), char_of (length sBytes)] @ sBytes))"

definition rsaHashForAlg :: "string \<Rightarrow> hash" where
  "rsaHashForAlg alg =
     (if alg = ''RS384'' \<or> alg = ''PS384'' then SHA384
      else if alg = ''RS512'' \<or> alg = ''PS512'' then SHA512 else SHA256)"

definition ecHashForCurve :: "curve \<Rightarrow> hash" where
  "ecHashForCurve c = (case c of P384 \<Rightarrow> SHA384 | P521 \<Rightarrow> SHA512 | _ \<Rightarrow> SHA256)"

definition vk_verify :: "jwt_env \<Rightarrow> verifierKey \<Rightarrow> string \<Rightarrow> string \<Rightarrow> string \<Rightarrow> bool" where
  "vk_verify je vk alg content signature =
     (case vk_key vk of
        RSAKey n e \<Rightarrow> jw_rsa je (n, e) (rsaHashForAlg alg) content signature
      | ECKey c x y \<Rightarrow>
          (case ecConvertP1363ToASN1 signature c of
             None \<Rightarrow> False
           | Some sig \<Rightarrow> jw_ec je (c, x, y) (ecHashForCurve c) content sig)
      | EdKey k \<Rightarrow> jw_ed je k content signature)"

definition verifySignature :: "jwt_env \<Rightarrow> verifierKey list \<Rightarrow> jwtHeader \<Rightarrow> string \<Rightarrow> string \<Rightarrow> bool" where
  "verifySignature je keys header content signature =
     (length keys > 0 \<and>
      list_ex (\<lambda>k. \<not> (jh_Kid header \<noteq> '''' \<and> vk_kid k \<noteq> '''' \<and> jh_Kid header \<noteq> vk_kid k) \<and>
                   vk_verify je k (jh_Alg header) content signature) keys)"

subsection \<open>Claims\<close>

definition extractAudience :: "(string \<rightharpoonup> json) \<Rightarrow> string list" where
  "extractAudience claims =
     (case claims ''aud'' of
        Some (JStr v) \<Rightarrow> [v]
      | Some (JArr vs) \<Rightarrow> List.map_filter (\<lambda>a. case a of JStr s \<Rightarrow> Some s | _ \<Rightarrow> None) vs
      | _ \<Rightarrow> [])"

text \<open>\<open>now\<close> is the Unix time in seconds.\<close>

definition validateClaims :: "jwt_env \<Rightarrow> JWTConfig \<Rightarrow> int \<Rightarrow> (string \<rightharpoonup> json) \<Rightarrow> bool" where
  "validateClaims je cfg now claims =
     ((JWTConfig_Issuer cfg = '''' \<or> claims ''iss'' = Some (JStr (JWTConfig_Issuer cfg))) \<and>
      (length (JWTConfig_Audiences cfg) = 0 \<or>
        list_ex (\<lambda>a. list_ex (\<lambda>ca. a = ca) (extractAudience claims)) (JWTConfig_Audiences cfg)) \<and>
      (case claims ''exp'' of Some (JNum e) \<Rightarrow> \<not> now > jw_int64 je e | _ \<Rightarrow> False))"

definition validateSignatureAndClaims ::
  "jwt_env \<Rightarrow> JWTConfig \<Rightarrow> verifierKey list \<Rightarrow> int \<Rightarrow> jwtHeader \<Rightarrow> (string \<rightharpoonup> json) \<Rightarrow> string \<Rightarrow> string \<Rightarrow> bool" where
  "validateSignatureAndClaims je cfg keys now header claims signedContent signature =
     (if \<not> verifySignature je keys header signedContent signature then False else validateClaims je cfg now claims)"

definition extractBearerToken :: "Request \<Rightarrow> string" where
  "extractBearerToken r =
     (let auth = headerGet (Req_Header r) ''Authorization'' in
      if hasPrefix auth ''Bearer '' then drop 7 auth else '''')"

subsection \<open>Key sets\<close>

definition parseRSAJWK :: "jwkEntry \<Rightarrow> verifierKey option" where
  "parseRSAJWK k =
     (case (rawURLDecode (jwk_N k), rawURLDecode (jwk_E k)) of
        (Some n, Some e) \<Rightarrow>
          Some \<lparr>vk_kid = jwk_Kid k, vk_alg = jwk_Alg k, vk_key = RSAKey (bigBytes n) (swrap 64 (int (bigBytes e)))\<rparr>
      | _ \<Rightarrow> None)"

definition curveOf :: "string \<Rightarrow> curve option" where
  "curveOf crv =
     (if crv = ''P-256'' then Some P256 else if crv = ''P-384'' then Some P384
      else if crv = ''P-521'' then Some P521 else None)"

definition parseECJWK :: "jwkEntry \<Rightarrow> verifierKey option" where
  "parseECJWK k =
     (case (rawURLDecode (jwk_X k), rawURLDecode (jwk_Y k)) of
        (Some x, Some y) \<Rightarrow>
          map_option (\<lambda>c. \<lparr>vk_kid = jwk_Kid k, vk_alg = jwk_Alg k, vk_key = ECKey c (bigBytes x) (bigBytes y)\<rparr>)
            (curveOf (jwk_Crv k))
      | _ \<Rightarrow> None)"

definition parseOKPJWK :: "jwkEntry \<Rightarrow> verifierKey option" where
  "parseOKPJWK k =
     (if jwk_Crv k \<noteq> ''Ed25519'' then None
      else case rawURLDecode (jwk_X k) of
        None \<Rightarrow> None
      | Some x \<Rightarrow> if length x \<noteq> 32 then None
                  else Some \<lparr>vk_kid = jwk_Kid k, vk_alg = jwk_Alg k, vk_key = EdKey x\<rparr>)"

definition parseJWK :: "jwkEntry \<Rightarrow> verifierKey option" where
  "parseJWK k =
     (if jwk_Kty k = ''RSA'' then parseRSAJWK k else if jwk_Kty k = ''EC'' then parseECJWK k
      else if jwk_Kty k = ''OKP'' then parseOKPJWK k else None)"

definition parsePEM :: "jwt_env \<Rightarrow> string \<Rightarrow> verifierKey list option" where
  "parsePEM je data = map_option (\<lambda>k. [\<lparr>vk_kid = '''', vk_alg = '''', vk_key = k\<rparr>]) (jw_pem je data)"

definition parseJWKS :: "jwt_env \<Rightarrow> string \<Rightarrow> verifierKey list option" where
  "parseJWKS je data =
     (case jw_keys je data of
        None \<Rightarrow> parsePEM je data
      | Some ks \<Rightarrow> Some (List.map_filter parseJWK ks))"

text \<open>\<open>resp\<close> is the answer of the key server, \<open>None\<close> when it cannot be reached or read.\<close>

definition refreshKeys :: "jwt_env \<Rightarrow> Response option \<Rightarrow> verifierKey list \<Rightarrow> verifierKey list" where
  "refreshKeys je resp keys =
     (case resp of
        None \<Rightarrow> keys
      | Some rs \<Rightarrow> (case parseJWKS je (Resp_Body rs) of None \<Rightarrow> keys | Some ks \<Rightarrow> ks))"

definition jwksTimeout :: "jwt_env \<Rightarrow> JWTConfig \<Rightarrow> duration" where
  "jwksTimeout je cfg =
     (if JWTConfig_JWKsRetrievalTimeout cfg \<noteq> '''' then
        case jw_parseDuration je (JWTConfig_JWKsRetrievalTimeout cfg) of Some d \<Rightarrow> d | None \<Rightarrow> 10 * second
      else 10 * second)"

definition initialKeys ::
  "jwt_env \<Rightarrow> JWTConfig \<Rightarrow> (string \<rightharpoonup> Service) \<Rightarrow> (Service \<Rightarrow> duration \<Rightarrow> string \<Rightarrow> Response option) \<Rightarrow> verifierKey list" where
  "initialKeys je cfg services fetch =
     (if JWTConfig_JWKsInline cfg \<noteq> '''' then
        (case parseJWKS je (JWTConfig_JWKsInline cfg) of None \<Rightarrow> [] | Some ks \<Rightarrow> ks)
      else if JWTConfig_JWKsPath cfg \<noteq> '''' \<and> JWTConfig_JWKsDestinationID cfg \<noteq> '''' then
        (case services (JWTConfig_JWKsDestinationID cfg) of
           None \<Rightarrow> []
         | Some svc \<Rightarrow>
             refreshKeys je (fetch svc (jwksTimeout je cfg) (svc_BaseURL svc @ JWTConfig_JWKsPath cfg)) [])
      else [])"

subsection \<open>The middleware\<close>

fun splitDot :: "string \<Rightarrow> string list" where
  "splitDot [] = [[]]"
| "splitDot (c # s) =
     (if c = CHR ''.'' then [] # splitDot s
      else case splitDot s of [] \<Rightarrow> [[c]] | f # fs \<Rightarrow> (c # f) # fs)"

definition setClaimHeaders :: "jwt_env \<Rightarrow> JWTConfig \<Rightarrow> (string \<rightharpoonup> json) \<Rightarrow> header \<Rightarrow> header" where
  "setClaimHeaders je cfg claims h =
     foldl (\<lambda>h cth. case CompileClaimsString (jw_cel je) (JWTClaimHeader_Expr cth) of
                      None \<Rightarrow> h
                    | Some prg \<Rightarrow>
                        (let val = claims_EvalString (jw_sprint je) prg claims in
                         if val \<noteq> '''' then headerSet h (JWTClaimHeader_Header cth) val else h))
       h (JWTConfig_ClaimToHeaders cfg)"

definition assertionsHold :: "jwt_env \<Rightarrow> JWTConfig \<Rightarrow> (string \<rightharpoonup> json) \<Rightarrow> bool" where
  "assertionsHold je cfg claims =
     list_all (\<lambda>prg. claims_Eval prg claims) (List.map_filter (CompileClaims (jw_cel je)) (JWTConfig_AssertClaims cfg))"

definition JWTMiddleware ::
  "jwt_env \<Rightarrow> ('s \<Rightarrow> verifierKey list) \<Rightarrow> ('s \<Rightarrow> int) \<Rightarrow> JWTConfig option \<Rightarrow> 's mware" where
  "JWTMiddleware je keys now cfg next =
     (case cfg of
        None \<Rightarrow> passthrough next
      | Some cfg \<Rightarrow>
          if JWTConfig_Issuer cfg = '''' then passthrough next
          else (\<lambda>r w s.
            let token = extractBearerToken r; parts = splitDot token;
                reject = (\<lambda>msg. (writeJSONError w 401 msg, s))
            in if token = '''' then reject ''missing authorization token''
               else if length parts \<noteq> 3 then reject ''invalid token format''
               else case Option.bind (rawURLDecode (parts ! 0)) (jw_header je) of
                 None \<Rightarrow> reject ''invalid token header''
               | Some header \<Rightarrow>
                   (case Option.bind (rawURLDecode (parts ! 1)) (jw_claims je) of
                      None \<Rightarrow> reject ''invalid token claims''
                    | Some claims \<Rightarrow>
                        (case rawURLDecode (parts ! 2) of
                           None \<Rightarrow> reject ''invalid token signature''
                         | Some signature \<Rightarrow>
                             if \<not> validateSignatureAndClaims je cfg (keys s) (now s) header claims
                                   (parts ! 0 @ ''.'' @ parts ! 1) signature
                             then reject ''token validation failed''
                             else
                               let h = setClaimHeaders je cfg claims (Req_Header r);
                                   h = (if JWTConfig_ForwardJWT cfg then h else headerDel h ''Authorization'');
                                   r = r\<lparr>Req_Header := h\<rparr>
                               in if \<not> assertionsHold je cfg claims
                                  then (writeJSONError w 403 ''claim assertion failed'', s)
                                  else next r w s))))"

subsection \<open>Signatures in DER\<close>

text \<open>
  The reference: a reader of a DER sequence of two positive integers. A length below 128 is one byte.
  Otherwise the byte gives, above 128, the number of bytes of the length, which follow and must not be
  more than needed.
\<close>

definition derLength :: "string \<Rightarrow> (nat \<times> string) option" where
  "derLength s =
     (case s of
        [] \<Rightarrow> None
      | b # t \<Rightarrow>
          let n = of_char b :: nat in
          if n < 128 then Some (n, t)
          else
            let k = n - 128; l = bigBytes (take k t) in
            if k = 0 \<or> length t < k \<or> l < 128 \<or> l < 256 ^ (k - 1) then None else Some (l, drop k t))"

definition derInteger :: "string \<Rightarrow> (nat \<times> string) option" where
  "derInteger s =
     (case s of
        [] \<Rightarrow> None
      | b # t \<Rightarrow>
          if (of_char b :: nat) \<noteq> 0x02 then None
          else case derLength t of
            None \<Rightarrow> None
          | Some (l, u) \<Rightarrow>
              let v = take l u in
              if l = 0 \<or> length u < l then None
              else if (of_char (hd v) :: nat) \<ge> 128 then None
              else if l > 1 \<and> (of_char (hd v) :: nat) = 0 \<and> (of_char (v ! 1) :: nat) < 128 then None
              else Some (bigBytes v, drop l u))"

definition derSignature :: "string \<Rightarrow> (nat \<times> nat) option" where
  "derSignature s =
     (case s of
        [] \<Rightarrow> None
      | b # t \<Rightarrow>
          if (of_char b :: nat) \<noteq> 0x30 then None
          else case derLength t of
            None \<Rightarrow> None
          | Some (l, u) \<Rightarrow>
              if length u \<noteq> l then None
              else case derInteger u of
                None \<Rightarrow> None
              | Some (r, v) \<Rightarrow>
                  (case derInteger v of
                     Some (s, []) \<Rightarrow> if r = 0 \<or> s = 0 then None else Some (r, s)
                   | _ \<Rightarrow> None))"

lemma bigBytes_foldl: "foldl (\<lambda>n c. 256 * n + of_char c) a s = a * 256 ^ length s + bigBytes s"
proof (induction s arbitrary: a)
  case (Cons c s)
  have "bigBytes (c # s) = of_char c * 256 ^ length s + bigBytes s"
    using Cons[of "of_char c"] by (simp add: bigBytes_def)
  with Cons[of "256 * a + of_char c"] show ?case by (simp add: algebra_simps)
qed (simp add: bigBytes_def)

lemma bigBytes_append: "bigBytes (s @ t) = bigBytes s * 256 ^ length t + bigBytes t"
  using bigBytes_foldl[of "bigBytes s" t] by (simp add: bigBytes_def)

lemma bigBytes_simps [simp]:
  "bigBytes [] = 0" "bigBytes (c # s) = of_char c * 256 ^ length s + bigBytes s"
  using bigBytes_append[of "[c]" s] by (simp_all add: bigBytes_def)

lemma bigBytes_less: "bigBytes s < 256 ^ length s"
proof (induction s)
  case (Cons c s)
  have "of_char c * 256 ^ length s + bigBytes s < (of_char c + 1) * 256 ^ length s" using Cons by simp
  also have "\<dots> \<le> 256 * 256 ^ length s"
    using nat_of_char_less_256[of c] by (intro mult_right_mono) linarith+
  finally show ?case by simp
qed simp

lemma bigBytes_natBytes: "bigBytes (natBytes n) = n"
proof (induction n rule: natBytes.induct)
  case (1 n)
  then show ?case by (cases "n = 0") (simp_all add: natBytes.simps[of n] natBytes.simps[of 0] bigBytes_append)
qed

lemma natBytes_hd: "natBytes n \<noteq> [] \<Longrightarrow> (of_char (hd (natBytes n)) :: nat) \<noteq> 0"
proof (induction n rule: natBytes.induct)
  case (1 n)
  show ?case
  proof (cases "n div 256 = 0")
    case True
    with 1(2) show ?thesis by (auto simp: natBytes.simps[of n] natBytes.simps[of 0] split: if_splits)
  next
    case False
    then have "natBytes (n div 256) \<noteq> []" by (simp add: natBytes.simps[of "n div 256"])
    with 1(1) False show ?thesis by (cases "n = 0") (simp_all add: natBytes.simps[of n])
  qed
qed

lemma natBytes_length: "n < 256 ^ k \<Longrightarrow> length (natBytes n) \<le> k"
proof (induction k arbitrary: n)
  case (Suc k)
  then have "n div 256 < 256 ^ k" by (simp add: less_mult_imp_div_less mult.commute)
  from Suc(1)[OF this] show ?case by (cases "n = 0") (simp_all add: natBytes.simps[of n])
qed (simp add: natBytes.simps)

text \<open>The minimal encoding of a positive integer.\<close>

definition intBytes :: "nat \<Rightarrow> string" where
  "intBytes n = padHigh (natBytes n)"

lemma intBytes_value: "bigBytes (intBytes n) = n"
  by (simp add: intBytes_def padHigh_def bigBytes_natBytes)

lemma intBytes_length:
  assumes "n < 256 ^ k"
  shows "length (intBytes n) \<le> k + 1"
  using natBytes_length[OF assms] by (simp add: intBytes_def padHigh_def)

lemma intBytes_minimal:
  assumes "0 < n"
  shows "intBytes n \<noteq> []" "(of_char (hd (intBytes n)) :: nat) < 128"
    "length (intBytes n) > 1 \<Longrightarrow> (of_char (hd (intBytes n)) :: nat) = 0 \<Longrightarrow> (of_char (intBytes n ! 1) :: nat) \<ge> 128"
proof -
  have "natBytes n \<noteq> []" using assms by (simp add: natBytes.simps[of n])
  moreover note natBytes_hd[OF this]
  ultimately show "intBytes n \<noteq> []" "(of_char (hd (intBytes n)) :: nat) < 128"
    "length (intBytes n) > 1 \<Longrightarrow> (of_char (hd (intBytes n)) :: nat) = 0 \<Longrightarrow> (of_char (intBytes n ! 1) :: nat) \<ge> 128"
    by (auto simp: intBytes_def padHigh_def hd_conv_nth split: if_splits)
qed

lemma derInteger_encoded:
  assumes "0 < n" and "length (intBytes n) < 128"
  shows "derInteger (char_of (2::nat) # char_of (length (intBytes n)) # intBytes n @ t) = Some (n, t)"
  using assms intBytes_minimal[OF assms(1)] intBytes_value[of n]
  by (auto simp: derInteger_def derLength_def Let_def nth_append hd_append)

text \<open>A one-byte length of 128 or more announces a long form, which two integers of this size never match.\<close>

lemma derLength_overflow:
  assumes "128 \<le> length u" and "length u < 256" and "u = char_of (2::nat) # v"
    and "derLength (char_of (length u) # u) = Some (l, t)"
  shows "length t \<noteq> l"
proof -
  define k where "k = length u - 128"
  have n: "of_char (char_of (length u) :: char) = length u" using assms(2) by simp
  have l: "l = bigBytes (take k u)" "t = drop k u" "k \<noteq> 0" "128 \<le> l" "k \<le> length u"
    using assms(1,4) n by (auto simp: derLength_def Let_def k_def split: if_splits)
  have "k \<noteq> 1" using l(1,4) assms(3) by auto
  with l(3) obtain j where j: "k = Suc (Suc j)" by (metis One_nat_def not0_implies_Suc)
  have "length (take (Suc j) v) = Suc j" using l(5) assms(3) j by simp
  then have "2 * 256 ^ Suc j \<le> l" using l(1) assms(3) j by simp
  moreover have "(256::nat) \<le> 256 ^ Suc j" by simp
  ultimately have "512 \<le> l" by linarith
  moreover have "length t \<le> length u" using l(2) by simp
  ultimately show ?thesis using assms(2) by linarith
qed

lemma derSignature_encoded:
  assumes "0 < r" "0 < s" and "length (intBytes r) < 126" "length (intBytes s) < 126"
  shows "derSignature ([char_of (0x30::nat), char_of (length (intBytes r) + length (intBytes s) + 4), char_of (0x02::nat),
      char_of (length (intBytes r))] @ intBytes r @ [char_of (0x02::nat), char_of (length (intBytes s))] @ intBytes s) =
    (if length (intBytes r) + length (intBytes s) + 4 < 128 then Some (r, s) else None)"
proof -
  define u where "u = char_of (2::nat) # char_of (length (intBytes r)) # intBytes r @
    char_of (2::nat) # char_of (length (intBytes s)) # intBytes s"
  have len: "length u = length (intBytes r) + length (intBytes s) + 4" by (simp add: u_def)
  have sig: "derSignature (char_of (0x30::nat) # char_of (length u) # u) =
      (if length u < 128 then Some (r, s) else None)"
  proof (cases "length u < 128")
    case True
    have "derInteger u = Some (r, char_of (2::nat) # char_of (length (intBytes s)) # intBytes s)"
      unfolding u_def using derInteger_encoded[OF assms(1)] assms(3) by simp
    moreover have "derInteger (char_of (2::nat) # char_of (length (intBytes s)) # intBytes s) = Some (s, [])"
      using derInteger_encoded[OF assms(2), of "[]"] assms(4) by simp
    moreover have "derLength (char_of (length u) # u) = Some (length u, u)"
      using True by (simp add: derLength_def)
    ultimately show ?thesis using True assms(1,2) by (simp add: derSignature_def)
  next
    case False
    then have "length t \<noteq> l" if "derLength (char_of (length u) # u) = Some (l, t)" for l t
      using derLength_overflow[OF _ _ _ that] assms(3,4) len by (simp add: u_def)
    with False show ?thesis by (auto simp: derSignature_def split: option.split)
  qed
  then show ?thesis unfolding len[symmetric] by (simp add: u_def)
qed

text \<open>C13: A JWT signature of the right size with positive components r and s, converted for verification,
  is the DER encoding of r and s, so the verifier sees the signature that was sent, on the curves P-256
  and P-384. On P-521 this holds only while the encoding is shorter than 128 bytes: two components
  whose encodings take 124 bytes together or more, which all but a vanishing fraction do, give a
  string that no DER reader accepts.\<close>

theorem ecdsa_signature_round_trip:
  assumes "length sig = 2 * byteLen c"
    and "r = bigBytes (take (byteLen c) sig)" "s = bigBytes (drop (byteLen c) sig)" and "0 < r" "0 < s"
  shows "\<exists>der. ecConvertP1363ToASN1 sig c = Some der \<and>
    derSignature der =
      (if c = P521 \<and> 124 \<le> length (intBytes r) + length (intBytes s) then None else Some (r, s))"
proof -
  have len: "byteLen P256 = 32" "byteLen P384 = 48" "byteLen P521 = 66" by (simp_all add: byteLen_def curveBits_def)
  have "r < 256 ^ byteLen c" "s < 256 ^ byteLen c"
    using bigBytes_less[of "take (byteLen c) sig"] bigBytes_less[of "drop (byteLen c) sig"] assms(1-3)
    by (simp_all add: min_absorb2)
  from this[THEN intBytes_length] have le: "length (intBytes r) \<le> byteLen c + 1" "length (intBytes s) \<le> byteLen c + 1" .
  then have short: "length (intBytes r) < 126" "length (intBytes s) < 126" using len by (cases c; simp)+
  define der where "der = [char_of (0x30::nat), char_of (length (intBytes r) + length (intBytes s) + 4),
      char_of (0x02::nat), char_of (length (intBytes r))] @ intBytes r @
      [char_of (0x02::nat), char_of (length (intBytes s))] @ intBytes s"
  have "ecConvertP1363ToASN1 sig c = Some der"
    using assms(1) unfolding ecConvertP1363ToASN1_def der_def Let_def intBytes_def assms(2,3) by simp
  moreover have "derSignature der = (if length (intBytes r) + length (intBytes s) + 4 < 128 then Some (r, s) else None)"
    unfolding der_def by (rule derSignature_encoded[OF assms(4,5) short])
  moreover have "length (intBytes r) + length (intBytes s) + 4 < 128 \<longleftrightarrow>
      \<not> (c = P521 \<and> 124 \<le> length (intBytes r) + length (intBytes s))"
    using le len by (cases c) auto
  ultimately show ?thesis by (metis (full_types))
qed

definition sampleSignature :: string where
  "sampleSignature = replicate 31 (char_of (0::nat)) @ [char_of (5::nat)] @ replicate 31 (char_of (0::nat)) @ [char_of (200::nat)]"

theorem ecdsa_signature_round_trip_witness:
  "length sampleSignature = 2 * byteLen P256 \<and>
   (\<exists>der. ecConvertP1363ToASN1 sampleSignature P256 = Some der \<and> derSignature der = Some (5, 200))"
proof -
  have "length sampleSignature = 2 * byteLen P256" "bigBytes (take (byteLen P256) sampleSignature) = 5"
    "bigBytes (drop (byteLen P256) sampleSignature) = 200" by code_simp+
  then show ?thesis using ecdsa_signature_round_trip[of sampleSignature P256 5 200] by simp
qed

subsection \<open>The gate\<close>

text \<open>C9: only verified tokens pass. If the next handler makes any difference to the response, the request
  carries a token of three parts whose signature over the first two is verified by a key of the
  key set, issued by the configured issuer, for a configured audience if there are any, and not expired.\<close>

theorem only_verified_tokens_pass:
  fixes s :: 's
  assumes "JWTConfig_Issuer cfg \<noteq> ''''"
    and "JWTMiddleware je keys now (Some cfg) nh r w s \<noteq> JWTMiddleware je keys now (Some cfg) nh' r w s"
  shows "\<exists>header claims signature k e. let parts = splitDot (extractBearerToken r) in
    length parts = 3 \<and> Option.bind (rawURLDecode (parts ! 0)) (jw_header je) = Some header \<and>
    Option.bind (rawURLDecode (parts ! 1)) (jw_claims je) = Some claims \<and> rawURLDecode (parts ! 2) = Some signature \<and>
    k \<in> set (keys s) \<and> vk_verify je k (jh_Alg header) (parts ! 0 @ ''.'' @ parts ! 1) signature \<and>
    claims ''iss'' = Some (JStr (JWTConfig_Issuer cfg)) \<and>
    (JWTConfig_Audiences cfg = [] \<or> set (JWTConfig_Audiences cfg) \<inter> set (extractAudience claims) \<noteq> {}) \<and>
    claims ''exp'' = Some (JNum e) \<and> now s \<le> jw_int64 je e"
proof -
  define parts where "parts = splitDot (extractBearerToken r)"
  obtain header claims signature where len: "length parts = 3"
    and h: "Option.bind (rawURLDecode (parts ! 0)) (jw_header je) = Some header"
    and c: "Option.bind (rawURLDecode (parts ! 1)) (jw_claims je) = Some claims"
    and g: "rawURLDecode (parts ! 2) = Some signature"
    and v: "validateSignatureAndClaims je cfg (keys s) (now s) header claims (parts ! 0 @ ''.'' @ parts ! 1) signature"
    using assms by (simp add: JWTMiddleware_def Let_def parts_def split: if_splits option.splits)
  have sig: "verifySignature je (keys s) header (parts ! 0 @ ''.'' @ parts ! 1) signature" and cl: "validateClaims je cfg (now s) claims"
    using v by (simp_all add: validateSignatureAndClaims_def split: if_splits)
  obtain k where k: "k \<in> set (keys s)" "vk_verify je k (jh_Alg header) (parts ! 0 @ ''.'' @ parts ! 1) signature"
    using sig by (auto simp: verifySignature_def list_ex_iff)
  obtain e where e: "claims ''exp'' = Some (JNum e)" "now s \<le> jw_int64 je e"
    using cl by (auto simp: validateClaims_def split: option.splits json.splits)
  have iss: "claims ''iss'' = Some (JStr (JWTConfig_Issuer cfg))" using cl assms(1) by (simp add: validateClaims_def)
  have aud: "JWTConfig_Audiences cfg = [] \<or> set (JWTConfig_Audiences cfg) \<inter> set (extractAudience claims) \<noteq> {}"
    using cl by (auto simp: validateClaims_def list_ex_iff)
  show ?thesis unfolding Let_def parts_def [symmetric] using len h c g k e iss aud by blast
qed

text \<open>An environment in which the token \<^verbatim>\<open>aa.bb.cc\<close> is valid until the time 9.\<close>

definition sampleJwt :: jwt_env where
  "sampleJwt =
     \<lparr>jw_parseDuration = (\<lambda>d. None), jw_cel = (\<lambda>x. None), jw_sprint = (\<lambda>j. ''''),
      jw_header = (\<lambda>b. Some \<lparr>jh_Alg = ''EdDSA'', jh_Kid = ''''\<rparr>),
      jw_claims = (\<lambda>b. Some [''iss'' \<mapsto> JStr ''i'', ''exp'' \<mapsto> JNum ''9'']), jw_keys = (\<lambda>b. None), jw_pem = (\<lambda>b. None),
      jw_int64 = (\<lambda>n. 9), jw_rsa = (\<lambda>k h m g. False), jw_ec = (\<lambda>k h m g. False), jw_ed = (\<lambda>k m g. m = ''aa.bb'')\<rparr>"

definition sampleJwtConfig :: JWTConfig where
  "sampleJwtConfig =
     \<lparr>JWTConfig_Issuer = ''i'', JWTConfig_Audiences = [], JWTConfig_JWKsPath = '''', JWTConfig_JWKsDestinationID = '''',
      JWTConfig_JWKsInline = '''', JWTConfig_JWKsRetrievalTimeout = '''', JWTConfig_ForwardJWT = False,
      JWTConfig_ClaimToHeaders = [], JWTConfig_AssertClaims = []\<rparr>"

definition sampleJwtKeys :: "nat \<Rightarrow> verifierKey list" where
  "sampleJwtKeys s = [\<lparr>vk_kid = '''', vk_alg = '''', vk_key = EdKey ''k''\<rparr>]"

definition sampleJwtRequest :: Request where
  "sampleJwtRequest =
     \<lparr>Req_Method = ''GET'', Req_Host = ''h'', Req_Scheme = '''', Req_URLHost = '''', Req_Path = ''/'', Req_RawQuery = '''',
      Req_Query = Map.empty, Req_Header = [''Authorization'' \<mapsto> [''Bearer aa.bb.cc'']], Req_RemoteAddr = ''1.2.3.4:5'',
      Req_Cookies = [], Req_TLS = None, Req_Body = None, Req_BodyData = None, Req_Detail = None, Req_ContentLength = 0,
      Req_Metrics = []\<rparr>"

lemma sampleJwt_eval:
  "extractBearerToken sampleJwtRequest = ''aa.bb.cc''" "splitDot ''aa.bb.cc'' = [''aa'', ''bb'', ''cc'']"
  "rawURLDecode ''aa'' \<noteq> None" "rawURLDecode ''bb'' \<noteq> None" "rawURLDecode ''cc'' \<noteq> None"
  by code_simp+

lemma sampleJwt_passes:
  "\<exists>r. JWTMiddleware sampleJwt sampleJwtKeys int (Some sampleJwtConfig) nh sampleJwtRequest w 0 = nh r w 0"
proof -
  obtain a b c where d: "rawURLDecode ''aa'' = Some a" "rawURLDecode ''bb'' = Some b" "rawURLDecode ''cc'' = Some c"
    using sampleJwt_eval(3-5) by auto
  show ?thesis
    unfolding JWTMiddleware_def
    by (simp add: sampleJwt_eval(1,2) d sampleJwt_def sampleJwtConfig_def sampleJwtKeys_def validateSignatureAndClaims_def
        verifySignature_def vk_verify_def validateClaims_def assertionsHold_def List.map_filter_simps Let_def) blast
qed

theorem only_verified_tokens_pass_witness:
  "\<exists>header claims signature k e. let parts = splitDot (extractBearerToken sampleJwtRequest) in
    length parts = 3 \<and> Option.bind (rawURLDecode (parts ! 0)) (jw_header sampleJwt) = Some header \<and>
    Option.bind (rawURLDecode (parts ! 1)) (jw_claims sampleJwt) = Some claims \<and> rawURLDecode (parts ! 2) = Some signature \<and>
    k \<in> set (sampleJwtKeys 0) \<and> vk_verify sampleJwt k (jh_Alg header) (parts ! 0 @ ''.'' @ parts ! 1) signature \<and>
    claims ''iss'' = Some (JStr (JWTConfig_Issuer sampleJwtConfig)) \<and>
    (JWTConfig_Audiences sampleJwtConfig = [] \<or>
     set (JWTConfig_Audiences sampleJwtConfig) \<inter> set (extractAudience claims) \<noteq> {}) \<and>
    claims ''exp'' = Some (JNum e) \<and> int 0 \<le> jw_int64 sampleJwt e"
proof (rule only_verified_tokens_pass [where nh = "\<lambda>r w s. (Inl AbortHandler, s)" and nh' = "\<lambda>r w s. (Inl NilDereference, s)" and w = newRW and keys = sampleJwtKeys and now = int and s = 0])
  show "JWTConfig_Issuer sampleJwtConfig \<noteq> ''''" by (simp add: sampleJwtConfig_def)
  show "JWTMiddleware sampleJwt sampleJwtKeys int (Some sampleJwtConfig) (\<lambda>r w s. (Inl AbortHandler, s)) sampleJwtRequest newRW 0 \<noteq>
        JWTMiddleware sampleJwt sampleJwtKeys int (Some sampleJwtConfig) (\<lambda>r w s. (Inl NilDereference, s)) sampleJwtRequest newRW 0"
    using sampleJwt_passes [of "\<lambda>r w s. (Inl AbortHandler, s)" newRW] sampleJwt_passes [of "\<lambda>r w s. (Inl NilDereference, s)" newRW] by auto
qed

end
