(* ===== verification/Ext_Proc.thy ===== *)
theory Ext_Proc
  imports Ext_Authz
begin

text \<open>
  External processing (\<^verbatim>\<open>server/internal/proxy/middlewares/extproc.go\<close>): the four phases of a transaction,
  the rules about headers, the JSON form of the messages, body chunks and the queue of the observe
  mode. The processor is a parameter that answers a message, or does not (\<open>None\<close>), and may change the
  shared state. The wrapped handler writes into a response of its own, with the header map of the
  client's; a chunk without bytes counts as no write.
\<close>

subsection \<open>Messages\<close>

record HttpHeaders =
  hh_Headers :: "(string \<times> string) list"
  hh_EndOfStream :: bool

record HttpBody =
  hb_Body :: string
  hb_EndOfStream :: bool

datatype req_phase =
  RequestHeaders HttpHeaders | ResponseHeaders HttpHeaders | RequestBody HttpBody | ResponseBody HttpBody

record ProcessingRequest =
  pr_Phase :: req_phase
  pr_ObserveOnly :: bool

datatype ActionStatus = CONTINUE | CONTINUE_AND_REPLACE

datatype body_mutation = ReplaceBody string | ClearBody bool

record HeadersAction =
  ha_Status :: ActionStatus
  ha_SetHeaders :: "(string \<times> string) list"
  ha_RemoveHeaders :: "string list"
  ha_ReplaceBody :: "string option"

record BodyAction =
  ba_Status :: ActionStatus
  ba_SetHeaders :: "(string \<times> string) list"
  ba_RemoveHeaders :: "string list"
  ba_BodyMutation :: "body_mutation option"

record RejectRequest =
  rj_Status :: uint32
  rj_Headers :: "(string \<times> string) list"
  rj_Body :: "string option"

datatype resp_action =
  OnRequestHeaders HeadersAction | OnResponseHeaders HeadersAction |
  OnRequestBody BodyAction | OnResponseBody BodyAction | Reject RejectRequest

type_synonym ProcessingResponse = "resp_action option"

fun GetReject :: "ProcessingResponse \<Rightarrow> RejectRequest option" where
  "GetReject (Some (Reject rj)) = Some rj"
| "GetReject resp = None"

fun GetRequestHeaders :: "ProcessingResponse \<Rightarrow> HeadersAction option" where
  "GetRequestHeaders (Some (OnRequestHeaders ha)) = Some ha"
| "GetRequestHeaders resp = None"

fun GetResponseHeaders :: "ProcessingResponse \<Rightarrow> HeadersAction option" where
  "GetResponseHeaders (Some (OnResponseHeaders ha)) = Some ha"
| "GetResponseHeaders resp = None"

fun GetRequestBody :: "ProcessingResponse \<Rightarrow> BodyAction option" where
  "GetRequestBody (Some (OnRequestBody ba)) = Some ba"
| "GetRequestBody resp = None"

fun GetResponseBody :: "ProcessingResponse \<Rightarrow> BodyAction option" where
  "GetResponseBody (Some (OnResponseBody ba)) = Some ba"
| "GetResponseBody resp = None"

subsection \<open>The JSON form\<close>

record httpRequest =
  hq_Phase :: string
  hq_Headers :: "(string \<times> string) list"
  hq_Body :: string
  hq_EndOfStream :: bool
  hq_ObserveOnly :: bool

record httpResponse =
  hp_Action :: string
  hp_Status :: string
  hp_SetHeaders :: "(string \<times> string) list"
  hp_RemoveHeaders :: "string list"
  hp_ReplaceBody :: "string option"
  hp_ClearBody :: bool
  hp_RejectStatus :: uint32
  hp_RejectHeaders :: "(string \<times> string) list"
  hp_RejectBody :: "string option"

definition protoRequestToJSON :: "ProcessingRequest \<Rightarrow> httpRequest" where
  "protoRequestToJSON req =
     (case pr_Phase req of
        RequestHeaders h \<Rightarrow> \<lparr>hq_Phase = ''requestHeaders'', hq_Headers = hh_Headers h, hq_Body = '''',
          hq_EndOfStream = hh_EndOfStream h, hq_ObserveOnly = pr_ObserveOnly req\<rparr>
      | ResponseHeaders h \<Rightarrow> \<lparr>hq_Phase = ''responseHeaders'', hq_Headers = hh_Headers h, hq_Body = '''',
          hq_EndOfStream = hh_EndOfStream h, hq_ObserveOnly = pr_ObserveOnly req\<rparr>
      | RequestBody b \<Rightarrow> \<lparr>hq_Phase = ''requestBody'', hq_Headers = [], hq_Body = hb_Body b,
          hq_EndOfStream = hb_EndOfStream b, hq_ObserveOnly = pr_ObserveOnly req\<rparr>
      | ResponseBody b \<Rightarrow> \<lparr>hq_Phase = ''responseBody'', hq_Headers = [], hq_Body = hb_Body b,
          hq_EndOfStream = hb_EndOfStream b, hq_ObserveOnly = pr_ObserveOnly req\<rparr>)"

definition jsonToProtoResponse :: "(string \<Rightarrow> httpResponse option) \<Rightarrow> string \<Rightarrow> ProcessingResponse option" where
  "jsonToProtoResponse decode data =
     (case decode data of
        None \<Rightarrow> None
      | Some jr \<Rightarrow>
          let status = (if hp_Status jr = ''continueAndReplace'' then CONTINUE_AND_REPLACE else CONTINUE);
              ha = \<lparr>ha_Status = status, ha_SetHeaders = hp_SetHeaders jr, ha_RemoveHeaders = hp_RemoveHeaders jr,
                    ha_ReplaceBody = hp_ReplaceBody jr\<rparr>;
              ba = \<lparr>ba_Status = status, ba_SetHeaders = hp_SetHeaders jr, ba_RemoveHeaders = hp_RemoveHeaders jr,
                    ba_BodyMutation = (if hp_ClearBody jr then Some (ClearBody True)
                                       else map_option ReplaceBody (hp_ReplaceBody jr))\<rparr>
          in if hp_Action jr = ''requestHeaders'' then Some (Some (OnRequestHeaders ha))
             else if hp_Action jr = ''responseHeaders'' then Some (Some (OnResponseHeaders ha))
             else if hp_Action jr = ''requestBody'' then Some (Some (OnRequestBody ba))
             else if hp_Action jr = ''responseBody'' then Some (Some (OnResponseBody ba))
             else if hp_Action jr = ''reject'' then
               Some (Some (Reject \<lparr>rj_Status = hp_RejectStatus jr, rj_Headers = hp_RejectHeaders jr, rj_Body = hp_RejectBody jr\<rparr>))
             else None)"

subsection \<open>Rules about headers\<close>

definition equalFold :: "string \<Rightarrow> string \<Rightarrow> bool" where
  "equalFold a b \<longleftrightarrow> toLowerStr a = toLowerStr b"

definition ruleAllows :: "string list \<Rightarrow> string list \<Rightarrow> string \<Rightarrow> bool" where
  "ruleAllows deny allow name =
     (if list_ex (\<lambda>d. equalFold d name) deny then False
      else if length allow = 0 then True
      else list_ex (\<lambda>a. equalFold a name) allow)"

definition shouldForward :: "string \<Rightarrow> ForwardRules option \<Rightarrow> bool" where
  "shouldForward name rules =
     (case rules of None \<Rightarrow> True
      | Some ru \<Rightarrow> ruleAllows (ForwardRules_DenyHeaders ru) (ForwardRules_AllowHeaders ru) name)"

definition canMutate :: "string \<Rightarrow> MutationRules option \<Rightarrow> bool" where
  "canMutate name rules =
     (case rules of None \<Rightarrow> True
      | Some ru \<Rightarrow> ruleAllows (MutationRules_DenyHeaders ru) (MutationRules_AllowHeaders ru) (toLowerStr name))"

definition headersToProto :: "(header \<Rightarrow> string list) \<Rightarrow> header \<Rightarrow> ForwardRules option \<Rightarrow> (string \<times> string) list" where
  "headersToProto keys h rules =
     concat (map (\<lambda>key. if shouldForward (toLowerStr key) rules
                        then map (\<lambda>v. (toLowerStr key, v)) (case h key of None \<Rightarrow> [] | Some vs \<Rightarrow> vs) else []) (keys h))"

definition mutateHeaders :: "string list \<Rightarrow> (string \<times> string) list \<Rightarrow> MutationRules option \<Rightarrow> header \<Rightarrow> header" where
  "mutateHeaders remove sets rules h =
     foldl (\<lambda>h (k, v). if canMutate k rules then headerSet h k v else h)
       (foldl (\<lambda>h rm. if canMutate rm rules then headerDel h rm else h) h remove) sets"

definition applyHeadersAction :: "header \<Rightarrow> HeadersAction \<Rightarrow> MutationRules option \<Rightarrow> header" where
  "applyHeadersAction h ha rules = mutateHeaders (ha_RemoveHeaders ha) (ha_SetHeaders ha) rules h"

definition applyBodyAction :: "Request \<Rightarrow> BodyAction \<Rightarrow> MutationRules option \<Rightarrow> Request" where
  "applyBodyAction r ba rules =
     (let r = r\<lparr>Req_Header := mutateHeaders (ba_RemoveHeaders ba) (ba_SetHeaders ba) rules (Req_Header r)\<rparr> in
      case ba_BodyMutation ba of
        Some (ReplaceBody b) \<Rightarrow> r\<lparr>Req_Body := Some b, Req_ContentLength := int (length b)\<rparr>
      | Some (ClearBody True) \<Rightarrow> r\<lparr>Req_Body := Some '''', Req_ContentLength := 0\<rparr>
      | _ \<Rightarrow> r)"

definition applyResponseBodyAction :: "string \<Rightarrow> BodyAction \<Rightarrow> string" where
  "applyResponseBodyAction original ba =
     (case ba_BodyMutation ba of
        Some (ReplaceBody b) \<Rightarrow> b
      | Some (ClearBody True) \<Rightarrow> ''''
      | _ \<Rightarrow> original)"

definition writeReject :: "RW \<Rightarrow> RejectRequest \<Rightarrow> RW go" where
  "writeReject w rj =
     respond (if rj_Status rj = 0 then 403 else uint (rj_Status rj))
       (case rj_Body rj of None \<Rightarrow> [] | Some b \<Rightarrow> [Raw b])
       (foldl (\<lambda>w (k, v). setHeader k v w) w (rj_Headers rj))"

subsection \<open>The processor\<close>

record 's xp_env =
  xp_parseDuration :: "string \<Rightarrow> duration option"
  xp_keys :: "header \<Rightarrow> string list"
  xp_requestURI :: "Request \<Rightarrow> string"
  xp_readFails :: "Request \<Rightarrow> bool"
  xp_encode :: "json \<Rightarrow> string"
  xp_dial :: "string \<Rightarrow> bool"
  xp_grpc :: "string \<Rightarrow> duration \<Rightarrow> ProcessingRequest \<Rightarrow> 's \<Rightarrow> ProcessingResponse option \<times> 's"
  xp_newRequest :: "string \<Rightarrow> bool"
  xp_post :: "Service \<Rightarrow> duration \<Rightarrow> string \<Rightarrow> httpRequest \<Rightarrow> 's \<Rightarrow> (int \<times> string) option \<times> 's"
  xp_decode :: "string \<Rightarrow> httpResponse option"
  xp_queue :: "'s \<Rightarrow> ProcessingRequest list"
  xp_setQueue :: "ProcessingRequest list \<Rightarrow> 's \<Rightarrow> 's"

record resolvedPhases =
  rp_requestHeaders :: bool
  rp_responseHeaders :: bool
  rp_requestBody :: BodyMode
  rp_responseBody :: BodyMode

record extProc =
  ep_cfg :: ExtProcConfig
  ep_svc :: Service
  ep_timeout :: duration
  ep_statusOnError :: int
  ep_phases :: resolvedPhases
  ep_grpcConn :: "string option"
  ep_queueCap :: int

definition resolvePhases :: "ExtProcPhases option \<Rightarrow> resolvedPhases" where
  "resolvePhases p =
     (case p of
        None \<Rightarrow> \<lparr>rp_requestHeaders = True, rp_responseHeaders = True,
                 rp_requestBody = BodyModeNone, rp_responseBody = BodyModeNone\<rparr>
      | Some p \<Rightarrow>
          \<lparr>rp_requestHeaders = (ExtProcPhases_RequestHeaders p \<noteq> PhaseModeSkip),
           rp_responseHeaders = (ExtProcPhases_ResponseHeaders p \<noteq> PhaseModeSkip),
           rp_requestBody = (if ExtProcPhases_RequestBody p \<noteq> '''' then ExtProcPhases_RequestBody p else BodyModeNone),
           rp_responseBody = (if ExtProcPhases_ResponseBody p \<noteq> '''' then ExtProcPhases_ResponseBody p else BodyModeNone)\<rparr>)"

definition observeEnabled :: "extProc \<Rightarrow> bool" where
  "observeEnabled ep =
     (case ExtProcConfig_ObserveMode (ep_cfg ep) of None \<Rightarrow> False | Some om \<Rightarrow> ObserveModeConfig_Enabled om)"

definition observeWorkerCount :: "extProc \<Rightarrow> int" where
  "observeWorkerCount ep =
     (case ExtProcConfig_ObserveMode (ep_cfg ep) of
        Some om \<Rightarrow> if ObserveModeConfig_Workers om > 0 then ObserveModeConfig_Workers om else 64
      | None \<Rightarrow> 64)"

definition observeQueueSize :: "ExtProcConfig \<Rightarrow> int" where
  "observeQueueSize cfg =
     (case ExtProcConfig_ObserveMode cfg of
        Some om \<Rightarrow> if ObserveModeConfig_QueueSize om > 0 then ObserveModeConfig_QueueSize om else 4096
      | None \<Rightarrow> 4096)"

definition maxBodyBytes :: "extProc \<Rightarrow> int" where
  "maxBodyBytes ep =
     (case ExtProcConfig_Phases (ep_cfg ep) of
        Some p \<Rightarrow> if ExtProcPhases_MaxBodyBytes p > 0 then ExtProcPhases_MaxBodyBytes p else 1048576
      | None \<Rightarrow> 1048576)"

definition doGRPC :: "'s xp_env \<Rightarrow> extProc \<Rightarrow> ProcessingRequest \<Rightarrow> 's \<Rightarrow> ProcessingResponse option \<times> 's" where
  "doGRPC xe ep req s =
     (case ep_grpcConn ep of None \<Rightarrow> (None, s) | Some target \<Rightarrow> xp_grpc xe target (ep_timeout ep) req s)"

definition doHTTP :: "'s xp_env \<Rightarrow> extProc \<Rightarrow> ProcessingRequest \<Rightarrow> 's \<Rightarrow> ProcessingResponse option \<times> 's" where
  "doHTTP xe ep req s =
     (let url = rev (dropWhile (\<lambda>c. c = CHR ''/'') (rev (svc_BaseURL (ep_svc ep)))) in
      if \<not> xp_newRequest xe url then (None, s)
      else case xp_post xe (ep_svc ep) (ep_timeout ep) url (protoRequestToJSON req) s of
        (None, s) \<Rightarrow> (None, s)
      | (Some (status, body), s) \<Rightarrow>
          (if status \<noteq> 200 then None else jsonToProtoResponse (xp_decode xe) body, s))"

text \<open>The result of a call: \<open>None\<close> for an error, \<open>Some None\<close> for no response.\<close>

definition xp_send :: "'s xp_env \<Rightarrow> extProc \<Rightarrow> ProcessingRequest \<Rightarrow> 's \<Rightarrow> ProcessingResponse option option \<times> 's" where
  "xp_send xe ep req s =
     (if observeEnabled ep then
        (Some None, if int (length (xp_queue xe s)) < ep_queueCap ep then xp_setQueue xe (xp_queue xe s @ [req]) s else s)
      else if ExtProcConfig_Mode (ep_cfg ep) = ''http'' then apfst (map_option Some) (doHTTP xe ep req s)
      else apfst (map_option Some) (doGRPC xe ep req s))"

definition sendAsync :: "'s xp_env \<Rightarrow> extProc \<Rightarrow> ProcessingRequest \<Rightarrow> 's \<Rightarrow> 's" where
  "sendAsync xe ep req s =
     snd (if ExtProcConfig_Mode (ep_cfg ep) = ''http'' then doHTTP xe ep req s else doGRPC xe ep req s)"

definition workerStep :: "'s xp_env \<Rightarrow> extProc \<Rightarrow> 's \<Rightarrow> 's" where
  "workerStep xe ep s =
     (case xp_queue xe s of [] \<Rightarrow> s | req # reqs \<Rightarrow> sendAsync xe ep req (xp_setQueue xe reqs s))"

abbreviation streamChunkSize :: nat where
  "streamChunkSize \<equiv> 32 * 1024"

function sendBodyChunks ::
  "('r \<Rightarrow> 's \<Rightarrow> ProcessingResponse option option \<times> 's) \<Rightarrow> (string \<Rightarrow> bool \<Rightarrow> 'r) \<Rightarrow> ProcessingResponse option \<Rightarrow>
   string \<Rightarrow> 's \<Rightarrow> ProcessingResponse option option \<times> 's" where
  "sendBodyChunks send buildReq lastResp body s =
     (if length body = 0 then
        (case lastResp of None \<Rightarrow> send (buildReq '''' True) s | Some resp \<Rightarrow> (Some lastResp, s))
      else
        let chunk = take streamChunkSize body; body' = drop streamChunkSize body in
        case send (buildReq chunk (length body' = 0)) s of
          (None, s) \<Rightarrow> (None, s)
        | (Some resp, s) \<Rightarrow> sendBodyChunks send buildReq resp body' s)"
  by pat_completeness auto
termination by (relation "measure (\<lambda>(send, buildReq, lastResp, body, s). length body)") auto

declare sendBodyChunks.simps [simp del]

definition sendBody ::
  "'s xp_env \<Rightarrow> extProc \<Rightarrow> BodyMode \<Rightarrow> (HttpBody \<Rightarrow> req_phase) \<Rightarrow> string \<Rightarrow> 's \<Rightarrow> ProcessingResponse option option \<times> 's" where
  "sendBody xe ep mode phase body s =
     (let buildReq = (\<lambda>chunk eos. \<lparr>pr_Phase = phase \<lparr>hb_Body = chunk, hb_EndOfStream = eos\<rparr>,
                                   pr_ObserveOnly = observeEnabled ep\<rparr>)
      in if mode = BodyModeStreamed then sendBodyChunks (xp_send xe ep) buildReq None body s
         else xp_send xe ep (buildReq body True) s)"

definition processRequestHeaders :: "'s xp_env \<Rightarrow> extProc \<Rightarrow> Request \<Rightarrow> 's \<Rightarrow> ProcessingResponse option option \<times> 's" where
  "processRequestHeaders xe ep r s =
     (let pairs = headersToProto (xp_keys xe) (Req_Header r) (ExtProcConfig_ForwardRules (ep_cfg ep)) @
                  [('':method'', Req_Method r), ('':path'', xp_requestURI xe r), ('':authority'', Req_Host r),
                   ('':scheme'', case Req_TLS r of None \<Rightarrow> ''http'' | Some _ \<Rightarrow> ''https'')]
      in xp_send xe ep
           \<lparr>pr_Phase = RequestHeaders \<lparr>hh_Headers = pairs, hh_EndOfStream = (Req_ContentLength r = 0)\<rparr>,
            pr_ObserveOnly = observeEnabled ep\<rparr> s)"

definition readBody :: "extProc \<Rightarrow> BodyMode \<Rightarrow> string \<Rightarrow> string" where
  "readBody ep mode body = (if mode = BodyModeBufferedPartial then take (nat (maxBodyBytes ep)) body else body)"

definition processRequestBody ::
  "'s xp_env \<Rightarrow> extProc \<Rightarrow> Request \<Rightarrow> 's \<Rightarrow> Request \<times> ProcessingResponse option option \<times> 's" where
  "processRequestBody xe ep r s =
     (case Req_Body r of
        None \<Rightarrow> (r, Some None, s)
      | Some b \<Rightarrow>
          if xp_readFails xe r then (r, None, s)
          else let body = readBody ep (rp_requestBody (ep_phases ep)) b
               in (r\<lparr>Req_Body := Some body\<rparr>, sendBody xe ep (rp_requestBody (ep_phases ep)) RequestBody body s))"

definition processResponseHeaders ::
  "'s xp_env \<Rightarrow> extProc \<Rightarrow> int \<Rightarrow> header \<Rightarrow> bool \<Rightarrow> 's \<Rightarrow> ProcessingResponse option option \<times> 's" where
  "processResponseHeaders xe ep statusCode headers endOfStream s =
     (let pairs = headersToProto (xp_keys xe) headers (ExtProcConfig_ForwardRules (ep_cfg ep)) @
                  [('':status'', itoaInt statusCode)]
      in xp_send xe ep
           \<lparr>pr_Phase = ResponseHeaders \<lparr>hh_Headers = pairs, hh_EndOfStream = endOfStream\<rparr>,
            pr_ObserveOnly = observeEnabled ep\<rparr> s)"

definition processResponseBody :: "'s xp_env \<Rightarrow> extProc \<Rightarrow> string \<Rightarrow> 's \<Rightarrow> ProcessingResponse option option \<times> 's" where
  "processResponseBody xe ep body s =
     (let body = (if rp_responseBody (ep_phases ep) = BodyModeBufferedPartial
                  then take (nat (maxBodyBytes ep)) body else body)
      in sendBody xe ep (rp_responseBody (ep_phases ep)) ResponseBody body s)"

subsection \<open>A transaction\<close>

datatype phase_result = Proceed Request | Failed Request | Rejected RejectRequest

definition requestHeadersPhase :: "'s xp_env \<Rightarrow> extProc \<Rightarrow> Request \<Rightarrow> 's \<Rightarrow> phase_result \<times> 's" where
  "requestHeadersPhase xe ep r s =
     (if \<not> rp_requestHeaders (ep_phases ep) then (Proceed r, s)
      else case processRequestHeaders xe ep r s of
        (None, s) \<Rightarrow> (Failed r, s)
      | (Some None, s) \<Rightarrow> (Proceed r, s)
      | (Some (Some resp), s) \<Rightarrow>
          (if GetReject resp \<noteq> None \<and> \<not> ExtProcConfig_DisableReject (ep_cfg ep) then (Rejected (the (GetReject resp)), s)
           else case GetRequestHeaders resp of
             None \<Rightarrow> (Proceed r, s)
           | Some ha \<Rightarrow>
               let r = r\<lparr>Req_Header := applyHeadersAction (Req_Header r) ha (ExtProcConfig_AllowedMutations (ep_cfg ep))\<rparr> in
               (Proceed (case ha_ReplaceBody ha of
                           Some b \<Rightarrow> if ha_Status ha = CONTINUE_AND_REPLACE
                                     then r\<lparr>Req_Body := Some b, Req_ContentLength := int (length b)\<rparr> else r
                         | None \<Rightarrow> r), s)))"

definition requestBodyPhase :: "'s xp_env \<Rightarrow> extProc \<Rightarrow> Request \<Rightarrow> 's \<Rightarrow> phase_result \<times> 's" where
  "requestBodyPhase xe ep r s =
     (if rp_requestBody (ep_phases ep) = BodyModeNone \<or> rp_requestBody (ep_phases ep) = '''' then (Proceed r, s)
      else case processRequestBody xe ep r s of
        (r, None, s) \<Rightarrow> (Failed r, s)
      | (r, Some None, s) \<Rightarrow> (Proceed r, s)
      | (r, Some (Some resp), s) \<Rightarrow>
          (if GetReject resp \<noteq> None \<and> \<not> ExtProcConfig_DisableReject (ep_cfg ep) then (Rejected (the (GetReject resp)), s)
           else case GetRequestBody resp of
             None \<Rightarrow> (Proceed r, s)
           | Some ba \<Rightarrow> (Proceed (applyBodyAction r ba (ExtProcConfig_AllowedMutations (ep_cfg ep))), s)))"

definition onError :: "extProc \<Rightarrow> 's handler \<Rightarrow> 's handler" where
  "onError ep next r w s =
     (if ExtProcConfig_AllowOnError (ep_cfg ep) then next r w s
      else (httpError w (statusText (ep_statusOnError ep)) (ep_statusOnError ep), s))"

fun chunkBytes :: "(json \<Rightarrow> string) \<Rightarrow> chunk \<Rightarrow> string" where
  "chunkBytes enc (Raw b) = b"
| "chunkBytes enc (Encoded j) = enc j"

definition responseHeadersPhase ::
  "'s xp_env \<Rightarrow> extProc \<Rightarrow> int \<Rightarrow> bool \<Rightarrow> RW \<Rightarrow> 's \<Rightarrow> RW \<times> 's" where
  "responseHeadersPhase xe ep status endOfStream w s =
     (if \<not> rp_responseHeaders (ep_phases ep) then (w, s)
      else case processResponseHeaders xe ep status (rw_header w) endOfStream s of
        (Some (Some resp), s) \<Rightarrow>
          (case GetResponseHeaders resp of
             None \<Rightarrow> (w, s)
           | Some ha \<Rightarrow>
               (w\<lparr>rw_header := applyHeadersAction (rw_header w) ha (ExtProcConfig_AllowedMutations (ep_cfg ep))\<rparr>, s))
      | (_, s) \<Rightarrow> (w, s))"

definition responseBodyPhase :: "'s xp_env \<Rightarrow> extProc \<Rightarrow> string \<Rightarrow> 's \<Rightarrow> string \<times> 's" where
  "responseBodyPhase xe ep body s =
     (if length body = 0 then (body, s)
      else case processResponseBody xe ep body s of
        (Some (Some resp), s) \<Rightarrow>
          (case GetResponseBody resp of None \<Rightarrow> (body, s) | Some ba \<Rightarrow> (applyResponseBodyAction body ba, s))
      | (_, s) \<Rightarrow> (body, s))"

text \<open>
  What follows the wrapped handler, whose response is \<open>iw\<close>. Without the body phase its writes go
  to the client at once: the header is sent with the first of them, before the processor sees it.
\<close>

definition finishResponse :: "'s xp_env \<Rightarrow> extProc \<Rightarrow> bool \<Rightarrow> RW \<Rightarrow> RW \<Rightarrow> 's \<Rightarrow> RW go \<times> 's" where
  "finishResponse xe ep captureBody w iw s =
     (let (status, sentHeader) = (case rw_sent iw of Some ch \<Rightarrow> ch | None \<Rightarrow> (200, rw_header iw));
          wrote = list_ex (\<lambda>c. chunkBytes (xp_encode xe) c \<noteq> '''') (rw_body iw)
      in if \<not> captureBody \<and> wrote then
           (case respond status (rw_body iw) (w\<lparr>rw_header := sentHeader\<rparr>) of
              Inl p \<Rightarrow> (Inl p, s)
            | Inr w \<Rightarrow> let (w, s) = responseHeadersPhase xe ep status True w s in (Inr w, s))
         else
           let body = (if captureBody then concat (map (chunkBytes (xp_encode xe)) (rw_body iw)) else '''');
               (w, s) = responseHeadersPhase xe ep status (length body = 0) (w\<lparr>rw_header := rw_header iw\<rparr>) s;
               (body, s) = responseBodyPhase xe ep body s
           in (respond status (if length body > 0 then [Raw body] else []) w, s))"

definition upstreamPhases :: "'s xp_env \<Rightarrow> extProc \<Rightarrow> 's handler \<Rightarrow> 's handler" where
  "upstreamPhases xe ep next r w s =
     (let captureHeaders = rp_responseHeaders (ep_phases ep);
          captureBody = (rp_responseBody (ep_phases ep) \<noteq> BodyModeNone \<and> rp_responseBody (ep_phases ep) \<noteq> '''')
      in if \<not> captureHeaders \<and> \<not> captureBody then
           (case next r w s of
              (Inl p, s) \<Rightarrow> (Inl p, s)
            | (Inr w, s) \<Rightarrow> (if rw_sent w = None then WriteHeader 200 w else Inr w, s))
         else
           (case next r (newRW\<lparr>rw_header := rw_header w\<rparr>) s of
              (Inl p, s) \<Rightarrow> (Inl p, s)
            | (Inr iw, s) \<Rightarrow> finishResponse xe ep captureBody w iw s))"

definition ep_handle :: "'s xp_env \<Rightarrow> extProc \<Rightarrow> 's mware" where
  "ep_handle xe ep next =
     (\<lambda>r w s.
        case requestHeadersPhase xe ep r s of
          (Failed r, s) \<Rightarrow> onError ep next r w s
        | (Rejected rj, s) \<Rightarrow> (writeReject w rj, s)
        | (Proceed r, s) \<Rightarrow>
            (case requestBodyPhase xe ep r s of
               (Failed r, s) \<Rightarrow> onError ep next r w s
             | (Rejected rj, s) \<Rightarrow> (writeReject w rj, s)
             | (Proceed r, s) \<Rightarrow> upstreamPhases xe ep next r w s))"

definition newExtProc :: "'s xp_env \<Rightarrow> ExtProcConfig option \<Rightarrow> (string \<rightharpoonup> Service) \<Rightarrow> extProc option" where
  "newExtProc xe cfg services =
     (case cfg of
        None \<Rightarrow> None
      | Some c \<Rightarrow>
          if ExtProcConfig_DestinationID c = '''' then None
          else case services (ExtProcConfig_DestinationID c) of
            None \<Rightarrow> None
          | Some svc \<Rightarrow>
              let target = trimPrefix (trimPrefix (svc_BaseURL svc) ''http://'') ''https://'' in
              Some \<lparr>ep_cfg = c, ep_svc = svc,
                    ep_timeout = (if ExtProcConfig_PhaseTimeout c \<noteq> '''' then
                                    case xp_parseDuration xe (ExtProcConfig_PhaseTimeout c) of
                                      Some d \<Rightarrow> d | None \<Rightarrow> 200 * 10 ^ 6
                                  else 200 * 10 ^ 6),
                    ep_statusOnError = (if ExtProcConfig_StatusOnError c > 0 then uint (ExtProcConfig_StatusOnError c) else 500),
                    ep_phases = resolvePhases (ExtProcConfig_Phases c),
                    ep_grpcConn = (if ExtProcConfig_Mode c \<noteq> ''http'' \<and> xp_dial xe target then Some target else None),
                    ep_queueCap = observeQueueSize c\<rparr>)"

definition ExtProcMiddleware :: "'s xp_env \<Rightarrow> ExtProcConfig option \<Rightarrow> (string \<rightharpoonup> Service) \<Rightarrow> 's mware" where
  "ExtProcMiddleware xe cfg services =
     (case newExtProc xe cfg services of None \<Rightarrow> passthrough | Some ep \<Rightarrow> ep_handle xe ep)"

subsection \<open>Lemmas\<close>

lemma toLower_toUpper [simp]: "toLowerChar (toUpperChar c) = toLowerChar c"
  by (auto simp: toLowerChar_def toUpperChar_def isLower_def isUpper_def of_char_of take_bit_nat_eq_self)

lemma toLower_idem [simp]: "toLowerChar (toLowerChar c) = toLowerChar c"
  by (auto simp: toLowerChar_def isUpper_def of_char_of take_bit_nat_eq_self)

lemma toLowerStr_canonical_from: "toLowerStr (canonical_from u s) = toLowerStr s"
  by (induction u s rule: canonical_from.induct) (auto simp: toLowerStr_def)

lemma toLowerStr_canonicalKey: "toLowerStr (canonicalKey s) = toLowerStr s"
  by (simp add: canonicalKey_def toLowerStr_canonical_from)

text \<open>Two names for the same header are under the same rule.\<close>

lemma canMutate_canonical:
  assumes "canonicalKey a = canonicalKey b"
  shows "canMutate a rules = canMutate b rules"
proof -
  have "toLowerStr a = toLowerStr b" using assms toLowerStr_canonicalKey by metis
  then show ?thesis by (cases rules) (simp_all add: canMutate_def)
qed

lemma protected_other:
  "\<not> canMutate k rules \<Longrightarrow> canMutate a rules \<Longrightarrow> canonicalKey k \<noteq> canonicalKey a"
  using canMutate_canonical by blast

lemma removed_keeps:
  assumes "\<not> canMutate k rules"
  shows "foldl (\<lambda>h rm. if canMutate rm rules then headerDel h rm else h) h rms (canonicalKey k) = h (canonicalKey k)"
  by (induction rms arbitrary: h) (simp_all add: headerDel_def protected_other [OF assms])

lemma set_keeps:
  assumes "\<not> canMutate k rules"
  shows "foldl (\<lambda>h (k, v). if canMutate k rules then headerSet h k v else h) h kvs (canonicalKey k) = h (canonicalKey k)"
  by (induction kvs arbitrary: h) (simp_all add: headerSet_def protected_other [OF assms] split: prod.splits)

lemma mutateHeaders_keeps:
  "\<not> canMutate k rules \<Longrightarrow> mutateHeaders remove sets rules h (canonicalKey k) = h (canonicalKey k)"
  by (simp add: mutateHeaders_def removed_keeps set_keeps)

text \<open>\<open>keepsHeader\<close> compares the values of a header in two requests.\<close>

definition keepsHeader :: "string \<Rightarrow> Request \<Rightarrow> Request \<Rightarrow> bool" where
  "keepsHeader k r r' \<longleftrightarrow> Req_Header r' (canonicalKey k) = Req_Header r (canonicalKey k)"

lemma headersPhase_keeps:
  assumes "\<not> canMutate k (ExtProcConfig_AllowedMutations (ep_cfg ep))"
  shows "case fst (requestHeadersPhase xe ep r s) of
           Proceed r' \<Rightarrow> keepsHeader k r r' | Failed r' \<Rightarrow> keepsHeader k r r' | Rejected rj \<Rightarrow> True"
  using assms
  by (auto simp: requestHeadersPhase_def keepsHeader_def applyHeadersAction_def mutateHeaders_keeps Let_def
      split: prod.splits option.splits)

lemma applyBodyAction_keeps:
  "\<not> canMutate k rules \<Longrightarrow> keepsHeader k r (applyBodyAction r ba rules)"
  by (auto simp: applyBodyAction_def keepsHeader_def mutateHeaders_keeps Let_def
      split: option.splits body_mutation.splits bool.splits)

lemma processRequestBody_header: "Req_Header (fst (processRequestBody xe ep r s)) = Req_Header r"
  by (simp add: processRequestBody_def Let_def split: option.splits)

lemma bodyPhase_keeps:
  assumes "\<not> canMutate k (ExtProcConfig_AllowedMutations (ep_cfg ep))"
  shows "case fst (requestBodyPhase xe ep r s) of
           Proceed r' \<Rightarrow> keepsHeader k r r' | Failed r' \<Rightarrow> keepsHeader k r r' | Rejected rj \<Rightarrow> True"
proof -
  obtain r1 res s1 where p: "processRequestBody xe ep r s = (r1, res, s1)" by (cases "processRequestBody xe ep r s")
  then have h: "Req_Header r1 = Req_Header r" using processRequestBody_header [of xe ep r s] by simp
  then have "keepsHeader k r (applyBodyAction r1 ba (ExtProcConfig_AllowedMutations (ep_cfg ep)))" for ba
    using applyBodyAction_keeps [OF assms, of r1 ba] by (simp add: keepsHeader_def)
  then show ?thesis using h by (auto simp: requestBodyPhase_def p keepsHeader_def split: option.splits)
qed

subsection \<open>Properties\<close>


text \<open>A processor that the witnesses use: it answers with \<open>f\<close> and the state lists what it got.\<close>

definition sampleProcessor :: "(ProcessingRequest \<Rightarrow> ProcessingResponse) \<Rightarrow> ProcessingRequest list xp_env" where
  "sampleProcessor f =
     \<lparr>xp_parseDuration = (\<lambda>s. None), xp_keys = (\<lambda>h. []), xp_requestURI = Req_Path, xp_readFails = (\<lambda>r. False),
      xp_encode = (\<lambda>j. ''{}''), xp_dial = (\<lambda>t. True), xp_grpc = (\<lambda>t d req s. (Some (f req), s @ [req])),
      xp_newRequest = (\<lambda>u. True), xp_post = (\<lambda>svc d u req s. (None, s)), xp_decode = (\<lambda>b. None),
      xp_queue = (\<lambda>s. s), xp_setQueue = (\<lambda>q s. q)\<rparr>"

definition sampleExtProc :: "MutationRules option \<Rightarrow> ObserveModeConfig option \<Rightarrow> extProc" where
  "sampleExtProc rules om =
     \<lparr>ep_cfg = \<lparr>ExtProcConfig_DestinationID = ''d'', ExtProcConfig_Mode = ''grpc'', ExtProcConfig_PhaseTimeout = '''',
        ExtProcConfig_Phases = None, ExtProcConfig_AllowOnError = False, ExtProcConfig_StatusOnError = 0,
        ExtProcConfig_AllowedMutations = rules, ExtProcConfig_ForwardRules = None, ExtProcConfig_DisableReject = False,
        ExtProcConfig_ObserveMode = om, ExtProcConfig_MetricsPrefix = ''''\<rparr>,
      ep_svc = \<lparr>svc_BaseURL = ''http://d:1'', svc_Transport = None\<rparr>, ep_timeout = 200000000, ep_statusOnError = 500,
      ep_phases = resolvePhases None, ep_grpcConn = Some ''d:1'', ep_queueCap = 4096\<rparr>"

definition sampleRequest :: "header \<Rightarrow> Request" where
  "sampleRequest h =
     \<lparr>Req_Method = ''GET'', Req_Host = ''h'', Req_Scheme = '''', Req_URLHost = '''', Req_Path = ''/'', Req_RawQuery = '''',
      Req_Query = Map.empty, Req_Header = h, Req_RemoteAddr = ''1.2.3.4:5'', Req_Cookies = [], Req_TLS = None,
      Req_Body = None, Req_BodyData = None, Req_Detail = None, Req_ContentLength = 0, Req_Metrics = []\<rparr>"

definition intruder :: "ProcessingRequest \<Rightarrow> ProcessingResponse" where
  "intruder req =
     Some (OnRequestHeaders \<lparr>ha_Status = CONTINUE, ha_SetHeaders = [(''authorization'', ''other'')], ha_RemoveHeaders = [],
       ha_ReplaceBody = None\<rparr>)"


text \<open>
  A header phase without a body phase comes too late for a response with a body: its header has been
  sent when the processor is asked, so the edits of the processor are lost.
\<close>

lemma responseHeadersPhase_sent: "rw_sent (fst (responseHeadersPhase xe ep status eos w s)) = rw_sent w"
  by (simp add: responseHeadersPhase_def split: prod.splits option.splits)

lemma Write_sent: "rw_sent w \<noteq> None \<Longrightarrow> rw_sent (Write c w) = rw_sent w"
  by (auto simp: Write_def runHooks_def Let_def)

lemma Writes_sent: "rw_sent w \<noteq> None \<Longrightarrow> rw_sent (foldl (\<lambda>w c. Write c w) w cs) = rw_sent w"
proof (induction cs arbitrary: w)
  case (Cons c cs)
  then have "rw_sent (Write c w) = rw_sent w" by (simp add: Write_sent)
  with Cons show ?case by simp
qed simp

lemma late_header_edits_lost:
  assumes "rw_sent iw = Some (code, h)" and "200 \<le> code" and "code \<le> 999"
    and "list_ex (\<lambda>c. chunkBytes (xp_encode xe) c \<noteq> '''') (rw_body iw)"
    and "rw_sent w = None" and "rw_hooks w = []"
  shows "\<exists>w'. fst (finishResponse xe ep False w iw s) = Inr w' \<and> rw_sent w' = Some (code, h)"
proof -
  define w1 where "w1 = w\<lparr>rw_header := h, rw_sent := Some (code, h)\<rparr>"
  have "WriteHeader code (w\<lparr>rw_header := h\<rparr>) = Inr (w1\<lparr>rw_hooks := []\<rparr>)"
    using assms by (simp add: WriteHeader_def runHooks_def w1_def Let_def)
  moreover define w2 where "w2 = foldl (\<lambda>w c. Write c w) (w1\<lparr>rw_hooks := []\<rparr>) (rw_body iw)"
  moreover obtain w3 s3 where "responseHeadersPhase xe ep code True w2 s = (w3, s3)"
    by (cases "responseHeadersPhase xe ep code True w2 s")
  moreover have "rw_sent w2 = Some (code, h)" by (simp add: Writes_sent w1_def w2_def)
  ultimately show ?thesis
    using assms responseHeadersPhase_sent [of xe ep code True w2 s]
    by (simp add: finishResponse_def respond_def w2_def)
qed

text \<open>In the observe mode a streamed body ends twice.\<close>

lemma observed_stream_ends_twice:
  "snd (sendBody (sampleProcessor f) (sampleExtProc None (Some \<lparr>ObserveModeConfig_Enabled = True,
      ObserveModeConfig_Workers = 1, ObserveModeConfig_QueueSize = 0\<rparr>)) BodyModeStreamed RequestBody ''ab'' []) =
   [\<lparr>pr_Phase = RequestBody \<lparr>hb_Body = ''ab'', hb_EndOfStream = True\<rparr>, pr_ObserveOnly = True\<rparr>,
    \<lparr>pr_Phase = RequestBody \<lparr>hb_Body = '''', hb_EndOfStream = True\<rparr>, pr_ObserveOnly = True\<rparr>]"
  by (simp add: sendBody_def sendBodyChunks.simps xp_send_def sampleProcessor_def sampleExtProc_def observeEnabled_def Let_def)

end
