(* ===== verification/Routing.thy ===== *)
theory Routing
  imports Forward Access_Log Rate_Limit Jwt Ext_Proc
begin

text \<open>
  Routing: compiled routes and their matching (\<^verbatim>\<open>server/internal/proxy/router.go\<close>), the routing table
  (\<^verbatim>\<open>table.go\<close>) and the handler of a route with its middlewares (\<^verbatim>\<open>handler.go\<close>). The regular expression
  engine and the CEL compiler are parameters. A compiled route carries its handler, a function of the
  shared state.
\<close>

subsection \<open>Matching\<close>

record compiledHeaderMatcher =
  hm_name :: string
  hm_value :: string
  hm_regex :: "(string \<Rightarrow> bool) option"

record compiledQueryParamMatcher =
  qm_name :: string
  qm_value :: string
  qm_regex :: "(string \<Rightarrow> bool) option"

record 's compiledRoute =
  cr_model :: Route
  cr_group :: "RouteGroup option"
  cr_pathRegex :: "(string \<Rightarrow> bool) option"
  cr_pathPrefix :: string
  cr_pathExact :: string
  cr_methods :: "string list option"
  cr_headers :: "compiledHeaderMatcher list"
  cr_queryParams :: "compiledQueryParamMatcher list"
  cr_grpcOnly :: bool
  cr_hostnames :: "string list"
  cr_celProgram :: "Program option"
  cr_handler :: "'s handler"
  cr_needsBody :: bool
  cr_celBodyMaxSize :: int

definition hostMatches :: "string list \<Rightarrow> Request \<Rightarrow> bool" where
  "hostMatches hostnames req \<longleftrightarrow>
     length hostnames = 0 \<or> list_ex (\<lambda>h. h = ''*'' \<or> h = stripPort (Req_Host req)) hostnames"

definition pathMatches :: "'s compiledRoute \<Rightarrow> string \<Rightarrow> bool" where
  "pathMatches cr path =
     (case cr_pathRegex cr of
        Some re \<Rightarrow> re path
      | None \<Rightarrow>
          if cr_pathExact cr \<noteq> '''' then path = cr_pathExact cr
          else if cr_pathPrefix cr \<noteq> '''' then hasPrefix path (cr_pathPrefix cr) else True)"

definition valueMatches :: "string \<Rightarrow> (string \<Rightarrow> bool) option \<Rightarrow> string \<Rightarrow> bool" where
  "valueMatches value regex val =
     (val \<noteq> '''' \<and>
      (value = '''' \<or> (case regex of Some re \<Rightarrow> re val | None \<Rightarrow> val = value)))"

definition staticMatch :: "'s compiledRoute \<Rightarrow> Request \<Rightarrow> bool" where
  "staticMatch cr req \<longleftrightarrow>
     hostMatches (cr_hostnames cr) req \<and>
     pathMatches cr (Req_Path req) \<and>
     (case cr_methods cr of None \<Rightarrow> True | Some ms \<Rightarrow> Req_Method req \<in> set ms) \<and>
     (cr_grpcOnly cr \<longrightarrow> hasPrefix (headerGet (Req_Header req) ''Content-Type'') ''application/grpc'') \<and>
     list_all (\<lambda>hm. valueMatches (hm_value hm) (hm_regex hm) (headerGet (Req_Header req) (hm_name hm))) (cr_headers cr) \<and>
     list_all (\<lambda>qm. valueMatches (qm_value qm) (qm_regex qm) (queryGet req (qm_name qm))) (cr_queryParams cr)"

text \<open>
  The result of a match: whether it succeeded, the request that goes on, and what is left of the
  request that was passed. Buffering the body replaces the body of the latter too, while the buffered
  data is only in the context of the former.
\<close>

definition cr_match :: "cel_env \<Rightarrow> 's compiledRoute \<Rightarrow> Request \<Rightarrow> (bool \<times> Request \<times> Request) go" where
  "cr_match ce cr req =
     (if \<not> staticMatch cr req then Inr (False, req, req)
      else case cr_celProgram cr of
        None \<Rightarrow> Inr (True, req, req)
      | Some prg \<Rightarrow>
          (case (if cr_needsBody cr then BufferBody ce (cr_celBodyMaxSize cr) req else Inr req) of
             Inl p \<Rightarrow> Inl p
           | Inr req' \<Rightarrow> Inr (cel_Eval ce prg req', req', req\<lparr>Req_Body := Req_Body req'\<rparr>)))"

subsection \<open>Compiling routes\<close>

definition quoteMeta :: "string \<Rightarrow> string" where
  "quoteMeta s = concat (map (\<lambda>c. if c \<in> set (CHR 92 # ''.+*?()|[]{}^$'') then [CHR 92, c] else [c]) s)"

definition groupPathRegex :: "string \<Rightarrow> MatchRule \<Rightarrow> string" where
  "groupPathRegex groupRegex m =
     (if MatchRule_PathRegex m \<noteq> '''' then ''(?:'' @ groupRegex @ '')(?:'' @ MatchRule_PathRegex m @ '')''
      else if MatchRule_Path m \<noteq> '''' then ''(?:'' @ groupRegex @ '')(?:'' @ quoteMeta (MatchRule_Path m) @ '')''
      else if MatchRule_PathPrefix m \<noteq> '''' then ''(?:'' @ groupRegex @ '')(?:'' @ quoteMeta (MatchRule_PathPrefix m) @ '')''
      else groupRegex)"

text \<open>The regular expression, the exact path and the prefix of a route.\<close>

definition compilePath ::
  "regexLib \<Rightarrow> MatchRule \<Rightarrow> RouteGroup option \<Rightarrow> ((string \<Rightarrow> bool) option \<times> string \<times> string) option" where
  "compilePath re m g =
     (let prefix = (case g of None \<Rightarrow> '''' | Some gr \<Rightarrow> RouteGroup_PathPrefix gr);
          groupRegex = (case g of None \<Rightarrow> '''' | Some gr \<Rightarrow> RouteGroup_PathRegex gr)
      in if groupRegex \<noteq> '''' then
           map_option (\<lambda>f. (Some f, '''', '''')) (re (''^'' @ groupPathRegex groupRegex m))
         else if MatchRule_Path m \<noteq> '''' then Some (None, prefix @ MatchRule_Path m, '''')
         else if MatchRule_PathPrefix m \<noteq> '''' then Some (None, '''', prefix @ MatchRule_PathPrefix m)
         else if MatchRule_PathRegex m \<noteq> '''' then
           map_option (\<lambda>f. (Some f, '''', '''')) (re (''^'' @ prefix @ MatchRule_PathRegex m))
         else Some (None, '''', if prefix = '''' then ''/'' else prefix))"

definition compileValue :: "regexLib \<Rightarrow> bool \<Rightarrow> string \<Rightarrow> (string \<Rightarrow> bool) option option" where
  "compileValue re isRegex value = (if isRegex \<and> value \<noteq> '''' then map_option Some (re value) else Some None)"

fun compileHeaders :: "regexLib \<Rightarrow> HeaderMatcher list \<Rightarrow> compiledHeaderMatcher list option" where
  "compileHeaders re [] = Some []"
| "compileHeaders re (hm # hms) =
     (case compileValue re (HeaderMatcher_Regex hm) (HeaderMatcher_Value hm) of
        None \<Rightarrow> None
      | Some f \<Rightarrow> map_option (Cons \<lparr>hm_name = HeaderMatcher_Name hm, hm_value = HeaderMatcher_Value hm, hm_regex = f\<rparr>)
                    (compileHeaders re hms))"

fun compileQueryParams :: "regexLib \<Rightarrow> QueryParamMatcher list \<Rightarrow> compiledQueryParamMatcher list option" where
  "compileQueryParams re [] = Some []"
| "compileQueryParams re (qp # qps) =
     (case compileValue re (QueryParamMatcher_Regex qp) (QueryParamMatcher_Value qp) of
        None \<Rightarrow> None
      | Some f \<Rightarrow> map_option (Cons \<lparr>qm_name = QueryParamMatcher_Name qp, qm_value = QueryParamMatcher_Value qp, qm_regex = f\<rparr>)
                    (compileQueryParams re qps))"

definition mergeHostnames :: "string list \<Rightarrow> string list \<Rightarrow> string list" where
  "mergeHostnames hs rs = foldl (\<lambda>acc h. if h \<in> set acc then acc else acc @ [h]) hs rs"

definition compileCEL :: "cel_env \<Rightarrow> string \<Rightarrow> Program option option" where
  "compileCEL ce expr = (if expr \<noteq> '''' then map_option Some (cel_Compile (ce_lib ce) expr) else Some None)"

definition compileRoute ::
  "regexLib \<Rightarrow> cel_env \<Rightarrow> int \<Rightarrow> (Route \<Rightarrow> RouteGroup option \<Rightarrow> 's handler) \<Rightarrow> Route \<Rightarrow> RouteGroup option \<Rightarrow>
   's compiledRoute option" where
  "compileRoute re ce celBodyMaxSize build r g =
     (let m = Route_Match r in
      case compilePath re m g of
        None \<Rightarrow> None
      | Some (pathRegex, pathExact, pathPrefix) \<Rightarrow>
          (case compileHeaders re (MatchRule_Headers m @ (case g of None \<Rightarrow> [] | Some gr \<Rightarrow> RouteGroup_Headers gr)) of
             None \<Rightarrow> None
           | Some headers \<Rightarrow>
               (case compileQueryParams re (MatchRule_QueryParams m) of
                  None \<Rightarrow> None
                | Some queryParams \<Rightarrow>
                    (case compileCEL ce (MatchRule_CEL m) of
                       None \<Rightarrow> None
                     | Some prg \<Rightarrow> Some
                         \<lparr>cr_model = r, cr_group = g, cr_pathRegex = pathRegex, cr_pathPrefix = pathPrefix,
                          cr_pathExact = pathExact,
                          cr_methods = (if length (MatchRule_Methods m) > 0
                                        then Some (map toUpperStr (MatchRule_Methods m)) else None),
                          cr_headers = headers, cr_queryParams = queryParams, cr_grpcOnly = MatchRule_GRPC m,
                          cr_hostnames = mergeHostnames (case g of None \<Rightarrow> [] | Some gr \<Rightarrow> RouteGroup_Hostnames gr)
                                           (MatchRule_Hostnames m),
                          cr_celProgram = prg, cr_handler = build r g,
                          cr_needsBody = (case prg of None \<Rightarrow> False | Some p \<Rightarrow> prog_needsBody p),
                          cr_celBodyMaxSize = celBodyMaxSize\<rparr>))))"

subsection \<open>The handler of a route\<close>

text \<open>
  What the middlewares of a route are built from. Limiters and key sets belong to one instance of a
  middleware, named by the group, the route and the middleware, as do the queues of processors.
\<close>

type_synonym inst = "string \<times> string \<times> string"

record 's mw_env =
  me_re :: regexLib
  me_cel :: cel_env
  me_authz :: authz_env
  me_jwt :: jwt_env
  me_log :: "'s log_env"
  me_arith :: arith
  me_parseCIDR :: "string \<Rightarrow> (string \<Rightarrow> bool) option"
  me_now :: "'s \<Rightarrow> time"
  me_unix :: "'s \<Rightarrow> int"
  me_limiter :: "inst \<Rightarrow> 's \<Rightarrow> tokenBucketLimiter"
  me_setLimiter :: "inst \<Rightarrow> tokenBucketLimiter \<Rightarrow> 's \<Rightarrow> 's"
  me_keys :: "inst \<Rightarrow> 's \<Rightarrow> verifierKey list"
  me_extProc :: "inst \<Rightarrow> 's xp_env"
  me_elapsed :: "'s \<Rightarrow> duration"
  me_collect :: "nat list \<Rightarrow> (MetricsCollector \<Rightarrow> MetricsCollector) \<Rightarrow> 's \<Rightarrow> 's"

definition resolveOverride :: "string \<Rightarrow> Route \<Rightarrow> RouteGroup option \<Rightarrow> MiddlewareOverride option" where
  "resolveOverride mwID route g =
     (case Route_MiddlewareOverrides route mwID of
        Some ov \<Rightarrow> Some ov
      | None \<Rightarrow> (case g of None \<Rightarrow> None | Some gr \<Rightarrow> RouteGroup_MiddlewareOverrides gr mwID))"

definition wrapWithMetrics :: "'s mw_env \<Rightarrow> string \<Rightarrow> string \<Rightarrow> 's mware \<Rightarrow> 's mware" where
  "wrapWithMetrics me name mwType m next =
     (\<lambda>r w s.
        if length (Req_Metrics r) = 0 then m next r w s
        else
          let (res, s) = m next r w s in
          case res of
            Inl p \<Rightarrow> (Inl p, s)
          | Inr w \<Rightarrow>
              let code = capturedCode w; passed = (code < 400 \<or> code = 0) in
              (Inr w, me_collect me (Req_Metrics r) (RecordMiddleware name mwType (me_elapsed me s) code passed) s))"

definition conditionPrograms :: "cel_env \<Rightarrow> string list \<Rightarrow> Program list" where
  "conditionPrograms ce exprs = List.map_filter (cel_Compile (ce_lib ce)) exprs"

definition wrapWithConditions :: "cel_env \<Rightarrow> int \<Rightarrow> MiddlewareOverride \<Rightarrow> 's mware \<Rightarrow> 's mware" where
  "wrapWithConditions ce celBodyMaxSize ov m =
     (let skipProgs = conditionPrograms ce (MiddlewareOverride_SkipWhen ov);
          onlyProgs = conditionPrograms ce (MiddlewareOverride_OnlyWhen ov);
          needsBody = (list_ex prog_needsBody skipProgs \<or> list_ex prog_needsBody onlyProgs)
      in if length skipProgs = 0 \<and> length onlyProgs = 0 then m
         else (\<lambda>next r w s.
           case (if needsBody then BufferBody ce celBodyMaxSize r else Inr r) of
             Inl p \<Rightarrow> (Inl p, s)
           | Inr r \<Rightarrow>
               if list_ex (\<lambda>prg. cel_Eval ce prg r) skipProgs then next r w s
               else if length onlyProgs > 0 \<and> \<not> list_ex (\<lambda>prg. cel_Eval ce prg r) onlyProgs then next r w s
               else m next r w s))"

definition appendNew :: "string list \<Rightarrow> string list \<Rightarrow> string list" where
  "appendNew ids new = foldl (\<lambda>acc i. if i \<in> set acc then acc else acc @ [i]) ids new"

definition collectMiddlewareIDs :: "Route \<Rightarrow> RouteGroup option \<Rightarrow> string list" where
  "collectMiddlewareIDs route g =
     appendNew (appendNew [] (case g of None \<Rightarrow> [] | Some gr \<Rightarrow> RouteGroup_MiddlewareIDs gr)) (Route_MiddlewareIDs route)"

definition poolsToServices :: "heap \<Rightarrow> (string \<rightharpoonup> DestinationPool) \<Rightarrow> (string \<rightharpoonup> Service)" where
  "poolsToServices hp pools =
     map_option (\<lambda>pool. let d = pool_Destination pool in
        \<lparr>svc_BaseURL = (if tlsEnabled d then ''https'' else ''http'') @ ''://'' @ hostPort (Destination_Host d) (Destination_Port d),
         svc_Transport = (case pool_Endpoints pool of
                            [] \<Rightarrow> None
                          | ep # eps \<Rightarrow> map_option ep_Transport (hp ep))\<rparr>) \<circ> pools"

text \<open>The middleware of a configuration, and whether it has a function to stop it.\<close>

definition buildMiddleware ::
  "'s mw_env \<Rightarrow> int \<Rightarrow> inst \<Rightarrow> (string \<rightharpoonup> Service) \<Rightarrow> Middleware \<Rightarrow> ('s mware \<times> bool) option" where
  "buildMiddleware me celBodyMaxSize i services mw =
     (let t = Middleware_Type mw in
      if t = MiddlewareTypeCORS then Some (CORSMiddleware (me_re me) (Middleware_CORS mw), False)
      else if t = MiddlewareTypeHeaders then Some (HeadersMiddleware (Middleware_Headers mw), False)
      else if t = MiddlewareTypeExtAuthz then Some (ExtAuthzMiddleware (me_authz me) (Middleware_ExtAuthz mw) services, False)
      else if t = MiddlewareTypeRateLimit then
        Some (RateLimitMiddleware (me_arith me) (me_parseCIDR me) (me_now me) (me_limiter me i) (me_setLimiter me i)
                (Middleware_RateLimit mw), Middleware_RateLimit mw \<noteq> None)
      else if t = MiddlewareTypeJWT then
        Some (JWTMiddleware (me_jwt me) (me_keys me i) (me_unix me) (Middleware_JWT mw),
              case Middleware_JWT mw of None \<Rightarrow> False | Some cfg \<Rightarrow> JWTConfig_Issuer cfg \<noteq> '''')
      else if t = MiddlewareTypeAccessLog then
        Some (AccessLogMiddleware (me_log me) (Middleware_AccessLog mw),
              case Middleware_AccessLog mw of
                None \<Rightarrow> False
              | Some cfg \<Rightarrow> AccessLogConfig_Path cfg \<noteq> '''' \<and>
                  (AccessLogConfig_OnRequest cfg \<noteq> None \<or> AccessLogConfig_OnResponse cfg \<noteq> None))
      else if t = MiddlewareTypeExtProc then
        Some (ExtProcMiddleware (me_extProc me i) (Middleware_ExtProc mw) services,
              newExtProc (me_extProc me i) (Middleware_ExtProc mw) services \<noteq> None)
      else if t = MiddlewareTypeInlineAuthz then
        Some (InlineAuthzMiddleware (me_cel me) (Middleware_InlineAuthz mw) celBodyMaxSize, False)
      else None)"

fun routeMiddlewares ::
  "'s mw_env \<Rightarrow> int \<Rightarrow> (string \<rightharpoonup> Service) \<Rightarrow> (string \<rightharpoonup> Middleware) \<Rightarrow> Route \<Rightarrow> RouteGroup option \<Rightarrow> string list \<Rightarrow>
   ('s mware \<times> inst list) list" where
  "routeMiddlewares me n services all route g [] = []"
| "routeMiddlewares me n services all route g (mwID # ids) =
     (let rest = routeMiddlewares me n services all route g ids;
          i = (case g of None \<Rightarrow> '''' | Some gr \<Rightarrow> RouteGroup_ID gr, Route_ID route, mwID);
          ov = resolveOverride mwID route g
      in case all mwID of
           None \<Rightarrow> rest
         | Some mw \<Rightarrow>
             if (case ov of None \<Rightarrow> False | Some v \<Rightarrow> MiddlewareOverride_Disabled v) then rest
             else case buildMiddleware me n i services mw of
               None \<Rightarrow> rest
             | Some (m, stops) \<Rightarrow>
                 (let m = (case ov of None \<Rightarrow> m | Some v \<Rightarrow> wrapWithConditions (me_cel me) n v m);
                      m = wrapWithMetrics me (Middleware_Name mw) (Middleware_Type mw) m
                  in (m, if stops then [i] else []) # rest))"

definition notFoundHandler :: "'s handler" where
  "notFoundHandler = (\<lambda>r w s. (httpError w ''404 page not found'' 404, s))"

definition routeAction ::
  "(Request \<Rightarrow> string) \<Rightarrow> (RW \<Rightarrow> Request \<Rightarrow> string \<Rightarrow> int \<Rightarrow> RW go) \<Rightarrow>
   (ForwardAction \<Rightarrow> RouteGroup option \<Rightarrow> string \<Rightarrow> string \<Rightarrow> 's handler) \<Rightarrow> Route \<Rightarrow> RouteGroup option \<Rightarrow> 's handler" where
  "routeAction urlString redirect forward route g =
     (case Route_DirectResponse route of
        Some dr \<Rightarrow> directResponseHandler dr
      | None \<Rightarrow>
          (case Route_Redirect route of
             Some rd \<Rightarrow> redirectHandler urlString redirect rd
           | None \<Rightarrow>
               (case Route_Forward route of
                  Some fwd \<Rightarrow> forward fwd g (Route_ID route) (Route_Name route)
                | None \<Rightarrow> notFoundHandler)))"

definition buildRouteHandler ::
  "'s mw_env \<Rightarrow> int \<Rightarrow> (string \<rightharpoonup> Service) \<Rightarrow> (string \<rightharpoonup> Middleware) \<Rightarrow> (Route \<Rightarrow> RouteGroup option \<Rightarrow> 's handler) \<Rightarrow>
   Route \<Rightarrow> RouteGroup option \<Rightarrow> 's handler \<times> inst list" where
  "buildRouteHandler me n services all act route g =
     (let mws = routeMiddlewares me n services all route g (collectMiddlewareIDs route g)
      in (if length mws > 0 then Chain (act route g) (map fst mws) else act route g, concat (map snd mws)))"

subsection \<open>The routing table\<close>

record 's RoutingTable =
  tb_routes :: "'s compiledRoute list"
  tb_pools :: "string \<rightharpoonup> DestinationPool"
  tb_middlewares :: "string \<rightharpoonup> Middleware"
  tb_cleanups :: "inst list"

record 's Router =
  rt_table :: "'s RoutingTable"
  rt_collectors :: "nat list"

definition NewRouter :: "'s Router" where
  "NewRouter =
     \<lparr>rt_table = \<lparr>tb_routes = [], tb_pools = Map.empty, tb_middlewares = Map.empty, tb_cleanups = []\<rparr>, rt_collectors = []\<rparr>"

text \<open>The second component lists the cleanups that are called, in order.\<close>

definition SwapTable :: "'s RoutingTable \<Rightarrow> 's Router \<Rightarrow> 's Router \<times> inst list" where
  "SwapTable t rt = (rt\<lparr>rt_table := t\<rparr>, tb_cleanups (rt_table rt))"

definition SetMetricsCollectors :: "nat list \<Rightarrow> 's Router \<Rightarrow> 's Router" where
  "SetMetricsCollectors mcs rt = rt\<lparr>rt_collectors := mcs\<rparr>"

fun newPools ::
  "(Destination \<Rightarrow> addr \<Rightarrow> heap \<Rightarrow> pool_error + (DestinationPool \<times> addr \<times> heap)) \<Rightarrow> Destination list \<Rightarrow> addr \<Rightarrow> heap \<Rightarrow>
   (string \<rightharpoonup> DestinationPool) \<Rightarrow> pool_error + ((string \<rightharpoonup> DestinationPool) \<times> addr \<times> heap)" where
  "newPools mk [] next hp pools = Inr (pools, next, hp)"
| "newPools mk (d # ds) next hp pools =
     (case mk d next hp of
        Inl err \<Rightarrow> Inl err
      | Inr (pool, next, hp) \<Rightarrow> newPools mk ds next hp (pools(Destination_ID d \<mapsto> pool)))"

fun compileAll ::
  "(Route \<Rightarrow> RouteGroup option \<Rightarrow> ('s compiledRoute \<times> inst list) option) \<Rightarrow> (Route \<times> RouteGroup option) list \<Rightarrow>
   's compiledRoute list \<times> inst list" where
  "compileAll cmp [] = ([], [])"
| "compileAll cmp ((r, g) # rgs) =
     (let (crs, cleanups) = compileAll cmp rgs in
      case cmp r g of
        None \<Rightarrow> (crs, cleanups)
      | Some (cr, cs) \<Rightarrow> (cr # crs, cs @ cleanups))"

definition groupRoutes :: "Route list \<Rightarrow> RouteGroup list \<Rightarrow> (Route \<times> RouteGroup option) list" where
  "groupRoutes routes groups =
     concat (map (\<lambda>g. List.map_filter (\<lambda>i. map_option (\<lambda>r. (r, Some g)) (mapFromSlice Route_ID routes i)) (RouteGroup_RouteIDs g)) groups)"

definition routesInGroups :: "Route list \<Rightarrow> RouteGroup list \<Rightarrow> string list" where
  "routesInGroups routes groups =
     concat (map (\<lambda>g. filter (\<lambda>i. mapFromSlice Route_ID routes i \<noteq> None) (RouteGroup_RouteIDs g)) groups)"

definition tableRoutes :: "Route list \<Rightarrow> RouteGroup list \<Rightarrow> (Route \<times> RouteGroup option) list" where
  "tableRoutes routes groups =
     groupRoutes routes groups @
     map (\<lambda>r. (r, None)) (filter (\<lambda>r. Route_ID r \<notin> set (routesInGroups routes groups)) routes)"

text \<open>
  Filling the ring or the table of a hash balancer; it does not return (\<open>None\<close>) if the loop of Maglev
  does not end. \<open>srt\<close> is \<^verbatim>\<open>sort.Slice\<close>.
\<close>

definition balancer_Build ::
  "((ringEntry \<Rightarrow> uint32) \<Rightarrow> ringEntry list \<Rightarrow> ringEntry list) \<Rightarrow> (string \<Rightarrow> uint64 \<times> uint64) \<Rightarrow> Balancer \<Rightarrow>
   DestinationRef list \<Rightarrow> Balancer option go" where
  "balancer_Build srt md5 b refs =
     (case b of
        BRingHash rh \<Rightarrow> Inr (Some (BRingHash (rh_Build srt rh refs)))
      | BMaglev m \<Rightarrow> (case mg_Build md5 m refs of Inl p \<Rightarrow> Inl p | Inr m' \<Rightarrow> Inr (map_option BMaglev m'))
      | _ \<Rightarrow> Inr (Some b))"

fun buildPools ::
  "(Balancer \<Rightarrow> DestinationRef list \<Rightarrow> Balancer option go) \<Rightarrow> heap \<Rightarrow> string list \<Rightarrow> (string \<rightharpoonup> DestinationPool) \<Rightarrow>
   (string \<rightharpoonup> DestinationPool) option go" where
  "buildPools build hp [] pools = Inr (Some pools)"
| "buildPools build hp (k # ks) pools =
     (case pools k of
        None \<Rightarrow> buildPools build hp ks pools
      | Some pool \<Rightarrow>
          (case pool_Balancer pool of
             None \<Rightarrow> buildPools build hp ks pools
           | Some b \<Rightarrow>
               (case build b (endpointRefs hp (pool_Endpoints pool)) of
                  Inl p \<Rightarrow> Inl p
                | Inr None \<Rightarrow> Inr None
                | Inr (Some b') \<Rightarrow> buildPools build hp ks (pools(k \<mapsto> pool\<lparr>pool_Balancer := Some b'\<rparr>)))))"

definition compileWith ::
  "'s mw_env \<Rightarrow> int \<Rightarrow> (string \<rightharpoonup> Service) \<Rightarrow> (string \<rightharpoonup> Middleware) \<Rightarrow> (Route \<Rightarrow> RouteGroup option \<Rightarrow> 's handler) \<Rightarrow>
   Route \<Rightarrow> RouteGroup option \<Rightarrow> ('s compiledRoute \<times> inst list) option" where
  "compileWith me n services all act r g =
     map_option (\<lambda>cr. (cr, snd (buildRouteHandler me n services all act r g)))
       (compileRoute (me_re me) (me_cel me) n (\<lambda>r g. fst (buildRouteHandler me n services all act r g)) r g)"

text \<open>\<open>order\<close> is the order in which the range loop visits the pools.\<close>

definition BuildTable ::
  "'s mw_env \<Rightarrow> (Destination \<Rightarrow> addr \<Rightarrow> heap \<Rightarrow> pool_error + (DestinationPool \<times> addr \<times> heap)) \<Rightarrow>
   (Balancer \<Rightarrow> DestinationRef list \<Rightarrow> Balancer option go) \<Rightarrow> string list \<Rightarrow> (Route \<Rightarrow> RouteGroup option \<Rightarrow> 's handler) \<Rightarrow>
   Route list \<Rightarrow> RouteGroup list \<Rightarrow> Destination list \<Rightarrow> Middleware list \<Rightarrow> int \<Rightarrow> addr \<Rightarrow> heap \<Rightarrow>
   (pool_error + ('s RoutingTable \<times> addr \<times> heap)) option go" where
  "BuildTable me mk build order act routes groups destinations middlewares celBodyMaxSize next hp =
     (case newPools mk destinations next hp Map.empty of
        Inl err \<Rightarrow> Inr (Some (Inl err))
      | Inr (pools, next, hp) \<Rightarrow>
          let mwByID = mapFromSlice Middleware_ID middlewares;
              (compiled, cleanups) =
                compileAll (compileWith me celBodyMaxSize (poolsToServices hp pools) mwByID act) (tableRoutes routes groups)
          in case buildPools build hp order pools of
               Inl p \<Rightarrow> Inl p
             | Inr None \<Rightarrow> Inr None
             | Inr (Some pools) \<Rightarrow> Inr (Some (Inr
                 (\<lparr>tb_routes = compiled, tb_pools = pools, tb_middlewares = mwByID, tb_cleanups = cleanups\<rparr>, next, hp))))"

subsection \<open>Dispatching\<close>

definition serveMatched :: "'s mw_env \<Rightarrow> nat list \<Rightarrow> 's compiledRoute \<Rightarrow> 's handler" where
  "serveMatched me collectors cr req w s =
     (if length collectors = 0 then cr_handler cr req w s
      else
        let routeName = Route_Name (cr_model cr);
            groupName = (case cr_group cr of None \<Rightarrow> '''' | Some g \<Rightarrow> RouteGroup_Name g);
            s = me_collect me collectors (RouteInflightInc routeName groupName) s;
            reqSize = (if Req_ContentLength req < 0 then 0 else Req_ContentLength req);
            (res, s) = cr_handler cr (req\<lparr>Req_Metrics := collectors\<rparr>) w s
        in case res of
             Inl p \<Rightarrow> (Inl p, s)
           | Inr w \<Rightarrow>
               (Inr w, me_collect me collectors
                  (\<lambda>mc. RecordRoute routeName groupName (Req_Method req) (capturedCode w) (me_elapsed me s) reqSize
                          (writtenBytes (le_encoded (me_log me)) w) (RouteInflightDec routeName groupName mc)) s))"

fun serveRoutes :: "'s mw_env \<Rightarrow> string \<Rightarrow> nat list \<Rightarrow> 's compiledRoute list \<Rightarrow> 's handler" where
  "serveRoutes me now collectors [] req w s =
     (writeProxyError now w req (plainError ''no_route'' 404 '''' ''no matching route''), s)"
| "serveRoutes me now collectors (cr # crs) req w s =
     (case cr_match (me_cel me) cr req of
        Inl p \<Rightarrow> (Inl p, s)
      | Inr (matched, matchedReq, req) \<Rightarrow>
          if matched then serveMatched me collectors cr matchedReq w s
          else serveRoutes me now collectors crs req w s)"

definition ServeHTTP :: "'s mw_env \<Rightarrow> string \<Rightarrow> 's Router \<Rightarrow> 's handler" where
  "ServeHTTP me now rt req w s = serveRoutes me now (rt_collectors rt) (tb_routes (rt_table rt)) req w s"

subsection \<open>What a configuration accepts\<close>

text \<open>A declarative reading of the match rule of a route and of its group.\<close>

definition regexHolds :: "regexLib \<Rightarrow> string \<Rightarrow> string \<Rightarrow> bool" where
  "regexHolds re pat s \<longleftrightarrow> (case re pat of None \<Rightarrow> False | Some f \<Rightarrow> f s)"

definition ofGroup :: "(RouteGroup \<Rightarrow> 'a list) \<Rightarrow> RouteGroup option \<Rightarrow> 'a list" where
  "ofGroup f g = (case g of None \<Rightarrow> [] | Some gr \<Rightarrow> f gr)"

definition pathAccepts :: "regexLib \<Rightarrow> MatchRule \<Rightarrow> RouteGroup option \<Rightarrow> string \<Rightarrow> bool" where
  "pathAccepts re m g path =
     (let prefix = ofGroup RouteGroup_PathPrefix g; groupRegex = ofGroup RouteGroup_PathRegex g in
      if groupRegex \<noteq> '''' then regexHolds re (''^'' @ groupPathRegex groupRegex m) path
      else if MatchRule_Path m \<noteq> '''' then path = prefix @ MatchRule_Path m
      else if MatchRule_PathPrefix m \<noteq> '''' then hasPrefix path (prefix @ MatchRule_PathPrefix m)
      else if MatchRule_PathRegex m \<noteq> '''' then regexHolds re (''^'' @ prefix @ MatchRule_PathRegex m) path
      else hasPrefix path (if prefix = '''' then ''/'' else prefix))"

definition valueAccepts :: "regexLib \<Rightarrow> bool \<Rightarrow> string \<Rightarrow> string \<Rightarrow> bool" where
  "valueAccepts re isRegex value val \<longleftrightarrow>
     val \<noteq> '''' \<and> (value = '''' \<or> (if isRegex then regexHolds re value val else val = value))"

definition routeAccepts :: "regexLib \<Rightarrow> Route \<Rightarrow> RouteGroup option \<Rightarrow> Request \<Rightarrow> bool" where
  "routeAccepts re r g req \<longleftrightarrow>
     (let m = Route_Match r; hosts = set (ofGroup RouteGroup_Hostnames g) \<union> set (MatchRule_Hostnames m) in
      (hosts = {} \<or> ''*'' \<in> hosts \<or> stripPort (Req_Host req) \<in> hosts) \<and>
      pathAccepts re m g (Req_Path req) \<and>
      (MatchRule_Methods m = [] \<or> Req_Method req \<in> toUpperStr ` set (MatchRule_Methods m)) \<and>
      (MatchRule_GRPC m \<longrightarrow> hasPrefix (headerGet (Req_Header req) ''Content-Type'') ''application/grpc'') \<and>
      (\<forall>hm \<in> set (MatchRule_Headers m) \<union> set (ofGroup RouteGroup_Headers g).
         valueAccepts re (HeaderMatcher_Regex hm) (HeaderMatcher_Value hm) (headerGet (Req_Header req) (HeaderMatcher_Name hm))) \<and>
      (\<forall>qp \<in> set (MatchRule_QueryParams m).
         valueAccepts re (QueryParamMatcher_Regex qp) (QueryParamMatcher_Value qp) (queryGet req (QueryParamMatcher_Name qp))))"

definition celAccepts :: "cel_env \<Rightarrow> string \<Rightarrow> Request \<Rightarrow> bool" where
  "celAccepts ce expr req \<longleftrightarrow>
     expr = '''' \<or> (case cel_Compile (ce_lib ce) expr of None \<Rightarrow> False | Some p \<Rightarrow> cel_Eval ce p req)"

subsection \<open>Lemmas\<close>

lemma set_appendNew: "set (appendNew ids new) = set ids \<union> set new"
  unfolding appendNew_def by (induction new arbitrary: ids) (auto split: if_splits)

lemma distinct_appendNew: "distinct ids \<Longrightarrow> distinct (appendNew ids new)"
  unfolding appendNew_def by (induction new arbitrary: ids) auto

lemma mergeHostnames_appendNew: "mergeHostnames = appendNew"
  by (intro ext) (simp add: mergeHostnames_def appendNew_def)

lemma collectMiddlewareIDs_once:
  "distinct (collectMiddlewareIDs route g)"
  "set (collectMiddlewareIDs route g) = set (ofGroup RouteGroup_MiddlewareIDs g) \<union> set (Route_MiddlewareIDs route)"
  by (simp_all add: collectMiddlewareIDs_def distinct_appendNew set_appendNew ofGroup_def)

lemma valueMatches_compiled:
  "compileValue re isRegex value = Some f \<Longrightarrow> valueMatches value f val = valueAccepts re isRegex value val"
  by (auto simp: compileValue_def valueMatches_def valueAccepts_def regexHolds_def split: if_splits)

lemma compileHeaders_matches:
  "compileHeaders re hms = Some cs \<Longrightarrow>
   list_all (\<lambda>hm. valueMatches (hm_value hm) (hm_regex hm) (get (hm_name hm))) cs \<longleftrightarrow>
   (\<forall>hm \<in> set hms. valueAccepts re (HeaderMatcher_Regex hm) (HeaderMatcher_Value hm) (get (HeaderMatcher_Name hm)))"
  by (induction hms arbitrary: cs) (auto simp: valueMatches_compiled split: option.splits)

lemma compileQueryParams_matches:
  "compileQueryParams re qps = Some cs \<Longrightarrow>
   list_all (\<lambda>qm. valueMatches (qm_value qm) (qm_regex qm) (get (qm_name qm))) cs \<longleftrightarrow>
   (\<forall>qp \<in> set qps. valueAccepts re (QueryParamMatcher_Regex qp) (QueryParamMatcher_Value qp) (get (QueryParamMatcher_Name qp)))"
  by (induction qps arbitrary: cs) (auto simp: valueMatches_compiled split: option.splits)

lemma compilePath_matches:
  assumes "compilePath re m g = Some (f, ex, pre)"
    and "cr_pathRegex cr = f" "cr_pathExact cr = ex" "cr_pathPrefix cr = pre"
  shows "pathMatches cr path = pathAccepts re m g path"
  using assms
  by (cases g) (auto simp: compilePath_def pathMatches_def pathAccepts_def regexHolds_def ofGroup_def Let_def
      split: if_splits option.splits)

lemma hostMatches_merged:
  "hostMatches (mergeHostnames gs hs) req \<longleftrightarrow>
     set gs \<union> set hs = {} \<or> ''*'' \<in> set gs \<union> set hs \<or> stripPort (Req_Host req) \<in> set gs \<union> set hs"
proof -
  have "length (mergeHostnames gs hs) = 0 \<longleftrightarrow> set gs \<union> set hs = {}"
    by (metis length_0_conv mergeHostnames_appendNew set_appendNew set_empty)
  then show ?thesis
    by (auto simp: hostMatches_def list_ex_iff mergeHostnames_appendNew set_appendNew)
qed

lemma compileRoute_cases:
  assumes "compileRoute re ce n build r g = Some cr"
  obtains f ex pre headers queryParams prg where
    "compilePath re (Route_Match r) g = Some (f, ex, pre)"
    "compileHeaders re (MatchRule_Headers (Route_Match r) @ ofGroup RouteGroup_Headers g) = Some headers"
    "compileQueryParams re (MatchRule_QueryParams (Route_Match r)) = Some queryParams"
    "compileCEL ce (MatchRule_CEL (Route_Match r)) = Some prg"
    "cr_pathRegex cr = f" "cr_pathExact cr = ex" "cr_pathPrefix cr = pre"
    "cr_methods cr = (if MatchRule_Methods (Route_Match r) = [] then None
                      else Some (map toUpperStr (MatchRule_Methods (Route_Match r))))"
    "cr_headers cr = headers" "cr_queryParams cr = queryParams" "cr_grpcOnly cr = MatchRule_GRPC (Route_Match r)"
    "cr_hostnames cr = mergeHostnames (ofGroup RouteGroup_Hostnames g) (MatchRule_Hostnames (Route_Match r))"
    "cr_celProgram cr = prg" "cr_handler cr = build r g" "cr_needsBody cr = (case prg of None \<Rightarrow> False | Some p \<Rightarrow> prog_needsBody p)"
  using assms by (simp add: compileRoute_def Let_def ofGroup_def split: option.splits prod.splits) auto

lemma staticMatch_compiled:
  assumes "compileRoute re ce n build r g = Some cr"
  shows "staticMatch cr req = routeAccepts re r g req"
  using assms
proof (rule compileRoute_cases)
  fix f ex pre headers queryParams prg
  assume *: "compilePath re (Route_Match r) g = Some (f, ex, pre)"
    "compileHeaders re (MatchRule_Headers (Route_Match r) @ ofGroup RouteGroup_Headers g) = Some headers"
    "compileQueryParams re (MatchRule_QueryParams (Route_Match r)) = Some queryParams"
    "cr_pathRegex cr = f" "cr_pathExact cr = ex" "cr_pathPrefix cr = pre"
    and eqs: "cr_methods cr = (if MatchRule_Methods (Route_Match r) = [] then None
                      else Some (map toUpperStr (MatchRule_Methods (Route_Match r))))"
    "cr_headers cr = headers" "cr_queryParams cr = queryParams" "cr_grpcOnly cr = MatchRule_GRPC (Route_Match r)"
    "cr_hostnames cr = mergeHostnames (ofGroup RouteGroup_Hostnames g) (MatchRule_Hostnames (Route_Match r))"
  show ?thesis
    unfolding staticMatch_def routeAccepts_def Let_def eqs compilePath_matches [OF *(1,4-6)] hostMatches_merged
      compileHeaders_matches [OF *(2)] compileQueryParams_matches [OF *(3)]
    by (simp add: Un_commute)
qed

lemma compiled_cel:
  assumes "compileRoute re ce n build r g = Some cr"
  shows "compileCEL ce (MatchRule_CEL (Route_Match r)) = Some (cr_celProgram cr)"
    and "cr_needsBody cr = (case cr_celProgram cr of None \<Rightarrow> False | Some p \<Rightarrow> prog_needsBody p)"
  using assms by (rule compileRoute_cases; simp)+

lemma compileCEL_accepts:
  "compileCEL ce expr = Some prg \<Longrightarrow> (case prg of None \<Rightarrow> True | Some p \<Rightarrow> cel_Eval ce p req) = celAccepts ce expr req"
  by (auto simp: compileCEL_def celAccepts_def split: if_splits)

lemma cr_match_compiled:
  assumes c: "compileRoute re ce n build r g = Some cr"
    and "\<And>p. cel_Compile (ce_lib ce) (MatchRule_CEL (Route_Match r)) = Some p \<Longrightarrow> \<not> prog_needsBody p"
  shows "cr_match ce cr req = Inr (routeAccepts re r g req \<and> celAccepts ce (MatchRule_CEL (Route_Match r)) req, req, req)"
proof -
  have "\<not> cr_needsBody cr"
    using compiled_cel [OF c] assms(2) by (auto simp: compileCEL_def split: if_splits option.splits)
  then show ?thesis
    using compileCEL_accepts [OF compiled_cel(1) [OF c], of req]
    by (auto simp: cr_match_def staticMatch_compiled [OF c] split: option.splits)
qed

text \<open>The entries of a configuration that a request can be sent to.\<close>

definition accepting ::
  "'s mw_env \<Rightarrow> int \<Rightarrow> (string \<rightharpoonup> Service) \<Rightarrow> (string \<rightharpoonup> Middleware) \<Rightarrow> (Route \<Rightarrow> RouteGroup option \<Rightarrow> 's handler) \<Rightarrow> Request \<Rightarrow>
   Route \<times> RouteGroup option \<Rightarrow> bool" where
  "accepting me n sv all act req = (\<lambda>(r, g).
     compileWith me n sv all act r g \<noteq> None \<and> routeAccepts (me_re me) r g req \<and>
     celAccepts (me_cel me) (MatchRule_CEL (Route_Match r)) req)"

lemma serveRoutes_first:
  assumes "\<And>r g p. (r, g) \<in> set rgs \<Longrightarrow>
     cel_Compile (ce_lib (me_cel me)) (MatchRule_CEL (Route_Match r)) = Some p \<Longrightarrow> \<not> prog_needsBody p"
  shows "serveRoutes me now [] (fst (compileAll (compileWith me n sv all act) rgs)) req w s =
    (case find (accepting me n sv all act req) rgs of
       None \<Rightarrow> (writeProxyError now w req (plainError ''no_route'' 404 '''' ''no matching route''), s)
     | Some (r, g) \<Rightarrow> fst (buildRouteHandler me n sv all act r g) req w s)"
  using assms
proof (induction rgs)
  case (Cons rg rgs)
  obtain r g where rg: "rg = (r, g)" by (cases rg)
  have IH: "serveRoutes me now [] (fst (compileAll (compileWith me n sv all act) rgs)) req w s =
    (case find (accepting me n sv all act req) rgs of
       None \<Rightarrow> (writeProxyError now w req (plainError ''no_route'' 404 '''' ''no matching route''), s)
     | Some (r, g) \<Rightarrow> fst (buildRouteHandler me n sv all act r g) req w s)"
    by (rule Cons.IH) (use Cons.prems in auto)
  show ?case
  proof (cases "compileRoute (me_re me) (me_cel me) n (\<lambda>r g. fst (buildRouteHandler me n sv all act r g)) r g")
    case None
    then have "compileWith me n sv all act r g = None" by (simp add: compileWith_def)
    moreover from this have "\<not> accepting me n sv all act req (r, g)" by (simp add: accepting_def)
    ultimately show ?thesis by (simp add: rg IH split: prod.split)
  next
    case (Some cr)
    then have c: "compileWith me n sv all act r g = Some (cr, snd (buildRouteHandler me n sv all act r g))"
      by (simp add: compileWith_def)
    have h: "cr_handler cr = fst (buildRouteHandler me n sv all act r g)" using Some by (rule compileRoute_cases)
    have "cr_match (me_cel me) cr req = Inr (routeAccepts (me_re me) r g req \<and>
        celAccepts (me_cel me) (MatchRule_CEL (Route_Match r)) req, req, req)"
      by (rule cr_match_compiled [OF Some]) (use Cons.prems rg in auto)
    then have "cr_match (me_cel me) cr req = Inr (accepting me n sv all act req (r, g), req, req)"
      using c by (simp add: accepting_def)
    moreover have "fst (compileAll (compileWith me n sv all act) ((r, g) # rgs)) =
        cr # fst (compileAll (compileWith me n sv all act) rgs)"
      using c by (simp split: prod.split)
    ultimately show ?thesis using h by (simp add: rg IH serveMatched_def)
  qed
qed simp

subsection \<open>Routes that do not compile\<close>

lemma compileAll_drop:
  "(\<And>g. cmp bad g = None) \<Longrightarrow> compileAll cmp (filter (\<lambda>rg. fst rg \<noteq> bad) rgs) = compileAll cmp rgs"
  by (induction rgs) (auto split: prod.splits)

lemma find_append: "find P (xs @ ys) = (case find P xs of None \<Rightarrow> find P ys | Some x \<Rightarrow> Some x)"
  by (induction xs) auto

lemma mapFromSlice_insert:
  assumes "key b \<notin> key ` set (xs @ ys)"
  shows "mapFromSlice key (xs @ b # ys) i = (if i = key b then Some b else mapFromSlice key (xs @ ys) i)"
proof -
  have "key x \<noteq> key b" if "x \<in> set ys" for x
    using that assms by (metis UnI2 imageI set_append)
  then have "find (\<lambda>x. key x = key b) (rev ys) = None" by (simp add: find_None_iff)
  then show ?thesis by (auto simp: mapFromSlice_find find_append split: option.splits)
qed

lemma groupRoutes_without:
  assumes "Route_ID bad \<notin> Route_ID ` set (xs @ ys)"
  shows "filter (\<lambda>rg. fst rg \<noteq> bad) (groupRoutes (xs @ bad # ys) groups) = groupRoutes (xs @ ys) groups"
proof -
  have other: "mapFromSlice Route_ID (xs @ ys) i \<noteq> Some bad" for i
    using mapFromSlice_SomeD [of Route_ID "xs @ ys" i bad] assms by auto
  have none: "mapFromSlice Route_ID (xs @ ys) (Route_ID bad) = None"
    using mapFromSlice_dom [of Route_ID "xs @ ys"] assms by auto
  have "filter (\<lambda>rg. fst rg \<noteq> bad)
          (List.map_filter (\<lambda>i. map_option (\<lambda>r. (r, Some g)) (mapFromSlice Route_ID (xs @ bad # ys) i)) ids) =
        List.map_filter (\<lambda>i. map_option (\<lambda>r. (r, Some g)) (mapFromSlice Route_ID (xs @ ys) i)) ids" for ids and g :: RouteGroup
    using other none
    by (induction ids) (auto simp: List.map_filter_simps mapFromSlice_insert [OF assms] split: option.splits)
  then show ?thesis by (simp add: groupRoutes_def filter_concat comp_def)
qed

lemma routesInGroups_without:
  assumes "Route_ID bad \<notin> Route_ID ` set (xs @ ys)" and "i \<noteq> Route_ID bad"
  shows "i \<in> set (routesInGroups (xs @ bad # ys) groups) \<longleftrightarrow> i \<in> set (routesInGroups (xs @ ys) groups)"
  using assms(2) by (auto simp: routesInGroups_def mapFromSlice_insert [OF assms(1)])

lemma tableRoutes_without:
  assumes "Route_ID bad \<notin> Route_ID ` set (xs @ ys)"
  shows "filter (\<lambda>rg. fst rg \<noteq> bad) (tableRoutes (xs @ bad # ys) groups) = tableRoutes (xs @ ys) groups"
proof -
  have "r \<noteq> bad \<and> Route_ID r \<noteq> Route_ID bad" if "r \<in> set (xs @ ys)" for r using that assms by (metis imageI)
  then have "filter (\<lambda>r. r \<noteq> bad \<and> Route_ID r \<notin> set (routesInGroups (xs @ bad # ys) groups)) zs =
      filter (\<lambda>r. Route_ID r \<notin> set (routesInGroups (xs @ ys) groups)) zs" if "set zs \<subseteq> set (xs @ ys)" for zs
    using that by (intro filter_cong refl) (auto simp: routesInGroups_without [OF assms])
  from this [of xs] this [of ys] show ?thesis
    by (simp add: tableRoutes_def groupRoutes_without [OF assms] filter_map comp_def conj_commute)
qed

lemma BuildTable_routes:
  assumes "BuildTable me mk build order act routes groups dests mws n next hp = Inr (Some (Inr (t, next', hp')))"
  shows "\<exists>sv. tb_routes t =
    fst (compileAll (compileWith me n sv (mapFromSlice Middleware_ID mws) act) (tableRoutes routes groups))"
proof (cases "newPools mk dests next hp Map.empty")
  case (Inr res)
  obtain pools next1 hp1 where res: "res = (pools, next1, hp1)" by (cases res)
  obtain crs cl where c: "compileAll (compileWith me n (poolsToServices hp1 pools) (mapFromSlice Middleware_ID mws) act)
      (tableRoutes routes groups) = (crs, cl)"
    by (cases "compileAll (compileWith me n (poolsToServices hp1 pools) (mapFromSlice Middleware_ID mws) act)
      (tableRoutes routes groups)")
  have "tb_routes t = crs"
    using assms unfolding BuildTable_def Inr res by (simp add: c split: sum.splits option.splits) (metis RoutingTable.select_convs(1))
  then show ?thesis using c by (metis fst_conv)
qed (use assms in \<open>simp add: BuildTable_def\<close>)

subsection \<open>Properties\<close>


text \<open>An environment for the witnesses: no expression compiles and the state is a number.\<close>

definition sampleMe :: "nat mw_env" where
  "sampleMe =
     \<lparr>me_re = (\<lambda>p. None),
      me_cel = \<lparr>ce_lib = (\<lambda>e. None), ce_decode = (\<lambda>b. None), ce_keys = (\<lambda>m. []), ce_readFails = (\<lambda>r. False)\<rparr>,
      me_authz = \<lparr>az_parseDuration = (\<lambda>d. None), az_keys = (\<lambda>h. []), az_readFails = (\<lambda>r. False),
        az_newRequest = (\<lambda>m u. True), az_do = (\<lambda>svc d c. None), az_dial = (\<lambda>t. True),
        az_check = (\<lambda>t d c. Inl ''down''), az_requestURI = Req_Path\<rparr>,
      me_jwt = \<lparr>jw_parseDuration = (\<lambda>d. None), jw_cel = (\<lambda>e. None), jw_sprint = (\<lambda>j. ''''), jw_header = (\<lambda>s. None),
        jw_claims = (\<lambda>s. None), jw_keys = (\<lambda>s. None), jw_pem = (\<lambda>s. None), jw_int64 = (\<lambda>s. 0),
        jw_rsa = (\<lambda>k h m s. False), jw_ec = (\<lambda>k h m s. False), jw_ed = (\<lambda>k m s. False)\<rparr>,
      me_log = \<lparr>le_open = (\<lambda>p. True), le_write = (\<lambda>k l s. Suc s), le_uuid = (\<lambda>s. ''id''), le_duration = (\<lambda>s. 0),
        le_keys = (\<lambda>m. []), le_marshal = (\<lambda>m. ''{}''), le_seconds = (\<lambda>d. ''0''), le_encoded = (\<lambda>j. 2),
        le_request = (\<lambda>s r. r)\<rparr>,
      me_arith = \<lparr>fl_rnd = (\<lambda>x. x), fl_secs = (\<lambda>d. real_of_int d), fl_eps = 0\<rparr>,
      me_parseCIDR = (\<lambda>c. None), me_now = int, me_unix = int,
      me_limiter = (\<lambda>i s. newTokenBucketLimiter 1 1), me_setLimiter = (\<lambda>i l s. s), me_keys = (\<lambda>i s. []),
      me_extProc = (\<lambda>i. \<lparr>xp_parseDuration = (\<lambda>s. None), xp_keys = (\<lambda>h. []), xp_requestURI = Req_Path,
        xp_readFails = (\<lambda>r. False), xp_encode = (\<lambda>j. ''{}''), xp_dial = (\<lambda>t. True), xp_grpc = (\<lambda>t d req s. (None, s)),
        xp_newRequest = (\<lambda>u. True), xp_post = (\<lambda>svc d u req s. (None, s)), xp_decode = (\<lambda>b. None),
        xp_queue = (\<lambda>s. []), xp_setQueue = (\<lambda>q s. s)\<rparr>),
      me_elapsed = (\<lambda>s. 0), me_collect = (\<lambda>ids f s. s)\<rparr>"

definition sampleRoute :: "string \<Rightarrow> string \<Rightarrow> string \<Rightarrow> Route" where
  "sampleRoute i pre expr =
     \<lparr>Route_ID = i, Route_Name = i,
      Route_Match = \<lparr>MatchRule_Path = '''', MatchRule_PathPrefix = pre, MatchRule_PathRegex = '''', MatchRule_Methods = [],
        MatchRule_Hostnames = [], MatchRule_Headers = [], MatchRule_QueryParams = [], MatchRule_GRPC = False, MatchRule_CEL = expr\<rparr>,
      Route_Forward = None, Route_Redirect = None,
      Route_DirectResponse = Some \<lparr>RouteDirectResponse_Status = 200, RouteDirectResponse_Body = i\<rparr>,
      Route_MiddlewareIDs = [], Route_MiddlewareOverrides = Map.empty\<rparr>"

definition sampleAct :: "Route \<Rightarrow> RouteGroup option \<Rightarrow> nat handler" where
  "sampleAct = routeAction Req_Path (\<lambda>w r url code. respond code [] w) (\<lambda>fwd g i nm. notFoundHandler)"

definition sampleBuild :: "Route list \<Rightarrow> (pool_error + (nat RoutingTable \<times> addr \<times> heap)) option go" where
  "sampleBuild routes =
     BuildTable sampleMe (\<lambda>d. NewDestinationPool (\<lambda>s. None) (\<lambda>c k. True) 0 d False) (balancer_Build (\<lambda>f xs. xs) (\<lambda>s. (0, 0))) []
       sampleAct routes [] [] [] 100 0 Map.empty"

lemma sampleBuild_ok: "\<exists>t. sampleBuild routes = Inr (Some (Inr (t, 0, Map.empty)))"
  by (simp add: sampleBuild_def BuildTable_def split_beta Let_def)


text \<open>C34: a route that does not compile is left out of the table and nothing else changes: the table is the one of
  the configuration without it, also when groups name the route.
\<close>

theorem broken_route_isolated:
  fixes me :: "'s mw_env"
  assumes "Route_ID bad \<notin> Route_ID ` set (xs @ ys)"
    and broken: "\<And>(h :: Route \<Rightarrow> RouteGroup option \<Rightarrow> 's handler) g. compileRoute (me_re me) (me_cel me) n h bad g = None"
  shows "BuildTable me mk build order act (xs @ bad # ys) groups dests mws n next hp =
         BuildTable me mk build order act (xs @ ys) groups dests mws n next hp"
proof -
  have same: "compileAll (compileWith me n sv all act) (tableRoutes (xs @ bad # ys) groups) =
        compileAll (compileWith me n sv all act) (tableRoutes (xs @ ys) groups)" for sv all
  proof -
    have "compileWith me n sv all act bad g = None" for g by (simp add: compileWith_def broken)
    then show ?thesis
      using compileAll_drop [of "compileWith me n sv all act" bad "tableRoutes (xs @ bad # ys) groups"]
      by (simp add: tableRoutes_without [OF assms(1)])
  qed
  show ?thesis unfolding BuildTable_def same ..
qed

theorem broken_route_isolated_witness:
  "compileRoute (me_re sampleMe) (me_cel sampleMe) 100 sampleAct (sampleRoute ''bad'' ''/'' ''1 +'') None = None \<and>
   sampleBuild [sampleRoute ''a'' ''/a'' '''', sampleRoute ''bad'' ''/'' ''1 +'', sampleRoute ''b'' ''/'' ''''] =
   sampleBuild [sampleRoute ''a'' ''/a'' '''', sampleRoute ''b'' ''/'' '''']"
proof -
  have broken: "compileRoute (me_re sampleMe) (me_cel sampleMe) 100 h (sampleRoute ''bad'' ''/'' ''1 +'') g = None"
    for h :: "Route \<Rightarrow> RouteGroup option \<Rightarrow> nat handler" and g
    by (simp add: compileRoute_def compileCEL_def cel_Compile_def sampleMe_def sampleRoute_def Let_def split: option.splits)
  then show ?thesis
    using broken_route_isolated [of "sampleRoute ''bad'' ''/'' ''1 +''" "[sampleRoute ''a'' ''/a'' '''']"
        "[sampleRoute ''b'' ''/'' '''']" sampleMe 100]
    by (simp add: sampleBuild_def sampleRoute_def)
qed

text \<open>
  Matching has an effect on the request: when an expression that reads the body turns the request down, the
  next routes get the body cut to the limit.
\<close>

lemma rejected_request_truncated:
  assumes "staticMatch cr req" and "cr_celProgram cr = Some prg" and "cr_needsBody cr" and "0 \<le> cr_celBodyMaxSize cr"
    and "Req_BodyData req = None" and "Req_Body req = Some body" and "\<not> ce_readFails ce req"
    and "int (length body) > cr_celBodyMaxSize cr"
  shows "\<exists>ok req'. cr_match ce cr req = Inr (ok, req', req\<lparr>Req_Body := Some (take (nat (cr_celBodyMaxSize cr)) body)\<rparr>)"
  using assms by (simp add: cr_match_def BufferBody_def Let_def min_def nat_le_iff)

text \<open>Every table's cleanups run exactly when it is replaced.\<close>

lemma swaps_release_once:
  "foldl (\<lambda>(rt, released) t. apsnd (\<lambda>c. released @ c) (SwapTable t rt)) (rt, []) ts =
   (if ts = [] then rt else rt\<lparr>rt_table := last ts\<rparr>, concat (map tb_cleanups (butlast (rt_table rt # ts))))"
proof (induction ts rule: rev_induct)
  case (snoc t ts)
  then show ?case by (cases ts rule: rev_cases) (simp_all add: SwapTable_def butlast_append)
qed simp

end
