(* ===== verification/Listeners.thy ===== *)
theory Listeners
  imports Metrics Http
begin

text \<open>
  The manager of the proxy's listeners (\<^verbatim>\<open>internal/proxy/listener.go\<close>): which servers are stopped, kept and started
  for a new configuration, what a server is started with, and the handlers around the router. Certificates,
  \<^verbatim>\<open>net.Listen\<close> and which patterns \<^verbatim>\<open>http.ServeMux\<close> accepts are parameters. The goroutine that listens and serves is left out; its server is kept with
  whether it could listen. So is the dispatch of the multiplexer between the metrics and the router, apart from the panic of its registration.
\<close>

subsection \<open>Comparison of configurations\<close>

definition sameClientAuth :: "ListenerClientAuth option \<Rightarrow> ListenerClientAuth option \<Rightarrow> bool" where
  "sameClientAuth a b =
     (case (a, b) of
        (None, None) \<Rightarrow> True
      | (Some x, Some y) \<Rightarrow> ListenerClientAuth_Mode x = ListenerClientAuth_Mode y \<and> ListenerClientAuth_CA x = ListenerClientAuth_CA y
      | _ \<Rightarrow> False)"

definition sameTLS :: "ListenerTLS option \<Rightarrow> ListenerTLS option \<Rightarrow> bool" where
  "sameTLS a b =
     (case (a, b) of
        (None, None) \<Rightarrow> True
      | (Some x, Some y) \<Rightarrow>
          if ListenerTLS_Cert x \<noteq> ListenerTLS_Cert y \<or> ListenerTLS_Key x \<noteq> ListenerTLS_Key y \<or>
             ListenerTLS_MinVersion x \<noteq> ListenerTLS_MinVersion y \<or> ListenerTLS_MaxVersion x \<noteq> ListenerTLS_MaxVersion y
          then False
          else sameClientAuth (ListenerTLS_ClientAuth x) (ListenerTLS_ClientAuth y)
      | _ \<Rightarrow> False)"

definition sameMetrics :: "ListenerMetrics option \<Rightarrow> ListenerMetrics option \<Rightarrow> bool" where
  "sameMetrics a b =
     (case (a, b) of
        (None, None) \<Rightarrow> True
      | (Some x, Some y) \<Rightarrow> ResolvedPath x = ResolvedPath y
      | _ \<Rightarrow> False)"

definition sameListener :: "Listener \<Rightarrow> Listener \<Rightarrow> bool" where
  "sameListener a b =
     (if Listener_Address a \<noteq> Listener_Address b \<or> Listener_Port a \<noteq> Listener_Port b \<or>
         Listener_ServerName a \<noteq> Listener_ServerName b \<or> Listener_HTTP2 a \<noteq> Listener_HTTP2 b \<or>
         Listener_MaxRequestHeadersKB a \<noteq> Listener_MaxRequestHeadersKB b then False
      else if \<not> sameTLS (Listener_TLS a) (Listener_TLS b) then False
      else if ResolvedDetail (Listener_ProxyErrors a) \<noteq> ResolvedDetail (Listener_ProxyErrors b) then False
      else sameMetrics (Listener_Metrics a) (Listener_Metrics b))"

subsection \<open>Starting a listener\<close>

datatype ClientAuthType = NoClientCert | VerifyClientCertIfGiven | RequireAndVerifyClientCert

record serverTLS =
  st_Cert :: "string \<times> string"
  st_MinVersion :: nat
  st_MaxVersion :: nat
  st_ClientAuth :: ClientAuthType
  st_ClientCAs :: "string option"

record lm_env =
  le_keyPair :: "string \<Rightarrow> string \<Rightarrow> bool"
  le_certPool :: "string \<Rightarrow> bool"
  le_parseDuration :: "string \<Rightarrow> duration option"
  le_listen :: "nat \<Rightarrow> string \<Rightarrow> bool"
  le_muxAccepts :: "string \<Rightarrow> bool"

definition tlsVersion :: "string \<Rightarrow> nat" where
  "tlsVersion v = (case tlsVersionMap v of Some n \<Rightarrow> n | None \<Rightarrow> 0)"

definition clientAuth :: "lm_env \<Rightarrow> ListenerClientAuth option \<Rightarrow> serverTLS \<Rightarrow> serverTLS option" where
  "clientAuth env ca cfg =
     (case ca of
        None \<Rightarrow> Some cfg
      | Some a \<Rightarrow>
          if ListenerClientAuth_Mode a = '''' \<or> ListenerClientAuth_Mode a = ''none'' then Some cfg
          else
            (let withMode = (if ListenerClientAuth_Mode a = ''optional'' then Some (cfg\<lparr>st_ClientAuth := VerifyClientCertIfGiven\<rparr>)
                             else if ListenerClientAuth_Mode a = ''require'' then Some (cfg\<lparr>st_ClientAuth := RequireAndVerifyClientCert\<rparr>)
                             else None) in
             case withMode of
               None \<Rightarrow> None
             | Some cfg \<Rightarrow>
                 if ListenerClientAuth_CA a = '''' then Some cfg
                 else if \<not> le_certPool env (ListenerClientAuth_CA a) then None
                 else Some (cfg\<lparr>st_ClientCAs := Some (ListenerClientAuth_CA a)\<rparr>)))"

text \<open>The TLS configuration of the server, \<open>Some None\<close> for a plain one; \<open>None\<close> if the listener is given up.\<close>

definition listenerTLS :: "lm_env \<Rightarrow> Listener \<Rightarrow> serverTLS option option" where
  "listenerTLS env l =
     (case Listener_TLS l of
        None \<Rightarrow> Some None
      | Some t \<Rightarrow>
          if ListenerTLS_Cert t = '''' \<or> ListenerTLS_Key t = '''' then Some None
          else if \<not> le_keyPair env (ListenerTLS_Cert t) (ListenerTLS_Key t) then None
          else map_option Some (clientAuth env (ListenerTLS_ClientAuth t)
                 \<lparr>st_Cert = (ListenerTLS_Cert t, ListenerTLS_Key t), st_MinVersion = tlsVersion (ListenerTLS_MinVersion t),
                  st_MaxVersion = tlsVersion (ListenerTLS_MaxVersion t), st_ClientAuth = NoClientCert, st_ClientCAs = None\<rparr>))"

record managedServer =
  ms_listener :: Listener
  ms_addr :: string
  ms_ReadHeaderTimeout :: duration
  ms_ReadTimeout :: duration
  ms_WriteTimeout :: duration
  ms_IdleTimeout :: duration
  ms_TLS :: "serverTLS option"
  ms_metrics :: "nat option"
  ms_listening :: bool

datatype lm_event = Stopped string | Started string

record ListenerManager =
  lm_servers :: "string \<rightharpoonup> managedServer"
  lm_starts :: nat
  lm_collectors :: "MetricsCollector list"
  lm_events :: "lm_event list"

definition NewListenerManager :: ListenerManager where
  "NewListenerManager = \<lparr>lm_servers = Map.empty, lm_starts = 0, lm_collectors = [], lm_events = []\<rparr>"

definition bindAddr :: "Listener \<Rightarrow> string" where
  "bindAddr l = (if Listener_Address l = '''' then ''0.0.0.0'' else Listener_Address l) @ '':'' @ decimal (unat (Listener_Port l))"

definition newServer :: "lm_env \<Rightarrow> nat \<Rightarrow> nat option \<Rightarrow> Listener \<Rightarrow> serverTLS option \<Rightarrow> managedServer" where
  "newServer env n mc l tls =
     (let timeout = parseDurationOrDefault (le_parseDuration env) (Listener_Timeouts l) in
      \<lparr>ms_listener = l, ms_addr = bindAddr l,
       ms_ReadHeaderTimeout = timeout ListenerTimeouts_ClientHeader (10 * second),
       ms_ReadTimeout = timeout ListenerTimeouts_ClientRequest (60 * second),
       ms_WriteTimeout = timeout ListenerTimeouts_ClientResponse (60 * second),
       ms_IdleTimeout = timeout ListenerTimeouts_IdleBetweenRequests (120 * second),
       ms_TLS = tls, ms_metrics = mc,
       ms_listening = le_listen env n (bindAddr l)\<rparr>)"

text \<open>Collectors are shared with the router, so a server holds the position of its one.
  Registering the path of the metrics beside the catch-all pattern panics if the multiplexer does not accept it.\<close>

definition startListener :: "lm_env \<Rightarrow> Listener \<Rightarrow> ListenerManager \<Rightarrow> ListenerManager go" where
  "startListener env l lm =
     (case listenerTLS env l of
        None \<Rightarrow> Inr lm
      | Some tls \<Rightarrow>
          if (case Listener_Metrics l of None \<Rightarrow> False | Some m \<Rightarrow> \<not> le_muxAccepts env (ResolvedPath m)) then Inl InvalidArgument
          else
            (let (mc, collectors) = (case NewMetricsCollector (Listener_Metrics l) of
                                       None \<Rightarrow> (None, lm_collectors lm)
                                     | Some c \<Rightarrow> (Some (length (lm_collectors lm)), lm_collectors lm @ [c])) in
             Inr (lm\<lparr>lm_servers := (lm_servers lm)(Listener_ID l \<mapsto> newServer env (lm_starts lm) mc l tls),
                       lm_starts := Suc (lm_starts lm), lm_collectors := collectors, lm_events := lm_events lm @ [Started (Listener_ID l)]\<rparr>)))"

definition stopListener :: "string \<Rightarrow> ListenerManager \<Rightarrow> ListenerManager" where
  "stopListener i lm = lm\<lparr>lm_servers := (lm_servers lm)(i := None), lm_events := lm_events lm @ [Stopped i]\<rparr>"

definition removeStale :: "(string \<rightharpoonup> Listener) \<Rightarrow> string \<Rightarrow> ListenerManager \<Rightarrow> ListenerManager" where
  "removeStale desired i lm =
     (case lm_servers lm i of
        None \<Rightarrow> lm
      | Some ms \<Rightarrow> if desired i = None then stopListener i lm else lm)"

definition addOrUpdate :: "lm_env \<Rightarrow> (string \<rightharpoonup> Listener) \<Rightarrow> string \<Rightarrow> ListenerManager \<Rightarrow> ListenerManager go" where
  "addOrUpdate env desired i lm =
     (case desired i of
        None \<Rightarrow> Inr lm
      | Some l \<Rightarrow>
          (case lm_servers lm i of
             None \<Rightarrow> startListener env l lm
           | Some ms \<Rightarrow>
               if sameListener (ms_listener ms) l then Inr lm
               else startListener env l (stopListener i lm)))"

fun foldGo :: "('a \<Rightarrow> 's \<Rightarrow> 's go) \<Rightarrow> 'a list \<Rightarrow> 's \<Rightarrow> 's go" where
  "foldGo f [] s = Inr s"
| "foldGo f (x # xs) s = (case f x s of Inl p \<Rightarrow> Inl p | Inr t \<Rightarrow> foldGo f xs t)"

text \<open>\<open>order\<close> enumerates the ids in the order in which the maps are iterated.\<close>

definition Reconcile :: "lm_env \<Rightarrow> string list \<Rightarrow> Listener list \<Rightarrow> ListenerManager \<Rightarrow> ListenerManager go" where
  "Reconcile env order listeners lm =
     (let desired = mapFromSlice Listener_ID listeners in
      foldGo (addOrUpdate env desired) order (fold (removeStale desired) order lm))"

definition MetricsCollectors :: "string list \<Rightarrow> ListenerManager \<Rightarrow> nat list" where
  "MetricsCollectors order lm = List.map_filter (\<lambda>i. Option.bind (lm_servers lm i) ms_metrics) order"

definition Shutdown :: "string list \<Rightarrow> ListenerManager \<Rightarrow> ListenerManager" where
  "Shutdown order lm = fold (\<lambda>i lm. if lm_servers lm i = None then lm else stopListener i lm) order lm"

subsection \<open>Handlers of a listener\<close>

definition headerSize :: "string list \<Rightarrow> header \<Rightarrow> nat" where
  "headerSize keys h =
     sum_list (map (\<lambda>k. sum_list (map (\<lambda>v. length k + length v) (case h k of None \<Rightarrow> [] | Some vs \<Rightarrow> vs))) keys)"

definition guardHandler :: "(header \<Rightarrow> string list) \<Rightarrow> string \<Rightarrow> Listener \<Rightarrow> 's mware" where
  "guardHandler keys now l handler r w s =
     (let w = (if Listener_ServerName l \<noteq> '''' then setHeader ''Server'' (Listener_ServerName l) w else w) in
      if Listener_MaxRequestHeadersKB l > 0 \<and>
         headerSize (keys (Req_Header r)) (Req_Header r) > unat (Listener_MaxRequestHeadersKB l) * 1024
      then (writeProxyError now w r \<lparr>pe_Type = ''request_headers_too_large'', pe_Status = 431, pe_Destination = '''', pe_Endpoint = '''', pe_Message = ''request headers too large''\<rparr>, s)
      else handler r w s)"

definition listenerHandler :: "(header \<Rightarrow> string list) \<Rightarrow> string \<Rightarrow> Listener \<Rightarrow> 's mware" where
  "listenerHandler keys now l router r w s =
     (let handler = (if Listener_ServerName l \<noteq> '''' \<or> Listener_MaxRequestHeadersKB l > 0 then guardHandler keys now l router else router) in
      handler (withProxyErrorDetail r (ResolvedDetail (Listener_ProxyErrors l))) w s)"

subsection \<open>What a reconciliation leaves\<close>

text \<open>
  The server of a desired listener: it is kept if its configuration is the same, given up if its certificates are
  not valid, and new otherwise.
\<close>

definition settled :: "lm_env \<Rightarrow> Listener \<Rightarrow> managedServer option \<Rightarrow> managedServer option \<Rightarrow> bool" where
  "settled env l old new =
     (if (case old of None \<Rightarrow> False | Some ms \<Rightarrow> sameListener (ms_listener ms) l) then new = old
      else case listenerTLS env l of
             None \<Rightarrow> new = None
           | Some tls \<Rightarrow> (\<exists>n mc. new = Some (newServer env n mc l tls)))"

lemma removeStale_servers:
  "lm_servers (removeStale desired i lm) j = (if i = j \<and> desired j = None then None else lm_servers lm j)"
  by (auto simp: removeStale_def stopListener_def split: option.split)

lemma fold_removeStale:
  "lm_servers (fold (removeStale desired) order lm) j = (if j \<in> set order \<and> desired j = None then None else lm_servers lm j)"
  by (induction order arbitrary: lm) (auto simp: removeStale_servers)

lemma startListener_servers:
  assumes "startListener env l lm = Inr lm'" "lm_servers lm (Listener_ID l) = None"
  shows "(case listenerTLS env l of None \<Rightarrow> lm_servers lm' (Listener_ID l) = None
          | Some tls \<Rightarrow> \<exists>n mc. lm_servers lm' (Listener_ID l) = Some (newServer env n mc l tls)) \<and>
    (\<forall>j. j \<noteq> Listener_ID l \<longrightarrow> lm_servers lm' j = lm_servers lm j)"
  using assms by (fastforce simp: startListener_def split: option.splits if_splits)

lemma addOrUpdate_settles:
  assumes "addOrUpdate env desired i lm = Inr lm'" "desired i = Some l" "Listener_ID l = i"
  shows "settled env l (lm_servers lm i) (lm_servers lm' i) \<and> (\<forall>j. j \<noteq> i \<longrightarrow> lm_servers lm' j = lm_servers lm j)"
proof (cases "lm_servers lm (Listener_ID l)")
  case None
  then show ?thesis using assms(1,2) startListener_servers [of env l lm lm'] unfolding assms(3) [symmetric]
    by (simp add: addOrUpdate_def settled_def)
next
  case (Some ms)
  then show ?thesis using assms(1,2) startListener_servers [of env l "stopListener (Listener_ID l) lm" lm']
    unfolding assms(3) [symmetric]
    by (cases "sameListener (ms_listener ms) l") (simp_all add: addOrUpdate_def settled_def stopListener_def)
qed

lemma foldGo_settles:
  assumes "\<And>i l. desired i = Some l \<Longrightarrow> Listener_ID l = i"
  shows "distinct order \<Longrightarrow> foldGo (addOrUpdate env desired) order lm = Inr lm' \<Longrightarrow>
    (case desired i of
       None \<Rightarrow> lm_servers lm' i = lm_servers lm i
     | Some l \<Rightarrow> if i \<in> set order then settled env l (lm_servers lm i) (lm_servers lm' i) else lm_servers lm' i = lm_servers lm i)"
proof (induction order arbitrary: lm)
  case (Cons k order)
  obtain t where t: "addOrUpdate env desired k lm = Inr t" "foldGo (addOrUpdate env desired) order t = Inr lm'"
    using Cons.prems(2) by (auto split: sum.splits)
  note IH = Cons.IH [OF _ t(2)]
  have other: "lm_servers t i = lm_servers lm i" if "i \<noteq> k"
    using that t(1) assms addOrUpdate_settles [OF t(1)] by (cases "desired k") (auto simp: addOrUpdate_def)
  show ?case
  proof (cases "i = k")
    case True
    then show ?thesis using IH Cons.prems(1) t(1) assms addOrUpdate_settles [OF t(1)]
      by (cases "desired k") (auto simp: addOrUpdate_def)
  next
    case False
    then show ?thesis using IH Cons.prems(1) other by (auto split: option.splits)
  qed
qed (simp split: option.split)


definition plainListener :: Listener where
  "plainListener = \<lparr>Listener_ID = ''l'', Listener_Name = '''', Listener_Address = '''', Listener_Port = 80, Listener_TLS = None,
     Listener_HTTP2 = False, Listener_ServerName = '''', Listener_MaxRequestHeadersKB = 0, Listener_Metrics = None,
     Listener_Timeouts = None, Listener_ProxyErrors = None\<rparr>"

definition lmEnv :: lm_env where
  "lmEnv = \<lparr>le_keyPair = (\<lambda>c k. True), le_certPool = (\<lambda>c. True), le_parseDuration = (\<lambda>s. None), le_listen = (\<lambda>n a. True), le_muxAccepts = (\<lambda>p. True)\<rparr>"

lemma plain_reconcile: "\<exists>lm'. Reconcile lmEnv [''l''] [plainListener] NewListenerManager = Inr lm'"
  by (simp add: Reconcile_def mapFromSlice_def removeStale_def addOrUpdate_def startListener_def listenerTLS_def plainListener_def
      NewListenerManager_def split_beta)


subsection \<open>Consequences\<close>

text \<open>New time limits of a listener do not restart it and so do not take effect; nor do new metrics options at the same path.\<close>

lemma timeouts_not_compared: "sameListener l (l\<lparr>Listener_Timeouts := t\<rparr>)"
  by (auto simp: sameListener_def sameTLS_def sameClientAuth_def sameMetrics_def split: option.splits)

text \<open>A server that could not listen is kept like any other and does not try again.\<close>

lemma failed_listener_kept:
  "desired i = Some l \<Longrightarrow> lm_servers lm i = Some ms \<Longrightarrow> sameListener (ms_listener ms) l \<Longrightarrow> addOrUpdate env desired i lm = Inr lm"
  by (simp add: addOrUpdate_def)

text \<open>A listener with a certificate but no key is served without encryption.\<close>

lemma keyless_listener_is_plain:
  "Listener_TLS l = Some t \<Longrightarrow> ListenerTLS_Key t = '''' \<Longrightarrow> listenerTLS env l = Some None"
  by (simp add: listenerTLS_def)

text \<open>An update with certificates that are not valid stops the running server and starts none.\<close>

lemma bad_update_stops_listener:
  assumes "desired i = Some l" "lm_servers lm i = Some ms" "\<not> sameListener (ms_listener ms) l" "listenerTLS env l = None"
  shows "addOrUpdate env desired i lm = Inr (stopListener i lm)" "lm_servers (stopListener i lm) i = None"
  using assms by (simp_all add: addOrUpdate_def startListener_def stopListener_def)

end
