(* ===== verification/Gateway.thy ===== *)
theory Gateway
  imports Health Routing Listeners
begin

text \<open>
  The gateway (\<^verbatim>\<open>internal/gateway/gateway.go\<close>), which rebuilds the proxy after every event of the store: it lists the
  entities, merges discovered endpoints, builds a routing table and hands it to the router, the health checker,
  the outlier detector, the listeners and the metrics. What the store lists, the endpoint provider and the order in which
  maps are iterated are parameters; the arguments of \<open>BuildTable\<close> are those of the theory of routing.
\<close>

record storeLists =
  sl_listeners :: "Listener list option"
  sl_middlewares :: "Middleware list option"
  sl_groups :: "RouteGroup list option"
  sl_routes :: "Route list option"
  sl_destinations :: "Destination list option"

datatype gw_error = GwSubscribing | GwListing string | GwBuilding pool_error

record 's gw_env =
  ge_me :: "'s mw_env"
  ge_pool :: "Destination \<Rightarrow> addr \<Rightarrow> heap \<Rightarrow> pool_error + (DestinationPool \<times> addr \<times> heap)"
  ge_balance :: "Balancer \<Rightarrow> DestinationRef list \<Rightarrow> Balancer option go"
  ge_action :: "Route \<Rightarrow> RouteGroup option \<Rightarrow> 's handler"
  ge_listeners :: lm_env
  ge_celBodyMaxSize :: int
  ge_zeroTime :: time

record 's gwState =
  gs_router :: "'s Router"
  gs_health :: "HealthChecker option"
  gs_outlier :: "trackers option"
  gs_manager :: ListenerManager
  gs_heap :: heap
  gs_next :: addr
  gs_released :: "inst list"

definition mergeEndpoints :: "(string \<rightharpoonup> Endpoint list) option \<Rightarrow> Destination list \<Rightarrow> Destination list" where
  "mergeEndpoints provider destinations =
     (case provider of
        None \<Rightarrow> destinations
      | Some discovered \<Rightarrow>
          map (\<lambda>d. case discovered (Destination_ID d) of
                      Some eps \<Rightarrow> if length eps > 0 then d\<lparr>Destination_Endpoints := eps\<rparr> else d
                    | None \<Rightarrow> d) destinations)"

definition poolList :: "string list \<Rightarrow> (string \<rightharpoonup> DestinationPool) \<Rightarrow> DestinationPool list" where
  "poolList order pools = List.map_filter pools order"

definition wireEndpoint :: "addr \<Rightarrow> heap \<Rightarrow> heap" where
  "wireEndpoint a hp = (case hp a of None \<Rightarrow> hp | Some e \<Rightarrow> hp(a \<mapsto> e\<lparr>ep_OnResponse := True\<rparr>))"

text \<open>What follows the swap: health checks, outlier detection with its callback at every endpoint, listeners, metrics.\<close>

definition wire :: "'s gw_env \<Rightarrow> string list \<Rightarrow> string list \<Rightarrow> Listener list \<Rightarrow> 's RoutingTable \<Rightarrow> 's gwState \<Rightarrow> 's gwState go" where
  "wire ge order lmOrder listeners table s =
     (let pools = poolList order (tb_pools table);
          s = s\<lparr>gs_health := map_option (hc_Update (gs_heap s) pools) (gs_health s)\<rparr>;
          s = (case gs_outlier s of
                 None \<Rightarrow> s
               | Some ts \<Rightarrow> s\<lparr>gs_outlier := Some (od_Update (ge_zeroTime ge) (gs_heap s) pools ts),
                               gs_heap := fold wireEndpoint (concat (map pool_Endpoints pools)) (gs_heap s)\<rparr>) in
      case Reconcile (ge_listeners ge) lmOrder listeners (gs_manager s) of
        Inl p \<Rightarrow> Inl p
      | Inr lm \<Rightarrow>
          (let mcs = MetricsCollectors lmOrder lm;
               collectors = fold (\<lambda>i cs. cs[i := UpdatePools (tb_pools table) (cs ! i)]) mcs (lm_collectors lm) in
           Inr (s\<lparr>gs_manager := lm\<lparr>lm_collectors := collectors\<rparr>, gs_router := SetMetricsCollectors mcs (gs_router s)\<rparr>)))"

definition rebuild ::
  "'s gw_env \<Rightarrow> string list \<Rightarrow> string list \<Rightarrow> (string \<rightharpoonup> Endpoint list) option \<Rightarrow> storeLists \<Rightarrow> 's gwState \<Rightarrow>
   (gw_error option \<times> 's gwState) option go" where
  "rebuild ge order lmOrder provider st s =
     (case sl_listeners st of None \<Rightarrow> Inr (Some (Some (GwListing ''listeners''), s)) | Some listeners \<Rightarrow>
      case sl_middlewares st of None \<Rightarrow> Inr (Some (Some (GwListing ''middlewares''), s)) | Some middlewares \<Rightarrow>
      case sl_groups st of None \<Rightarrow> Inr (Some (Some (GwListing ''groups''), s)) | Some groups \<Rightarrow>
      case sl_routes st of None \<Rightarrow> Inr (Some (Some (GwListing ''routes''), s)) | Some routes \<Rightarrow>
      case sl_destinations st of None \<Rightarrow> Inr (Some (Some (GwListing ''destinations''), s)) | Some destinations \<Rightarrow>
      case BuildTable (ge_me ge) (ge_pool ge) (ge_balance ge) order (ge_action ge) routes groups
             (mergeEndpoints provider destinations) middlewares (ge_celBodyMaxSize ge) (gs_next s) (gs_heap s) of
        Inl p \<Rightarrow> Inl p
      | Inr None \<Rightarrow> Inr None
      | Inr (Some (Inl err)) \<Rightarrow> Inr (Some (Some (GwBuilding err), s))
      | Inr (Some (Inr (table, a, hp))) \<Rightarrow>
          (let (router, released) = SwapTable table (gs_router s) in
           case wire ge order lmOrder listeners table
                  (s\<lparr>gs_router := router, gs_released := gs_released s @ released, gs_heap := hp, gs_next := a\<rparr>) of
             Inl p \<Rightarrow> Inl p
           | Inr s' \<Rightarrow> Inr (Some (None, s'))))"

text \<open>The event loop: one rebuild at the start and one for every event, each over what the store then lists. Errors are logged.\<close>

fun rebuilds ::
  "'s gw_env \<Rightarrow> string list \<Rightarrow> string list \<Rightarrow> ((string \<rightharpoonup> Endpoint list) option \<times> storeLists) list \<Rightarrow> 's gwState \<Rightarrow>
   's gwState option go" where
  "rebuilds ge order lmOrder [] s = Inr (Some s)"
| "rebuilds ge order lmOrder ((provider, st) # events) s =
     (case rebuild ge order lmOrder provider st s of
        Inl p \<Rightarrow> Inl p
      | Inr None \<Rightarrow> Inr None
      | Inr (Some (err, s')) \<Rightarrow> rebuilds ge order lmOrder events s')"

definition gw_Run ::
  "'s gw_env \<Rightarrow> string list \<Rightarrow> string list \<Rightarrow> bool \<Rightarrow> (string \<rightharpoonup> Endpoint list) option \<times> storeLists \<Rightarrow>
   ((string \<rightharpoonup> Endpoint list) option \<times> storeLists) list \<Rightarrow> 's gwState \<Rightarrow> (gw_error option \<times> 's gwState) option go" where
  "gw_Run ge order lmOrder subscribed initial events s =
     (if \<not> subscribed then Inr (Some (Some GwSubscribing, s))
      else case rebuilds ge order lmOrder (initial # events) s of
             Inl p \<Rightarrow> Inl p
           | Inr None \<Rightarrow> Inr None
           | Inr (Some s') \<Rightarrow> Inr (Some (None, s')))"

subsection \<open>What a rebuild does\<close>

lemma wire_state:
  assumes "wire ge order lmOrder listeners table s = Inr s'"
  shows "rt_table (gs_router s') = rt_table (gs_router s) \<and> gs_released s' = gs_released s \<and>
    rt_collectors (gs_router s') = MetricsCollectors lmOrder (gs_manager s') \<and>
    map_option hc_pools (gs_health s') = map_option (\<lambda>_. poolList order (tb_pools table)) (gs_health s) \<and>
    (\<exists>lm. Reconcile (ge_listeners ge) lmOrder listeners (gs_manager s) = Inr lm \<and> lm_servers (gs_manager s') = lm_servers lm)"
  using assms
  by (cases "gs_outlier s"; cases "Reconcile (ge_listeners ge) lmOrder listeners (gs_manager s)"; cases "gs_health s")
    (auto simp: wire_def Let_def SetMetricsCollectors_def MetricsCollectors_def hc_Update_def)


definition sampleGateway :: "nat gw_env" where
  "sampleGateway =
     \<lparr>ge_me = sampleMe, ge_pool = (\<lambda>d. NewDestinationPool (\<lambda>s. None) (\<lambda>c k. True) 0 d False),
      ge_balance = balancer_Build (\<lambda>f xs. xs) (\<lambda>s. (0, 0)), ge_action = sampleAct, ge_listeners = lmEnv,
      ge_celBodyMaxSize = 100, ge_zeroTime = 0\<rparr>"

definition sampleStored :: "Route list \<Rightarrow> storeLists" where
  "sampleStored routes =
     \<lparr>sl_listeners = Some [plainListener], sl_middlewares = Some [], sl_groups = Some [], sl_routes = Some routes,
      sl_destinations = Some []\<rparr>"

definition newGateway :: "nat gwState" where
  "newGateway =
     \<lparr>gs_router = NewRouter, gs_health = Some NewHealthChecker, gs_outlier = Some Map.empty, gs_manager = NewListenerManager,
      gs_heap = Map.empty, gs_next = 0, gs_released = []\<rparr>"

lemma sample_rebuild_ok: "\<exists>s'. rebuild sampleGateway [] [''l''] None (sampleStored routes) newGateway = Inr (Some (None, s'))"
proof -
  obtain t where t: "sampleBuild routes = Inr (Some (Inr (t, 0, Map.empty)))" using sampleBuild_ok by blast
  obtain lm where lm: "Reconcile lmEnv [''l''] [plainListener] NewListenerManager = Inr lm" using plain_reconcile by blast
  show ?thesis using t lm
    by (simp add: rebuild_def sampleStored_def sampleGateway_def newGateway_def sampleBuild_def mergeEndpoints_def wire_def Let_def
        split_beta)
qed


end
