(* ===== verification/Stores.thy ===== *)
theory Stores
  imports Model Go_Net
begin

text \<open>
  The stores of the control plane: the in-memory store (\<^verbatim>\<open>server/internal/store/memory/memory.go\<close>), the
  persistent store with encryption at rest (\<^verbatim>\<open>store/bolt/bolt.go\<close>, \<^verbatim>\<open>encrypt/encrypt.go\<close>) and the replicated
  commands (\<^verbatim>\<open>raft/fsm.go\<close>, \<^verbatim>\<open>store/raftstore/raftstore.go\<close>). A database is a map of buckets to their entries. JSON
  encoding, the AEAD, the entries that the database accepts and the consensus log are parameters. Mutexes are the order of the
  operations; the iteration order of a map is an argument.
\<close>

subsection \<open>Events\<close>

datatype EventType = EventCreated | EventUpdated | EventDeleted

datatype ResourceType =
  ResourceGroup | ResourceRoute | ResourceMiddleware | ResourceListener | ResourceDestination | ResourceSecret | ResourceSnapshot

record StoreEvent =
  ev_Type :: EventType
  ev_Resource :: ResourceType
  ev_ID :: string

datatype store_err =
  ErrNotFound string string | ErrNoActiveSnapshot | ErrDecode | ErrDecrypt | ErrEncrypt | ErrPut | ErrCommand string | ErrMode bool

text \<open>Subscribers are numbered; their channels hold 32 events, and an event for a full channel is dropped.\<close>

type_synonym subscribers = "(nat \<times> StoreEvent list) list"

definition publish :: "StoreEvent \<Rightarrow> subscribers \<Rightarrow> subscribers" where
  "publish ev subs = map (\<lambda>(ch, buf). (ch, if length buf < 32 then buf @ [ev] else buf)) subs"

definition subscribe :: "nat \<Rightarrow> subscribers \<Rightarrow> subscribers" where
  "subscribe ch subs = subs @ [(ch, [])]"

fun unsubscribe :: "nat \<Rightarrow> subscribers \<Rightarrow> subscribers" where
  "unsubscribe ch [] = []"
| "unsubscribe ch (sub # subs) = (if fst sub = ch then subs else sub # unsubscribe ch subs)"

subsection \<open>The in-memory store\<close>

record memStore =
  ms_routes :: "string \<rightharpoonup> Route"
  ms_groups :: "string \<rightharpoonup> RouteGroup"
  ms_filters :: "string \<rightharpoonup> Middleware"
  ms_listeners :: "string \<rightharpoonup> Listener"
  ms_destinations :: "string \<rightharpoonup> Destination"
  ms_secrets :: "string \<rightharpoonup> Secret"
  ms_snapshots :: "string \<rightharpoonup> VersionedSnapshot"
  ms_activeSnap :: string
  ms_subs :: subscribers

definition mem_New :: memStore where
  "mem_New =
     \<lparr>ms_routes = Map.empty, ms_groups = Map.empty, ms_filters = Map.empty, ms_listeners = Map.empty,
      ms_destinations = Map.empty, ms_secrets = Map.empty, ms_snapshots = Map.empty, ms_activeSnap = '''', ms_subs = []\<rparr>"

definition mem_publish :: "EventType \<Rightarrow> ResourceType \<Rightarrow> string \<Rightarrow> memStore \<Rightarrow> memStore" where
  "mem_publish t res i s = s\<lparr>ms_subs := publish \<lparr>ev_Type = t, ev_Resource = res, ev_ID = i\<rparr> (ms_subs s)\<rparr>"

definition lookup :: "string \<Rightarrow> string \<Rightarrow> (string \<rightharpoonup> 'a) \<Rightarrow> store_err + 'a" where
  "lookup what i m = (case m i of None \<Rightarrow> Inl (ErrNotFound what i) | Some v \<Rightarrow> Inr v)"

definition mem_ListRoutes :: "string list \<Rightarrow> memStore \<Rightarrow> Route list" where
  "mem_ListRoutes order s = List.map_filter (ms_routes s) order"

definition mem_GetRoute :: "string \<Rightarrow> memStore \<Rightarrow> store_err + Route" where
  "mem_GetRoute i s = lookup ''route'' i (ms_routes s)"

definition mem_SaveRoute :: "Route \<Rightarrow> memStore \<Rightarrow> store_err + memStore" where
  "mem_SaveRoute v s =
     Inr (mem_publish EventCreated ResourceRoute (Route_ID v) (s\<lparr>ms_routes := (ms_routes s)(Route_ID v \<mapsto> v)\<rparr>))"

definition mem_DeleteRoute :: "string \<Rightarrow> memStore \<Rightarrow> store_err + memStore" where
  "mem_DeleteRoute i s =
     (if ms_routes s i = None then Inl (ErrNotFound ''route'' i)
      else Inr (mem_publish EventDeleted ResourceRoute i (s\<lparr>ms_routes := (ms_routes s)(i := None)\<rparr>)))"

definition mem_ListGroups :: "string list \<Rightarrow> memStore \<Rightarrow> RouteGroup list" where
  "mem_ListGroups order s = List.map_filter (ms_groups s) order"

definition mem_GetGroup :: "string \<Rightarrow> memStore \<Rightarrow> store_err + RouteGroup" where
  "mem_GetGroup i s = lookup ''group'' i (ms_groups s)"

definition mem_SaveGroup :: "RouteGroup \<Rightarrow> memStore \<Rightarrow> store_err + memStore" where
  "mem_SaveGroup v s =
     Inr (mem_publish EventCreated ResourceGroup (RouteGroup_ID v) (s\<lparr>ms_groups := (ms_groups s)(RouteGroup_ID v \<mapsto> v)\<rparr>))"

definition mem_DeleteGroup :: "string \<Rightarrow> memStore \<Rightarrow> store_err + memStore" where
  "mem_DeleteGroup i s =
     (if ms_groups s i = None then Inl (ErrNotFound ''group'' i)
      else Inr (mem_publish EventDeleted ResourceGroup i (s\<lparr>ms_groups := (ms_groups s)(i := None)\<rparr>)))"

definition mem_ListMiddlewares :: "string list \<Rightarrow> memStore \<Rightarrow> Middleware list" where
  "mem_ListMiddlewares order s = List.map_filter (ms_filters s) order"

definition mem_GetMiddleware :: "string \<Rightarrow> memStore \<Rightarrow> store_err + Middleware" where
  "mem_GetMiddleware i s = lookup ''filter'' i (ms_filters s)"

definition mem_SaveMiddleware :: "Middleware \<Rightarrow> memStore \<Rightarrow> store_err + memStore" where
  "mem_SaveMiddleware v s =
     Inr (mem_publish EventCreated ResourceMiddleware (Middleware_ID v) (s\<lparr>ms_filters := (ms_filters s)(Middleware_ID v \<mapsto> v)\<rparr>))"

definition mem_DeleteMiddleware :: "string \<Rightarrow> memStore \<Rightarrow> store_err + memStore" where
  "mem_DeleteMiddleware i s =
     (if ms_filters s i = None then Inl (ErrNotFound ''filter'' i)
      else Inr (mem_publish EventDeleted ResourceMiddleware i (s\<lparr>ms_filters := (ms_filters s)(i := None)\<rparr>)))"

definition mem_ListListeners :: "string list \<Rightarrow> memStore \<Rightarrow> Listener list" where
  "mem_ListListeners order s = List.map_filter (ms_listeners s) order"

definition mem_GetListener :: "string \<Rightarrow> memStore \<Rightarrow> store_err + Listener" where
  "mem_GetListener i s = lookup ''listener'' i (ms_listeners s)"

definition mem_SaveListener :: "Listener \<Rightarrow> memStore \<Rightarrow> store_err + memStore" where
  "mem_SaveListener v s =
     Inr (mem_publish EventCreated ResourceListener (Listener_ID v) (s\<lparr>ms_listeners := (ms_listeners s)(Listener_ID v \<mapsto> v)\<rparr>))"

definition mem_DeleteListener :: "string \<Rightarrow> memStore \<Rightarrow> store_err + memStore" where
  "mem_DeleteListener i s =
     (if ms_listeners s i = None then Inl (ErrNotFound ''listener'' i)
      else Inr (mem_publish EventDeleted ResourceListener i (s\<lparr>ms_listeners := (ms_listeners s)(i := None)\<rparr>)))"

definition mem_ListDestinations :: "string list \<Rightarrow> memStore \<Rightarrow> Destination list" where
  "mem_ListDestinations order s = List.map_filter (ms_destinations s) order"

definition mem_GetDestination :: "string \<Rightarrow> memStore \<Rightarrow> store_err + Destination" where
  "mem_GetDestination i s = lookup ''destination'' i (ms_destinations s)"

definition mem_SaveDestination :: "Destination \<Rightarrow> memStore \<Rightarrow> store_err + memStore" where
  "mem_SaveDestination v s =
     Inr (mem_publish EventCreated ResourceDestination (Destination_ID v) (s\<lparr>ms_destinations := (ms_destinations s)(Destination_ID v \<mapsto> v)\<rparr>))"

definition mem_DeleteDestination :: "string \<Rightarrow> memStore \<Rightarrow> store_err + memStore" where
  "mem_DeleteDestination i s =
     (if ms_destinations s i = None then Inl (ErrNotFound ''destination'' i)
      else Inr (mem_publish EventDeleted ResourceDestination i (s\<lparr>ms_destinations := (ms_destinations s)(i := None)\<rparr>)))"

definition mem_ListSecrets :: "string list \<Rightarrow> memStore \<Rightarrow> SecretSummary list" where
  "mem_ListSecrets order s =
     map (\<lambda>sec. \<lparr>SecretSummary_ID = Secret_ID sec, SecretSummary_Name = Secret_Name sec\<rparr>) (List.map_filter (ms_secrets s) order)"

definition mem_GetSecret :: "string \<Rightarrow> memStore \<Rightarrow> store_err + Secret" where
  "mem_GetSecret i s = lookup ''secret'' i (ms_secrets s)"

definition mem_SaveSecret :: "Secret \<Rightarrow> memStore \<Rightarrow> store_err + memStore" where
  "mem_SaveSecret sec s =
     (let evt = (if ms_secrets s (Secret_ID sec) = None then EventCreated else EventUpdated) in
      Inr (mem_publish evt ResourceSecret (Secret_ID sec) (s\<lparr>ms_secrets := (ms_secrets s)(Secret_ID sec \<mapsto> sec)\<rparr>)))"

definition mem_DeleteSecret :: "string \<Rightarrow> memStore \<Rightarrow> store_err + memStore" where
  "mem_DeleteSecret i s =
     (if ms_secrets s i = None then Inl (ErrNotFound ''secret'' i)
      else Inr (mem_publish EventDeleted ResourceSecret i (s\<lparr>ms_secrets := (ms_secrets s)(i := None)\<rparr>)))"

definition summary :: "bool \<Rightarrow> VersionedSnapshot \<Rightarrow> SnapshotSummary" where
  "summary active vs =
     \<lparr>SnapshotSummary_ID = VersionedSnapshot_ID vs, SnapshotSummary_Name = VersionedSnapshot_Name vs,
      SnapshotSummary_CreatedAt = VersionedSnapshot_CreatedAt vs, SnapshotSummary_Active = active\<rparr>"

definition mem_ListSnapshots :: "string list \<Rightarrow> memStore \<Rightarrow> SnapshotSummary list" where
  "mem_ListSnapshots order s =
     map (\<lambda>vs. summary (VersionedSnapshot_ID vs = ms_activeSnap s) vs) (List.map_filter (ms_snapshots s) order)"

definition mem_GetSnapshot :: "string \<Rightarrow> memStore \<Rightarrow> store_err + VersionedSnapshot" where
  "mem_GetSnapshot i s = lookup ''snapshot'' i (ms_snapshots s)"

definition mem_SaveSnapshot :: "VersionedSnapshot \<Rightarrow> memStore \<Rightarrow> store_err + memStore" where
  "mem_SaveSnapshot vs s =
     Inr (mem_publish EventCreated ResourceSnapshot (VersionedSnapshot_ID vs)
            (s\<lparr>ms_snapshots := (ms_snapshots s)(VersionedSnapshot_ID vs \<mapsto> vs)\<rparr>))"

definition mem_DeleteSnapshot :: "string \<Rightarrow> memStore \<Rightarrow> store_err + memStore" where
  "mem_DeleteSnapshot i s =
     (if ms_snapshots s i = None then Inl (ErrNotFound ''snapshot'' i)
      else Inr (mem_publish EventDeleted ResourceSnapshot i
             (s\<lparr>ms_snapshots := (ms_snapshots s)(i := None),
                ms_activeSnap := (if ms_activeSnap s = i then '''' else ms_activeSnap s)\<rparr>)))"

definition mem_ActivateSnapshot :: "string \<Rightarrow> memStore \<Rightarrow> store_err + memStore" where
  "mem_ActivateSnapshot i s =
     (if ms_snapshots s i = None then Inl (ErrNotFound ''snapshot'' i)
      else Inr (mem_publish EventUpdated ResourceSnapshot i (s\<lparr>ms_activeSnap := i\<rparr>)))"

definition mem_GetActiveSnapshot :: "memStore \<Rightarrow> store_err + VersionedSnapshot" where
  "mem_GetActiveSnapshot s =
     (if ms_activeSnap s = '''' then Inl ErrNoActiveSnapshot
      else case ms_snapshots s (ms_activeSnap s) of None \<Rightarrow> Inl ErrNoActiveSnapshot | Some vs \<Rightarrow> Inr vs)"

subsection \<open>Encryption\<close>

record aead =
  ae_nonceSize :: nat
  ae_Seal :: "string \<Rightarrow> string \<Rightarrow> string"
  ae_Open :: "string \<Rightarrow> string \<Rightarrow> string option"

text \<open>\<open>nonce\<close> is what the random source gives; \<open>None\<close> when it fails.\<close>

definition cipher_Seal :: "aead \<Rightarrow> string option \<Rightarrow> string \<Rightarrow> string option" where
  "cipher_Seal a nonce plaintext = map_option (\<lambda>n. n @ ae_Seal a n plaintext) nonce"

definition cipher_Open :: "aead \<Rightarrow> string \<Rightarrow> string option" where
  "cipher_Open a ciphertext =
     (if length ciphertext < ae_nonceSize a then None
      else ae_Open a (take (ae_nonceSize a) ciphertext) (drop (ae_nonceSize a) ciphertext))"

subsection \<open>The persistent store\<close>

record 'a codec =
  marshal :: "'a \<Rightarrow> string"
  unmarshal :: "string \<Rightarrow> 'a option"

record senv =
  se_routes :: "Route codec"
  se_groups :: "RouteGroup codec"
  se_middlewares :: "Middleware codec"
  se_listeners :: "Listener codec"
  se_destinations :: "Destination codec"
  se_secrets :: "Secret codec"
  se_snapshots :: "VersionedSnapshot codec"
  se_cipher :: "aead option"
  se_putOk :: "string \<Rightarrow> string \<Rightarrow> bool"
  se_jsonValid :: "string \<Rightarrow> bool"

record boltStore =
  bs_db :: "string \<Rightarrow> string \<rightharpoonup> string"
  bs_subs :: subscribers

definition bolt_publish :: "EventType \<Rightarrow> ResourceType \<Rightarrow> string \<Rightarrow> boltStore \<Rightarrow> boltStore" where
  "bolt_publish t res i s = s\<lparr>bs_subs := publish \<lparr>ev_Type = t, ev_Resource = res, ev_ID = i\<rparr> (bs_subs s)\<rparr>"

definition bput :: "senv \<Rightarrow> string \<Rightarrow> string \<Rightarrow> string \<Rightarrow> boltStore \<Rightarrow> store_err + boltStore" where
  "bput e bucket k v s =
     (if se_putOk e k v then Inr (s\<lparr>bs_db := (bs_db s)(bucket := (bs_db s bucket)(k \<mapsto> v))\<rparr>) else Inl ErrPut)"

definition bdelete :: "string \<Rightarrow> string \<Rightarrow> boltStore \<Rightarrow> boltStore" where
  "bdelete bucket k s = s\<lparr>bs_db := (bs_db s)(bucket := (bs_db s bucket)(k := None))\<rparr>"

definition encryptValue :: "senv \<Rightarrow> string option \<Rightarrow> string \<Rightarrow> string option" where
  "encryptValue e nonce data = (case se_cipher e of None \<Rightarrow> Some data | Some a \<Rightarrow> cipher_Seal a nonce data)"

definition decryptValue :: "senv \<Rightarrow> string \<Rightarrow> string option" where
  "decryptValue e data = (case se_cipher e of None \<Rightarrow> Some data | Some a \<Rightarrow> cipher_Open a data)"

text \<open>
  The operations on routes, groups, middlewares, listeners and destinations are the same code with another bucket
  and type. \<open>order\<close> lists the keys of the bucket.
\<close>

fun bolt_List :: "'a codec \<Rightarrow> string list \<Rightarrow> (string \<rightharpoonup> string) \<Rightarrow> store_err + 'a list" where
  "bolt_List c [] b = Inr []"
| "bolt_List c (k # ks) b =
     (case b k of
        None \<Rightarrow> bolt_List c ks b
      | Some v \<Rightarrow>
          (case unmarshal c v of
             None \<Rightarrow> Inl ErrDecode
           | Some x \<Rightarrow> (case bolt_List c ks b of Inl err \<Rightarrow> Inl err | Inr xs \<Rightarrow> Inr (x # xs))))"

definition bolt_Get :: "'a codec \<Rightarrow> string \<Rightarrow> string \<Rightarrow> string \<Rightarrow> boltStore \<Rightarrow> store_err + 'a" where
  "bolt_Get c bucket what i s =
     (case bs_db s bucket i of
        None \<Rightarrow> Inl (ErrNotFound what i)
      | Some v \<Rightarrow> (case unmarshal c v of None \<Rightarrow> Inl ErrDecode | Some x \<Rightarrow> Inr x))"

definition bolt_Save ::
  "senv \<Rightarrow> 'a codec \<Rightarrow> string \<Rightarrow> ResourceType \<Rightarrow> ('a \<Rightarrow> string) \<Rightarrow> 'a \<Rightarrow> boltStore \<Rightarrow> store_err + boltStore" where
  "bolt_Save e c bucket res idOf x s =
     (case bput e bucket (idOf x) (marshal c x) s of
        Inl err \<Rightarrow> Inl err
      | Inr s \<Rightarrow> Inr (bolt_publish EventCreated res (idOf x) s))"

definition bolt_Delete :: "string \<Rightarrow> string \<Rightarrow> ResourceType \<Rightarrow> string \<Rightarrow> boltStore \<Rightarrow> store_err + boltStore" where
  "bolt_Delete bucket what res i s =
     (if bs_db s bucket i = None then Inl (ErrNotFound what i)
      else Inr (bolt_publish EventDeleted res i (bdelete bucket i s)))"

definition decodeSealed :: "senv \<Rightarrow> 'a codec \<Rightarrow> string \<Rightarrow> store_err + 'a" where
  "decodeSealed e c v =
     (case decryptValue e v of
        None \<Rightarrow> Inl ErrDecrypt
      | Some plain \<Rightarrow> (case unmarshal c plain of None \<Rightarrow> Inl ErrDecode | Some x \<Rightarrow> Inr x))"

fun listSealed :: "senv \<Rightarrow> 'a codec \<Rightarrow> string list \<Rightarrow> (string \<rightharpoonup> string) \<Rightarrow> store_err + 'a list" where
  "listSealed e c [] b = Inr []"
| "listSealed e c (k # ks) b =
     (case b k of
        None \<Rightarrow> listSealed e c ks b
      | Some v \<Rightarrow>
          (case decodeSealed e c v of
             Inl err \<Rightarrow> Inl err
           | Inr x \<Rightarrow> (case listSealed e c ks b of Inl err \<Rightarrow> Inl err | Inr xs \<Rightarrow> Inr (x # xs))))"

definition bolt_ListSecrets :: "senv \<Rightarrow> string list \<Rightarrow> boltStore \<Rightarrow> store_err + SecretSummary list" where
  "bolt_ListSecrets e order s =
     map_sum (\<lambda>err. err) (map (\<lambda>sec. \<lparr>SecretSummary_ID = Secret_ID sec, SecretSummary_Name = Secret_Name sec\<rparr>))
       (listSealed e (se_secrets e) order (bs_db s ''secrets''))"

definition bolt_GetSecret :: "senv \<Rightarrow> string \<Rightarrow> boltStore \<Rightarrow> store_err + Secret" where
  "bolt_GetSecret e i s =
     (case bs_db s ''secrets'' i of
        None \<Rightarrow> Inl (ErrNotFound ''secret'' i) | Some data \<Rightarrow> decodeSealed e (se_secrets e) data)"

definition bolt_SaveSecret :: "senv \<Rightarrow> string option \<Rightarrow> Secret \<Rightarrow> boltStore \<Rightarrow> store_err + boltStore" where
  "bolt_SaveSecret e nonce sec s =
     (let isNew = (bs_db s ''secrets'' (Secret_ID sec) = None) in
      case encryptValue e nonce (marshal (se_secrets e) sec) of
        None \<Rightarrow> Inl ErrEncrypt
      | Some encrypted \<Rightarrow>
          (case bput e ''secrets'' (Secret_ID sec) encrypted s of
             Inl err \<Rightarrow> Inl err
           | Inr s \<Rightarrow> Inr (bolt_publish (if isNew then EventCreated else EventUpdated) ResourceSecret (Secret_ID sec) s)))"

definition bolt_DeleteSecret :: "string \<Rightarrow> boltStore \<Rightarrow> store_err + boltStore" where
  "bolt_DeleteSecret i s = bolt_Delete ''secrets'' ''secret'' ResourceSecret i s"

abbreviation metaActiveSnapshot :: string where
  "metaActiveSnapshot \<equiv> ''active_snapshot_id''"

definition bolt_ListSnapshots :: "senv \<Rightarrow> string list \<Rightarrow> boltStore \<Rightarrow> store_err + SnapshotSummary list" where
  "bolt_ListSnapshots e order s =
     (let activeID = (case bs_db s ''meta'' metaActiveSnapshot of None \<Rightarrow> '''' | Some v \<Rightarrow> v) in
      map_sum (\<lambda>err. err) (map (\<lambda>vs. summary (VersionedSnapshot_ID vs = activeID) vs))
        (listSealed e (se_snapshots e) order (bs_db s ''snapshots'')))"

definition bolt_GetSnapshot :: "senv \<Rightarrow> string \<Rightarrow> boltStore \<Rightarrow> store_err + VersionedSnapshot" where
  "bolt_GetSnapshot e i s =
     (case bs_db s ''snapshots'' i of
        None \<Rightarrow> Inl (ErrNotFound ''snapshot'' i) | Some v \<Rightarrow> decodeSealed e (se_snapshots e) v)"

definition bolt_SaveSnapshot :: "senv \<Rightarrow> string option \<Rightarrow> VersionedSnapshot \<Rightarrow> boltStore \<Rightarrow> store_err + boltStore" where
  "bolt_SaveSnapshot e nonce vs s =
     (case encryptValue e nonce (marshal (se_snapshots e) vs) of
        None \<Rightarrow> Inl ErrEncrypt
      | Some encrypted \<Rightarrow>
          (case bput e ''snapshots'' (VersionedSnapshot_ID vs) encrypted s of
             Inl err \<Rightarrow> Inl err
           | Inr s \<Rightarrow> Inr (bolt_publish EventCreated ResourceSnapshot (VersionedSnapshot_ID vs) s)))"

definition bolt_DeleteSnapshot :: "string \<Rightarrow> boltStore \<Rightarrow> store_err + boltStore" where
  "bolt_DeleteSnapshot i s =
     (if bs_db s ''snapshots'' i = None then Inl (ErrNotFound ''snapshot'' i)
      else let s = bdelete ''snapshots'' i s;
               s = (if bs_db s ''meta'' metaActiveSnapshot = Some i then bdelete ''meta'' metaActiveSnapshot s else s)
           in Inr (bolt_publish EventDeleted ResourceSnapshot i s))"

definition bolt_ActivateSnapshot :: "senv \<Rightarrow> string \<Rightarrow> boltStore \<Rightarrow> store_err + boltStore" where
  "bolt_ActivateSnapshot e i s =
     (if bs_db s ''snapshots'' i = None then Inl (ErrNotFound ''snapshot'' i)
      else case bput e ''meta'' metaActiveSnapshot i s of
        Inl err \<Rightarrow> Inl err
      | Inr s \<Rightarrow> Inr (bolt_publish EventUpdated ResourceSnapshot i s))"

definition bolt_GetActiveSnapshot :: "senv \<Rightarrow> boltStore \<Rightarrow> store_err + VersionedSnapshot" where
  "bolt_GetActiveSnapshot e s =
     (case bs_db s ''meta'' metaActiveSnapshot of
        None \<Rightarrow> Inl ErrNoActiveSnapshot
      | Some activeID \<Rightarrow>
          (case bs_db s ''snapshots'' activeID of
             None \<Rightarrow> Inl ErrNoActiveSnapshot | Some v \<Rightarrow> decodeSealed e (se_snapshots e) v))"

definition checkEncryptionMode :: "senv \<Rightarrow> boltStore \<Rightarrow> store_err + boltStore" where
  "checkEncryptionMode e s =
     (let dataEncrypted = (bs_db s ''meta'' ''encrypted'' = Some ''true'') in
      if se_cipher e = None \<and> dataEncrypted then Inl (ErrMode True)
      else if se_cipher e \<noteq> None \<and> \<not> dataEncrypted then
        if bs_db s ''secrets'' \<noteq> Map.empty \<or> bs_db s ''snapshots'' \<noteq> Map.empty then Inl (ErrMode False)
        else bput e ''meta'' ''encrypted'' ''true'' s
      else Inr s)"

definition bolt_New :: "senv \<Rightarrow> (string \<Rightarrow> string \<rightharpoonup> string) \<Rightarrow> store_err + boltStore" where
  "bolt_New e db = checkEncryptionMode e \<lparr>bs_db = db, bs_subs = []\<rparr>"

subsection \<open>Replicated commands\<close>

record Command =
  cmd_Type :: string
  cmd_ID :: string
  cmd_Payload :: string

definition withPayload :: "'a codec \<Rightarrow> string \<Rightarrow> ('a \<Rightarrow> store_err + 's) \<Rightarrow> store_err + 's" where
  "withPayload c payload f = (case unmarshal c payload of None \<Rightarrow> Inl ErrDecode | Some v \<Rightarrow> f v)"

definition ApplyCommand :: "senv \<Rightarrow> string option \<Rightarrow> Command \<Rightarrow> boltStore \<Rightarrow> store_err + boltStore" where
  "ApplyCommand e nonce cmd s =
     (let t = cmd_Type cmd; i = cmd_ID cmd; payload = cmd_Payload cmd in
      if t = ''SaveRoute'' then
        withPayload (se_routes e) payload (\<lambda>v. bolt_Save e (se_routes e) ''routes'' ResourceRoute Route_ID v s)
      else if t = ''DeleteRoute'' then bolt_Delete ''routes'' ''route'' ResourceRoute i s
      else if t = ''SaveGroup'' then
        withPayload (se_groups e) payload (\<lambda>v. bolt_Save e (se_groups e) ''groups'' ResourceGroup RouteGroup_ID v s)
      else if t = ''DeleteGroup'' then bolt_Delete ''groups'' ''group'' ResourceGroup i s
      else if t = ''SaveMiddleware'' then
        withPayload (se_middlewares e) payload (\<lambda>v. bolt_Save e (se_middlewares e) ''middlewares'' ResourceMiddleware Middleware_ID v s)
      else if t = ''DeleteMiddleware'' then bolt_Delete ''middlewares'' ''filter'' ResourceMiddleware i s
      else if t = ''SaveListener'' then
        withPayload (se_listeners e) payload (\<lambda>v. bolt_Save e (se_listeners e) ''listeners'' ResourceListener Listener_ID v s)
      else if t = ''DeleteListener'' then bolt_Delete ''listeners'' ''listener'' ResourceListener i s
      else if t = ''SaveDestination'' then
        withPayload (se_destinations e) payload
          (\<lambda>v. bolt_Save e (se_destinations e) ''destinations'' ResourceDestination Destination_ID v s)
      else if t = ''DeleteDestination'' then bolt_Delete ''destinations'' ''destination'' ResourceDestination i s
      else if t = ''SaveSecret'' then withPayload (se_secrets e) payload (\<lambda>v. bolt_SaveSecret e nonce v s)
      else if t = ''DeleteSecret'' then bolt_DeleteSecret i s
      else if t = ''SaveSnapshot'' then withPayload (se_snapshots e) payload (\<lambda>v. bolt_SaveSnapshot e nonce v s)
      else if t = ''DeleteSnapshot'' then bolt_DeleteSnapshot i s
      else if t = ''ActivateSnapshot'' then bolt_ActivateSnapshot e i s
      else Inl (ErrCommand t))"

text \<open>
  The JSON text of a dump stands for the map that it encodes. A raw message that is not JSON fails the
  encoding. \<open>order\<close> lists the keys of each bucket; \<open>clear\<close> is what deleting the entries while iterating over them leaves.
\<close>

definition bucketNames :: "string list" where
  "bucketNames = [''routes'', ''groups'', ''middlewares'', ''listeners'', ''destinations'', ''secrets'', ''snapshots'', ''meta'']"

definition bolt_Dump :: "senv \<Rightarrow> (string \<Rightarrow> string list) \<Rightarrow> boltStore \<Rightarrow> (string \<Rightarrow> string \<rightharpoonup> string) option" where
  "bolt_Dump e order s =
     (if list_all (\<lambda>b. list_all (\<lambda>k. case bs_db s b k of None \<Rightarrow> True | Some v \<Rightarrow> se_jsonValid e v) (order b)) bucketNames
      then Some (bs_db s) else None)"

definition bolt_Restore ::
  "senv \<Rightarrow> (string \<Rightarrow> string list) \<Rightarrow> ((string \<rightharpoonup> string) \<Rightarrow> (string \<rightharpoonup> string)) \<Rightarrow> (string \<Rightarrow> string \<rightharpoonup> string) \<Rightarrow> boltStore \<Rightarrow>
   store_err + boltStore" where
  "bolt_Restore e order clear dump s =
     (if list_all (\<lambda>b. list_all (\<lambda>k. case dump b k of None \<Rightarrow> True | Some v \<Rightarrow> se_putOk e k v) (order b)) bucketNames
      then Inr (s\<lparr>bs_db := (\<lambda>b. if b \<in> set bucketNames then clear (bs_db s b) ++ dump b else bs_db s b)\<rparr>)
      else Inl ErrPut)"

text \<open>The writes of the replicated store and the commands they become.\<close>

datatype writeOp =
  SaveRoute Route | DeleteRoute string | SaveGroup RouteGroup | DeleteGroup string |
  SaveMiddleware Middleware | DeleteMiddleware string | SaveListener Listener | DeleteListener string |
  SaveDestination Destination | DeleteDestination string | SaveSecret Secret | DeleteSecret string |
  SaveSnapshot VersionedSnapshot | DeleteSnapshot string | ActivateSnapshot string

definition saveCmd :: "string \<Rightarrow> 'a codec \<Rightarrow> ('a \<Rightarrow> string) \<Rightarrow> 'a \<Rightarrow> Command" where
  "saveCmd t c idOf v = \<lparr>cmd_Type = t, cmd_ID = idOf v, cmd_Payload = marshal c v\<rparr>"

definition idCmd :: "string \<Rightarrow> string \<Rightarrow> Command" where
  "idCmd t i = \<lparr>cmd_Type = t, cmd_ID = i, cmd_Payload = ''''\<rparr>"

fun command :: "senv \<Rightarrow> writeOp \<Rightarrow> Command" where
  "command e (SaveRoute v) = saveCmd ''SaveRoute'' (se_routes e) Route_ID v"
| "command e (DeleteRoute i) = idCmd ''DeleteRoute'' i"
| "command e (SaveGroup v) = saveCmd ''SaveGroup'' (se_groups e) RouteGroup_ID v"
| "command e (DeleteGroup i) = idCmd ''DeleteGroup'' i"
| "command e (SaveMiddleware v) = saveCmd ''SaveMiddleware'' (se_middlewares e) Middleware_ID v"
| "command e (DeleteMiddleware i) = idCmd ''DeleteMiddleware'' i"
| "command e (SaveListener v) = saveCmd ''SaveListener'' (se_listeners e) Listener_ID v"
| "command e (DeleteListener i) = idCmd ''DeleteListener'' i"
| "command e (SaveDestination v) = saveCmd ''SaveDestination'' (se_destinations e) Destination_ID v"
| "command e (DeleteDestination i) = idCmd ''DeleteDestination'' i"
| "command e (SaveSecret v) = saveCmd ''SaveSecret'' (se_secrets e) Secret_ID v"
| "command e (DeleteSecret i) = idCmd ''DeleteSecret'' i"
| "command e (SaveSnapshot v) = saveCmd ''SaveSnapshot'' (se_snapshots e) VersionedSnapshot_ID v"
| "command e (DeleteSnapshot i) = idCmd ''DeleteSnapshot'' i"
| "command e (ActivateSnapshot i) = idCmd ''ActivateSnapshot'' i"

text \<open>
  A write is committed by the leader or forwarded to it. \<open>commit\<close> and \<open>post\<close> stand for the consensus library and the
  leader's endpoint: \<open>commit\<close> gives whether the command was applied, \<open>post\<close> the status of the response.
\<close>

definition rs_apply :: "bool \<Rightarrow> string \<Rightarrow> (Command \<Rightarrow> bool) \<Rightarrow> (string \<Rightarrow> Command \<Rightarrow> int option) \<Rightarrow> Command \<Rightarrow> bool" where
  "rs_apply isLeader leaderHTTP commit post cmd =
     (if isLeader then commit cmd
      else if leaderHTTP = '''' then False
      else case post (''http://'' @ leaderHTTP @ ''/api/v1/sync/raft'') cmd of None \<Rightarrow> False | Some status \<Rightarrow> status = 200)"

definition fsm_Apply :: "senv \<Rightarrow> string option \<Rightarrow> Command \<Rightarrow> boltStore \<Rightarrow> boltStore" where
  "fsm_Apply e nonce cmd s = (case ApplyCommand e nonce cmd s of Inl err \<Rightarrow> s | Inr s' \<Rightarrow> s')"

definition replay :: "senv \<Rightarrow> (string option \<times> Command) list \<Rightarrow> boltStore \<Rightarrow> boltStore" where
  "replay e log s = foldl (\<lambda>s (nonce, cmd). fsm_Apply e nonce cmd s) s log"

subsection \<open>What a store holds\<close>

fun mem_write :: "writeOp \<Rightarrow> memStore \<Rightarrow> store_err + memStore" where
  "mem_write (SaveRoute v) s = mem_SaveRoute v s"
| "mem_write (DeleteRoute i) s = mem_DeleteRoute i s"
| "mem_write (SaveGroup v) s = mem_SaveGroup v s"
| "mem_write (DeleteGroup i) s = mem_DeleteGroup i s"
| "mem_write (SaveMiddleware v) s = mem_SaveMiddleware v s"
| "mem_write (DeleteMiddleware i) s = mem_DeleteMiddleware i s"
| "mem_write (SaveListener v) s = mem_SaveListener v s"
| "mem_write (DeleteListener i) s = mem_DeleteListener i s"
| "mem_write (SaveDestination v) s = mem_SaveDestination v s"
| "mem_write (DeleteDestination i) s = mem_DeleteDestination i s"
| "mem_write (SaveSecret v) s = mem_SaveSecret v s"
| "mem_write (DeleteSecret i) s = mem_DeleteSecret i s"
| "mem_write (SaveSnapshot v) s = mem_SaveSnapshot v s"
| "mem_write (DeleteSnapshot i) s = mem_DeleteSnapshot i s"
| "mem_write (ActivateSnapshot i) s = mem_ActivateSnapshot i s"

definition mem_run :: "writeOp list \<Rightarrow> memStore \<Rightarrow> memStore" where
  "mem_run ops s = foldl (\<lambda>s op. case mem_write op s of Inl err \<Rightarrow> s | Inr s' \<Rightarrow> s') s ops"

definition decodePlain :: "'a codec \<Rightarrow> string \<Rightarrow> store_err + 'a" where
  "decodePlain c v = (case unmarshal c v of None \<Rightarrow> Inl ErrDecode | Some x \<Rightarrow> Inr x)"

definition holds :: "(string \<Rightarrow> store_err + 'a) \<Rightarrow> (string \<rightharpoonup> string) \<Rightarrow> (string \<rightharpoonup> 'a) \<Rightarrow> bool" where
  "holds dec b m \<longleftrightarrow> (\<forall>i. map_option dec (b i) = map_option Inr (m i))"

definition activeHolds :: "string option \<Rightarrow> string \<Rightarrow> bool" where
  "activeHolds v active \<longleftrightarrow> (if active = '''' then v = None else v = Some active)"

text \<open>The database \<open>s\<close> holds what the in-memory store \<open>m\<close> has.\<close>

definition stored :: "senv \<Rightarrow> boltStore \<Rightarrow> memStore \<Rightarrow> bool" where
  "stored e s m \<longleftrightarrow>
     holds (decodePlain (se_routes e)) (bs_db s ''routes'') (ms_routes m) \<and>
     holds (decodePlain (se_groups e)) (bs_db s ''groups'') (ms_groups m) \<and>
     holds (decodePlain (se_middlewares e)) (bs_db s ''middlewares'') (ms_filters m) \<and>
     holds (decodePlain (se_listeners e)) (bs_db s ''listeners'') (ms_listeners m) \<and>
     holds (decodePlain (se_destinations e)) (bs_db s ''destinations'') (ms_destinations m) \<and>
     holds (decodeSealed e (se_secrets e)) (bs_db s ''secrets'') (ms_secrets m) \<and>
     holds (decodeSealed e (se_snapshots e)) (bs_db s ''snapshots'') (ms_snapshots m) \<and>
     ms_snapshots m '''' = None \<and>
     activeHolds (bs_db s ''meta'' metaActiveSnapshot) (ms_activeSnap m) \<and>
     bs_subs s = ms_subs m"

text \<open>A write whose entity survives its encoding and whose identifier is not empty.\<close>

definition survives :: "'a codec \<Rightarrow> ('a \<Rightarrow> string) \<Rightarrow> 'a \<Rightarrow> bool" where
  "survives c idOf v \<longleftrightarrow> unmarshal c (marshal c v) = Some v \<and> idOf v \<noteq> ''''"

fun writeOk :: "senv \<Rightarrow> writeOp \<Rightarrow> bool" where
  "writeOk e (SaveRoute v) = survives (se_routes e) Route_ID v"
| "writeOk e (SaveGroup v) = survives (se_groups e) RouteGroup_ID v"
| "writeOk e (SaveMiddleware v) = survives (se_middlewares e) Middleware_ID v"
| "writeOk e (SaveListener v) = survives (se_listeners e) Listener_ID v"
| "writeOk e (SaveDestination v) = survives (se_destinations e) Destination_ID v"
| "writeOk e (SaveSecret v) = survives (se_secrets e) Secret_ID v"
| "writeOk e (SaveSnapshot v) = survives (se_snapshots e) VersionedSnapshot_ID v"
| "writeOk e op = True"

text \<open>The laws of the parameters: what is sealed opens, nonces have their length, and keys that are not empty are accepted.\<close>

definition envOk :: "senv \<Rightarrow> bool" where
  "envOk e \<longleftrightarrow>
     (\<forall>a n p. se_cipher e = Some a \<longrightarrow> length n = ae_nonceSize a \<longrightarrow> ae_Open a n (ae_Seal a n p) = Some p) \<and>
     (\<forall>k v. k \<noteq> '''' \<longrightarrow> se_putOk e k v)"

definition nonceOk :: "senv \<Rightarrow> string option \<Rightarrow> bool" where
  "nonceOk e nonce \<longleftrightarrow> (\<exists>n. nonce = Some n \<and> (\<forall>a. se_cipher e = Some a \<longrightarrow> length n = ae_nonceSize a))"

subsection \<open>Lemmas\<close>

lemma holds_empty [simp]: "holds dec Map.empty Map.empty"
  by (simp add: holds_def)

lemma holds_upd: "holds dec b m \<Longrightarrow> dec v = Inr x \<Longrightarrow> holds dec (b(k \<mapsto> v)) (m(k \<mapsto> x))"
  by (simp add: holds_def)

lemma holds_del: "holds dec b m \<Longrightarrow> holds dec (b(k := None)) (m(k := None))"
  by (simp add: holds_def)

lemma holds_None: "holds dec b m \<Longrightarrow> b i = None \<longleftrightarrow> m i = None"
  unfolding holds_def by (metis option.map_disc_iff)

lemma holds_get:
  "holds dec b m \<Longrightarrow> (case b i of None \<Rightarrow> Inl err | Some v \<Rightarrow> dec v) = (case m i of None \<Rightarrow> Inl err | Some x \<Rightarrow> Inr x)"
  unfolding holds_def by (cases "b i"; cases "m i") (auto dest: spec [of _ i])

lemma decodePlain_marshal: "survives c idOf v \<Longrightarrow> decodePlain c (marshal c v) = Inr v"
  by (simp add: decodePlain_def survives_def)

lemma sealed_opens:
  assumes "envOk e" and "nonceOk e nonce" and "survives c idOf v"
  obtains enc where "encryptValue e nonce (marshal c v) = Some enc" "decodeSealed e c enc = Inr v"
proof (cases "se_cipher e")
  case None
  then show ?thesis using that assms(3) by (simp add: encryptValue_def decodeSealed_def decryptValue_def survives_def)
next
  case (Some a)
  obtain n where n: "nonce = Some n" "length n = ae_nonceSize a" using assms(2) Some by (auto simp: nonceOk_def)
  then have "ae_Open a n (ae_Seal a n (marshal c v)) = Some (marshal c v)" using assms(1) Some by (auto simp: envOk_def)
  then show ?thesis using that [of "n @ ae_Seal a n (marshal c v)"] n Some assms(3)
    by (simp add: encryptValue_def decodeSealed_def decryptValue_def survives_def cipher_Seal_def cipher_Open_def)
qed

lemma bput_ok:
  "envOk e \<Longrightarrow> k \<noteq> '''' \<Longrightarrow> bput e bucket k v s = Inr (s\<lparr>bs_db := (bs_db s)(bucket := (bs_db s bucket)(k \<mapsto> v))\<rparr>)"
  by (simp add: bput_def envOk_def)

lemma withPayload_marshal: "survives c idOf v \<Longrightarrow> withPayload c (marshal c v) f = f v"
  by (simp add: withPayload_def survives_def)

lemmas ApplyCommand_simps = ApplyCommand_def saveCmd_def idCmd_def withPayload_marshal Let_def

lemmas mem_write_defs =
  mem_SaveRoute_def mem_DeleteRoute_def mem_SaveGroup_def mem_DeleteGroup_def mem_SaveMiddleware_def mem_DeleteMiddleware_def
  mem_SaveListener_def mem_DeleteListener_def mem_SaveDestination_def mem_DeleteDestination_def mem_SaveSecret_def
  mem_DeleteSecret_def mem_SaveSnapshot_def mem_DeleteSnapshot_def mem_ActivateSnapshot_def mem_publish_def

lemmas stored_simps = stored_def bolt_publish_def bdelete_def holds_upd holds_del

text \<open>One command does to the database what the write does to the in-memory store.\<close>

definition simulated :: "senv \<Rightarrow> store_err + boltStore \<Rightarrow> store_err + memStore \<Rightarrow> bool" where
  "simulated e r1 r2 \<longleftrightarrow>
     (case r2 of Inl err \<Rightarrow> r1 = Inl err | Inr m \<Rightarrow> (case r1 of Inl err \<Rightarrow> False | Inr s \<Rightarrow> stored e s m))"

lemma survives_ID: "survives c idOf v \<Longrightarrow> idOf v \<noteq> ''''"
  by (simp add: survives_def)

lemma sim_routes:
  assumes "stored e s m" "envOk e"
  shows "survives (se_routes e) Route_ID v \<Longrightarrow>
      simulated e (bolt_Save e (se_routes e) ''routes'' ResourceRoute Route_ID v s) (mem_SaveRoute v m)"
    and "simulated e (bolt_Delete ''routes'' ''route'' ResourceRoute i s) (mem_DeleteRoute i m)"
  using assms holds_None [of "decodePlain (se_routes e)" "bs_db s ''routes''" "ms_routes m" i]
  by (simp_all add: simulated_def bolt_Save_def bolt_Delete_def bput_ok survives_ID decodePlain_marshal stored_simps mem_write_defs)

lemma sim_groups:
  assumes "stored e s m" "envOk e"
  shows "survives (se_groups e) RouteGroup_ID v \<Longrightarrow>
      simulated e (bolt_Save e (se_groups e) ''groups'' ResourceGroup RouteGroup_ID v s) (mem_SaveGroup v m)"
    and "simulated e (bolt_Delete ''groups'' ''group'' ResourceGroup i s) (mem_DeleteGroup i m)"
  using assms holds_None [of "decodePlain (se_groups e)" "bs_db s ''groups''" "ms_groups m" i]
  by (simp_all add: simulated_def bolt_Save_def bolt_Delete_def bput_ok survives_ID decodePlain_marshal stored_simps mem_write_defs)

lemma sim_middlewares:
  assumes "stored e s m" "envOk e"
  shows "survives (se_middlewares e) Middleware_ID v \<Longrightarrow>
      simulated e (bolt_Save e (se_middlewares e) ''middlewares'' ResourceMiddleware Middleware_ID v s) (mem_SaveMiddleware v m)"
    and "simulated e (bolt_Delete ''middlewares'' ''filter'' ResourceMiddleware i s) (mem_DeleteMiddleware i m)"
  using assms holds_None [of "decodePlain (se_middlewares e)" "bs_db s ''middlewares''" "ms_filters m" i]
  by (simp_all add: simulated_def bolt_Save_def bolt_Delete_def bput_ok survives_ID decodePlain_marshal stored_simps mem_write_defs)

lemma sim_listeners:
  assumes "stored e s m" "envOk e"
  shows "survives (se_listeners e) Listener_ID v \<Longrightarrow>
      simulated e (bolt_Save e (se_listeners e) ''listeners'' ResourceListener Listener_ID v s) (mem_SaveListener v m)"
    and "simulated e (bolt_Delete ''listeners'' ''listener'' ResourceListener i s) (mem_DeleteListener i m)"
  using assms holds_None [of "decodePlain (se_listeners e)" "bs_db s ''listeners''" "ms_listeners m" i]
  by (simp_all add: simulated_def bolt_Save_def bolt_Delete_def bput_ok survives_ID decodePlain_marshal stored_simps mem_write_defs)

lemma sim_destinations:
  assumes "stored e s m" "envOk e"
  shows "survives (se_destinations e) Destination_ID v \<Longrightarrow>
      simulated e (bolt_Save e (se_destinations e) ''destinations'' ResourceDestination Destination_ID v s) (mem_SaveDestination v m)"
    and "simulated e (bolt_Delete ''destinations'' ''destination'' ResourceDestination i s) (mem_DeleteDestination i m)"
  using assms holds_None [of "decodePlain (se_destinations e)" "bs_db s ''destinations''" "ms_destinations m" i]
  by (simp_all add: simulated_def bolt_Save_def bolt_Delete_def bput_ok survives_ID decodePlain_marshal stored_simps mem_write_defs)

lemma sim_secrets:
  assumes "stored e s m" "envOk e"
  shows "nonceOk e nonce \<Longrightarrow> survives (se_secrets e) Secret_ID v \<Longrightarrow>
      simulated e (bolt_SaveSecret e nonce v s) (mem_SaveSecret v m)"
    and "simulated e (bolt_DeleteSecret i s) (mem_DeleteSecret i m)"
proof -
  note none = holds_None [of "decodeSealed e (se_secrets e)" "bs_db s ''secrets''" "ms_secrets m"]
  show "simulated e (bolt_SaveSecret e nonce v s) (mem_SaveSecret v m)"
    if n: "nonceOk e nonce" and v: "survives (se_secrets e) Secret_ID v"
  proof (rule sealed_opens [OF assms(2) n v])
    fix enc assume "encryptValue e nonce (marshal (se_secrets e) v) = Some enc" "decodeSealed e (se_secrets e) enc = Inr v"
    then show ?thesis using assms none [of "Secret_ID v"] survives_ID [OF v]
      by (simp add: simulated_def bolt_SaveSecret_def bput_ok stored_simps mem_write_defs Let_def)
  qed
  show "simulated e (bolt_DeleteSecret i s) (mem_DeleteSecret i m)"
    using assms none [of i] by (simp add: simulated_def bolt_DeleteSecret_def bolt_Delete_def stored_simps mem_write_defs)
qed

lemma sim_snapshots:
  assumes "stored e s m" "envOk e"
  shows "nonceOk e nonce \<Longrightarrow> survives (se_snapshots e) VersionedSnapshot_ID v \<Longrightarrow>
      simulated e (bolt_SaveSnapshot e nonce v s) (mem_SaveSnapshot v m)"
    and "simulated e (bolt_DeleteSnapshot i s) (mem_DeleteSnapshot i m)"
    and "simulated e (bolt_ActivateSnapshot e i s) (mem_ActivateSnapshot i m)"
proof -
  note none = holds_None [of "decodeSealed e (se_snapshots e)" "bs_db s ''snapshots''" "ms_snapshots m"]
  show "simulated e (bolt_SaveSnapshot e nonce v s) (mem_SaveSnapshot v m)"
    if n: "nonceOk e nonce" and v: "survives (se_snapshots e) VersionedSnapshot_ID v"
  proof (rule sealed_opens [OF assms(2) n v])
    fix enc assume "encryptValue e nonce (marshal (se_snapshots e) v) = Some enc" "decodeSealed e (se_snapshots e) enc = Inr v"
    then show ?thesis using assms survives_ID [OF v]
      by (simp add: simulated_def bolt_SaveSnapshot_def bput_ok stored_simps mem_write_defs)
  qed
  show "simulated e (bolt_DeleteSnapshot i s) (mem_DeleteSnapshot i m)"
    using assms none [of i]
    by (auto simp: simulated_def bolt_DeleteSnapshot_def stored_simps mem_write_defs activeHolds_def Let_def)
  show "simulated e (bolt_ActivateSnapshot e i s) (mem_ActivateSnapshot i m)"
    using assms none [of i]
    by (cases "ms_snapshots m i") (auto simp: simulated_def bolt_ActivateSnapshot_def bput_ok stored_simps mem_write_defs activeHolds_def)
qed

lemma sim_step:
  assumes "stored e s m" "envOk e" "nonceOk e nonce" "writeOk e op"
  shows "simulated e (ApplyCommand e nonce (command e op) s) (mem_write op m)"
  using assms(3,4)
  by (cases op) (simp_all add: ApplyCommand_simps sim_routes sim_groups sim_middlewares sim_listeners sim_destinations
      sim_secrets sim_snapshots assms(1,2))

lemma stored_fsm_Apply:
  assumes "stored e s m" "envOk e" "nonceOk e nonce" "writeOk e op"
  shows "stored e (fsm_Apply e nonce (command e op) s) (case mem_write op m of Inl err \<Rightarrow> m | Inr m' \<Rightarrow> m')"
  using sim_step [OF assms] assms(1) by (auto simp: simulated_def fsm_Apply_def split: sum.splits)

lemma stored_replay:
  assumes "length nonces = length ops" "envOk e" "list_all (nonceOk e) nonces" "list_all (writeOk e) ops" "stored e s m"
  shows "stored e (replay e (zip nonces (map (command e) ops)) s) (mem_run ops m)"
  using assms
proof (induction nonces ops arbitrary: s m rule: list_induct2)
  case (Cons n ns op ops)
  have "stored e (fsm_Apply e n (command e op) s) (case mem_write op m of Inl err \<Rightarrow> m | Inr m' \<Rightarrow> m')"
    by (rule stored_fsm_Apply) (use Cons.prems in simp_all)
  then show ?case using Cons by (simp add: replay_def mem_run_def)
qed (simp add: replay_def mem_run_def)

lemma stored_New:
  assumes "bolt_New e (\<lambda>b. Map.empty) = Inr s"
  shows "stored e s mem_New"
  using assms
  by (auto simp: bolt_New_def checkEncryptionMode_def bput_def stored_def mem_New_def activeHolds_def Let_def split: if_splits)

text \<open>What a client of a store can read, and what its subscribers were sent.\<close>

definition sameReads :: "senv \<Rightarrow> boltStore \<Rightarrow> memStore \<Rightarrow> bool" where
  "sameReads e s m \<longleftrightarrow>
     (\<forall>i. bolt_Get (se_routes e) ''routes'' ''route'' i s = mem_GetRoute i m \<and>
          bolt_Get (se_groups e) ''groups'' ''group'' i s = mem_GetGroup i m \<and>
          bolt_Get (se_middlewares e) ''middlewares'' ''filter'' i s = mem_GetMiddleware i m \<and>
          bolt_Get (se_listeners e) ''listeners'' ''listener'' i s = mem_GetListener i m \<and>
          bolt_Get (se_destinations e) ''destinations'' ''destination'' i s = mem_GetDestination i m \<and>
          bolt_GetSecret e i s = mem_GetSecret i m \<and> bolt_GetSnapshot e i s = mem_GetSnapshot i m) \<and>
     (\<forall>order. bolt_List (se_routes e) order (bs_db s ''routes'') = Inr (mem_ListRoutes order m) \<and>
          bolt_List (se_groups e) order (bs_db s ''groups'') = Inr (mem_ListGroups order m) \<and>
          bolt_List (se_middlewares e) order (bs_db s ''middlewares'') = Inr (mem_ListMiddlewares order m) \<and>
          bolt_List (se_listeners e) order (bs_db s ''listeners'') = Inr (mem_ListListeners order m) \<and>
          bolt_List (se_destinations e) order (bs_db s ''destinations'') = Inr (mem_ListDestinations order m) \<and>
          bolt_ListSecrets e order s = Inr (mem_ListSecrets order m) \<and>
          bolt_ListSnapshots e order s = Inr (mem_ListSnapshots order m)) \<and>
     bolt_GetActiveSnapshot e s = mem_GetActiveSnapshot m \<and> bs_subs s = ms_subs m"

lemma bolt_Get_lookup: "holds (decodePlain c) (bs_db s bucket) m \<Longrightarrow> bolt_Get c bucket what i s = lookup what i m"
  using holds_get [of "decodePlain c" "bs_db s bucket" m "ErrNotFound what i" i]
  by (cases "bs_db s bucket i") (simp_all add: bolt_Get_def lookup_def decodePlain_def)

lemma holds_cases:
  assumes "holds dec b m"
  obtains "b i = None" "m i = None" | v x where "b i = Some v" "m i = Some x" "dec v = Inr x"
proof (cases "b i")
  case None
  then show ?thesis using that(1) holds_None [OF assms, of i] by simp
next
  case (Some v)
  then obtain x where x: "m i = Some x" using holds_None [OF assms, of i] by auto
  moreover from this have "dec v = Inr x" using assms Some unfolding holds_def by (metis option.inject option.simps(9))
  ultimately show ?thesis using that(2) Some by blast
qed

lemma bolt_List_holds: "holds (decodePlain c) b m \<Longrightarrow> bolt_List c order b = Inr (List.map_filter m order)"
proof (induction order)
  case (Cons k ks)
  show ?case by (rule holds_cases [OF Cons.prems, of k])
      (use Cons in \<open>auto simp: List.map_filter_simps decodePlain_def split: option.splits\<close>)
qed (simp add: List.map_filter_simps)

lemma listSealed_holds: "holds (decodeSealed e c) b m \<Longrightarrow> listSealed e c order b = Inr (List.map_filter m order)"
proof (induction order)
  case (Cons k ks)
  show ?case by (rule holds_cases [OF Cons.prems, of k]) (use Cons in \<open>simp_all add: List.map_filter_simps\<close>)
qed (simp add: List.map_filter_simps)

lemma stored_lists:
  assumes "stored e s m"
  shows "bolt_ListSecrets e order s = Inr (mem_ListSecrets order m)" "bolt_ListSnapshots e order s = Inr (mem_ListSnapshots order m)"
proof -
  have "(case bs_db s ''meta'' metaActiveSnapshot of None \<Rightarrow> '''' | Some v \<Rightarrow> v) = ms_activeSnap m"
    using assms by (auto simp: stored_def activeHolds_def split: if_splits)
  moreover have "listSealed e (se_snapshots e) order (bs_db s ''snapshots'') = Inr (List.map_filter (ms_snapshots m) order)"
    by (rule listSealed_holds) (use assms in \<open>simp add: stored_def\<close>)
  ultimately show "bolt_ListSnapshots e order s = Inr (mem_ListSnapshots order m)"
    by (simp add: bolt_ListSnapshots_def mem_ListSnapshots_def)
  have "listSealed e (se_secrets e) order (bs_db s ''secrets'') = Inr (List.map_filter (ms_secrets m) order)"
    by (rule listSealed_holds) (use assms in \<open>simp add: stored_def\<close>)
  then show "bolt_ListSecrets e order s = Inr (mem_ListSecrets order m)"
    by (simp add: bolt_ListSecrets_def mem_ListSecrets_def)
qed

lemma stored_reads: "stored e s m \<Longrightarrow> sameReads e s m"
proof -
  assume st: "stored e s m"
  note lists = stored_lists [OF st]
  have "bolt_GetSecret e i s = mem_GetSecret i m" for i
    using holds_get [of _ "bs_db s ''secrets''" "ms_secrets m" _ i] st by (simp add: stored_def bolt_GetSecret_def mem_GetSecret_def lookup_def)
  moreover have "bolt_GetSnapshot e i s = mem_GetSnapshot i m" for i
    using holds_get [of _ "bs_db s ''snapshots''" "ms_snapshots m" _ i] st
    by (simp add: stored_def bolt_GetSnapshot_def mem_GetSnapshot_def lookup_def)
  moreover have "bolt_GetActiveSnapshot e s = mem_GetActiveSnapshot m"
    using holds_get [of _ "bs_db s ''snapshots''" "ms_snapshots m" ErrNoActiveSnapshot "ms_activeSnap m"] st
    by (auto simp: stored_def bolt_GetActiveSnapshot_def mem_GetActiveSnapshot_def activeHolds_def split: if_splits)
  ultimately show ?thesis
    using st lists by (simp add: sameReads_def stored_def bolt_Get_lookup bolt_List_holds mem_GetRoute_def mem_GetGroup_def
        mem_GetMiddleware_def mem_GetListener_def mem_GetDestination_def mem_ListRoutes_def mem_ListGroups_def
        mem_ListMiddlewares_def mem_ListListeners_def mem_ListDestinations_def)
qed

subsection \<open>Properties\<close>


text \<open>The codecs and the cipher that the witnesses use.\<close>

definition noCodec :: "'a codec" where
  "noCodec = \<lparr>marshal = (\<lambda>v. ''''), unmarshal = (\<lambda>s. None)\<rparr>"

definition sampleSecret :: Secret where
  "sampleSecret = \<lparr>Secret_ID = ''k'', Secret_Name = ''n'', Secret_Value = ''v''\<rparr>"

definition sampleEnv :: "aead option \<Rightarrow> senv" where
  "sampleEnv c =
     \<lparr>se_routes = noCodec, se_groups = noCodec, se_middlewares = noCodec, se_listeners = noCodec, se_destinations = noCodec,
      se_secrets = \<lparr>marshal = (\<lambda>v. ''kv''), unmarshal = (\<lambda>s. if s = ''kv'' then Some sampleSecret else None)\<rparr>,
      se_snapshots = noCodec, se_cipher = c, se_putOk = (\<lambda>k v. k \<noteq> ''''), se_jsonValid = (\<lambda>v. False)\<rparr>"

definition sampleAead :: aead where
  "sampleAead = \<lparr>ae_nonceSize = 2, ae_Seal = (\<lambda>n p. rev p @ n), ae_Open = (\<lambda>n c. Some (rev (take (length c - length n) c)))\<rparr>"

lemma sampleEnv_ok: "envOk (sampleEnv c)" if "c = None \<or> c = Some sampleAead"
  using that by (auto simp: envOk_def sampleEnv_def sampleAead_def)

lemma sampleEnv_New: "\<exists>s. bolt_New (sampleEnv c) (\<lambda>b. Map.empty) = Inr s"
  by (simp add: bolt_New_def checkEncryptionMode_def sampleEnv_def bput_def Let_def)




text \<open>
  A database with an active snapshot cannot be dumped, unless the identifier of the snapshot happens to be JSON: it is stored
  as it is.
\<close>

lemma active_snapshot_blocks_dump:
  assumes "bs_db s ''meta'' metaActiveSnapshot = Some i" and "\<not> se_jsonValid e i" and "metaActiveSnapshot \<in> set (order ''meta'')"
  shows "bolt_Dump e order s = None"
  using assms by (force simp: bolt_Dump_def bucketNames_def list_all_iff)

text \<open>Restoring a dump gives its contents, when deleting during the iteration deletes everything.\<close>

lemma restore_dump:
  assumes "bolt_Dump e order s = Some dump" and "\<And>b. clear b = Map.empty" and "bolt_Restore e order clear dump s' = Inr s''"
    and "b \<in> set bucketNames"
  shows "bs_db s'' b = bs_db s b"
  using assms by (auto simp: bolt_Dump_def bolt_Restore_def split: if_splits)

end
