(* ===== verification/Work_Queue.thy ===== *)
theory Work_Queue
  imports Go_Prelude
begin

text \<open>
  The work queue of the Kubernetes controller (\<^verbatim>\<open>clients/controller/internal/workqueue/workqueue.go\<close>). The
  list of items and the index of batch groups hold pointers to the same items, so the items live in a store of the
  queue and both hold addresses. An abstract queue, a plain list of items, is what the reconcile loop relies on;
  the queue with its pointers is shown to refine it.
\<close>

subsection \<open>Items\<close>

definition AnnotationBatch :: string where
  "AnnotationBatch = ''vrata.io/batch''"

definition AnnotationBatchSize :: string where
  "AnnotationBatchSize = ''vrata.io/batch-size''"

record RouteRef =
  rr_Namespace :: string
  rr_Name :: string
  rr_Super :: bool

record BatchGroup =
  bg_Name :: string
  bg_ExpectedSize :: int
  bg_Members :: "RouteRef list"
  bg_lastSeen :: time
  bg_firstSeen :: time
  bg_ready :: bool

datatype Item = KindSingle RouteRef | KindBatch BatchGroup

definition IsReady :: "time \<Rightarrow> duration \<Rightarrow> BatchGroup \<Rightarrow> bool" where
  "IsReady now idleTimeout bg \<longleftrightarrow>
     (if bg_ready bg then True
      else if bg_ExpectedSize bg > 0 \<and> int (length (bg_Members bg)) \<ge> bg_ExpectedSize bg then True
      else timeSub now (bg_lastSeen bg) \<ge> idleTimeout)"

definition MarkReady :: "BatchGroup \<Rightarrow> BatchGroup" where
  "MarkReady bg = bg\<lparr>bg_ready := True\<rparr>"

definition IsIncomplete :: "BatchGroup \<Rightarrow> bool" where
  "IsIncomplete bg \<longleftrightarrow> bg_ExpectedSize bg > 0 \<and> int (length (bg_Members bg)) < bg_ExpectedSize bg"

text \<open>The loop over the characters returns zero at the first one that is no digit; the sum wraps around.\<close>

fun parseSize_loop :: "int \<Rightarrow> string \<Rightarrow> int" where
  "parseSize_loop n [] = n"
| "parseSize_loop n (c # s) =
     (if of_char c < (48 :: nat) \<or> of_char c > (57 :: nat) then 0
      else parseSize_loop (swrap 64 (n * 10 + (of_char c - 48))) s)"

definition parseSize :: "string \<Rightarrow> int" where
  "parseSize s = parseSize_loop 0 s"

subsection \<open>The queue\<close>

record Queue =
  q_items :: "nat list"
  q_byKey :: "string \<rightharpoonup> nat"
  q_store :: "nat \<rightharpoonup> Item"
  q_fresh :: nat

definition NewQueue :: Queue where
  "NewQueue = \<lparr>q_items = [], q_byKey = Map.empty, q_store = Map.empty, q_fresh = 0\<rparr>"

definition appendItem :: "Item \<Rightarrow> Queue \<Rightarrow> Queue" where
  "appendItem x q = q\<lparr>q_items := q_items q @ [q_fresh q], q_store := (q_store q)(q_fresh q \<mapsto> x), q_fresh := Suc (q_fresh q)\<rparr>"

definition newGroup :: "time \<Rightarrow> string \<Rightarrow> (string \<rightharpoonup> string) \<Rightarrow> BatchGroup" where
  "newGroup now batchName annotations =
     \<lparr>bg_Name = batchName,
      bg_ExpectedSize = (case annotations AnnotationBatchSize of None \<Rightarrow> 0 | Some sizeStr \<Rightarrow> parseSize sizeStr),
      bg_Members = [], bg_lastSeen = now, bg_firstSeen = now, bg_ready = False\<rparr>"

definition addMember :: "time \<Rightarrow> RouteRef \<Rightarrow> (string \<rightharpoonup> string) \<Rightarrow> BatchGroup \<Rightarrow> BatchGroup" where
  "addMember now ref annotations bg =
     (let bg = (case annotations AnnotationBatchSize of
                  None \<Rightarrow> bg
                | Some sizeStr \<Rightarrow> if bg_ExpectedSize bg = 0 then bg\<lparr>bg_ExpectedSize := parseSize sizeStr\<rparr> else bg) in
      if list_ex (\<lambda>m. rr_Namespace m = rr_Namespace ref \<and> rr_Name m = rr_Name ref) (bg_Members bg) then bg
      else bg\<lparr>bg_Members := bg_Members bg @ [ref], bg_lastSeen := now\<rparr>)"

definition singleKey :: "RouteRef \<Rightarrow> string" where
  "singleKey ref = rr_Namespace ref @ ''/'' @ rr_Name ref"

text \<open>
  \<open>known\<close> is the caller's set \<^verbatim>\<open>knownSingles\<close>. Reading the group of an item that is none dereferences a nil pointer.
\<close>

definition Observe ::
  "time \<Rightarrow> RouteRef \<Rightarrow> (string \<rightharpoonup> string) \<Rightarrow> string set \<Rightarrow> Queue \<Rightarrow> (Queue \<times> string set) go" where
  "Observe now ref annotations known q =
     (case annotations AnnotationBatch of
        None \<Rightarrow>
          (if singleKey ref \<in> known then Inr (q, known)
           else Inr (appendItem (KindSingle ref) q, insert (singleKey ref) known))
      | Some batchName \<Rightarrow>
          (let (a, q) = (case q_byKey q batchName of
                           Some a \<Rightarrow> (a, q)
                         | None \<Rightarrow> (q_fresh q, (appendItem (KindBatch (newGroup now batchName annotations)) q)
                                                  \<lparr>q_byKey := (q_byKey q)(batchName \<mapsto> q_fresh q)\<rparr>)) in
           case q_store q a of
             Some (KindBatch bg) \<Rightarrow>
               Inr (q\<lparr>q_store := (q_store q)(a \<mapsto> KindBatch (addMember now ref annotations bg))\<rparr>, known)
           | _ \<Rightarrow> Inl NilDereference))"

definition Head :: "Queue \<Rightarrow> Item option" where
  "Head q = (case q_items q of [] \<Rightarrow> None | a # as \<Rightarrow> q_store q a)"

definition Pop :: "Queue \<Rightarrow> Item option \<times> Queue" where
  "Pop q =
     (case q_items q of
        [] \<Rightarrow> (None, q)
      | a # as \<Rightarrow>
          (let q' = q\<lparr>q_items := as\<rparr> in
           case q_store q a of
             Some (KindBatch bg) \<Rightarrow> (q_store q a, q'\<lparr>q_byKey := (q_byKey q)(bg_Name bg := None)\<rparr>)
           | x \<Rightarrow> (x, q')))"

definition Len :: "Queue \<Rightarrow> nat" where
  "Len q = length (q_items q)"

definition HasBatch :: "string \<Rightarrow> Queue \<Rightarrow> bool" where
  "HasBatch name q \<longleftrightarrow> q_byKey q name \<noteq> None"

subsection \<open>The abstract queue\<close>

fun isBatch :: "string \<Rightarrow> Item \<Rightarrow> bool" where
  "isBatch n (KindSingle ref) = False"
| "isBatch n (KindBatch bg) = (bg_Name bg = n)"

fun updateBatch :: "(BatchGroup \<Rightarrow> BatchGroup) \<Rightarrow> string \<Rightarrow> Item \<Rightarrow> Item" where
  "updateBatch f n (KindSingle ref) = KindSingle ref"
| "updateBatch f n (KindBatch bg) = (if bg_Name bg = n then KindBatch (f bg) else KindBatch bg)"

definition observeItems ::
  "time \<Rightarrow> RouteRef \<Rightarrow> (string \<rightharpoonup> string) \<Rightarrow> string set \<Rightarrow> Item list \<Rightarrow> Item list" where
  "observeItems now ref annotations known xs =
     (case annotations AnnotationBatch of
        None \<Rightarrow> if singleKey ref \<in> known then xs else xs @ [KindSingle ref]
      | Some n \<Rightarrow>
          if list_ex (isBatch n) xs then map (updateBatch (addMember now ref annotations) n) xs
          else xs @ [KindBatch (addMember now ref annotations (newGroup now n annotations))])"

definition itemsOf :: "Queue \<Rightarrow> Item list" where
  "itemsOf q = map (\<lambda>a. the (q_store q a)) (q_items q)"

text \<open>Every address of the list is live, and the index names exactly the groups of the list.\<close>

definition queue_wf :: "Queue \<Rightarrow> bool" where
  "queue_wf q \<longleftrightarrow> distinct (q_items q) \<and> (\<forall>a \<in> set (q_items q). a < q_fresh q \<and> q_store q a \<noteq> None) \<and>
     (\<forall>n a. q_byKey q n = Some a \<longleftrightarrow> a \<in> set (q_items q) \<and> isBatch n (the (q_store q a)))"

lemma queue_wf_NewQueue: "queue_wf NewQueue" and itemsOf_NewQueue: "itemsOf NewQueue = []"
  by (simp_all add: queue_wf_def itemsOf_def NewQueue_def)

lemma addMember_Name [simp]: "bg_Name (addMember now ref ann bg) = bg_Name bg"
  by (auto simp: addMember_def Let_def split: option.splits)

lemma newGroup_Name [simp]: "bg_Name (newGroup now n ann) = n"
  by (simp add: newGroup_def)

lemma isBatch_unique: "isBatch n x \<Longrightarrow> isBatch m x \<Longrightarrow> n = m"
  by (cases x) auto

lemma isBatchE: "isBatch n x \<Longrightarrow> (\<And>bg. x = KindBatch bg \<Longrightarrow> bg_Name bg = n \<Longrightarrow> P) \<Longrightarrow> P"
  by (cases x) auto

lemma queue_wfD:
  assumes "queue_wf q"
  shows "distinct (q_items q)" "a \<in> set (q_items q) \<Longrightarrow> a < q_fresh q" "a \<in> set (q_items q) \<Longrightarrow> q_store q a \<noteq> None"
    "q_byKey q n = Some a \<longleftrightarrow> a \<in> set (q_items q) \<and> isBatch n (the (q_store q a))"
    "q_fresh q \<notin> set (q_items q)"
  using assms by (auto simp: queue_wf_def)

subsection \<open>The queue refines the abstract one\<close>

lemma items_appendItem: "queue_wf q \<Longrightarrow> itemsOf (appendItem x q) = itemsOf q @ [x]"
  by (auto simp: itemsOf_def appendItem_def dest: queue_wfD(5))

lemma key_iff: "queue_wf q \<Longrightarrow> q_byKey q n = None \<longleftrightarrow> \<not> list_ex (isBatch n) (itemsOf q)"
  by (auto simp: itemsOf_def list_ex_iff queue_wfD(4) not_Some_eq [symmetric] simp del: not_Some_eq)

lemma queue_wf_single: "queue_wf q \<Longrightarrow> queue_wf (appendItem (KindSingle ref) q)"
  by (auto simp: queue_wf_def appendItem_def dest: less_SucI)

lemma queue_wf_batch:
  assumes "queue_wf q" "q_byKey q n = None" "bg_Name bg = n"
  shows "queue_wf ((appendItem (KindBatch bg) q)\<lparr>q_byKey := (q_byKey q)(n \<mapsto> q_fresh q)\<rparr>)"
proof -
  have "\<not> isBatch n (the (q_store q a))" if "a \<in> set (q_items q)" for a
    using assms(1,2) that by (metis option.distinct(1) queue_wfD(4))
  then show ?thesis using assms by (auto simp: queue_wf_def appendItem_def dest: less_SucI)
qed

lemma queue_wf_update:
  assumes "queue_wf q" "q_store q a = Some (KindBatch bg)" "bg_Name bg' = bg_Name bg"
  shows "queue_wf (q\<lparr>q_store := (q_store q)(a \<mapsto> KindBatch bg')\<rparr>)"
  using assms by (auto simp: queue_wf_def)

lemma items_update:
  assumes "queue_wf q" "a \<in> set (q_items q)" "q_store q a = Some (KindBatch bg)" "bg_Name bg = n"
  shows "itemsOf (q\<lparr>q_store := (q_store q)(a \<mapsto> KindBatch (f bg))\<rparr>) = map (updateBatch f n) (itemsOf q)"
proof -
  have "updateBatch f n (the (q_store q b)) = the (((q_store q)(a \<mapsto> KindBatch (f bg))) b)" if "b \<in> set (q_items q)" for b
  proof (cases "b = a")
    case False
    then have "\<not> isBatch n (the (q_store q b))"
      using assms that by (metis isBatch.simps(2) option.inject option.sel queue_wfD(4))
    then show ?thesis using False by (cases "the (q_store q b)") auto
  qed (use assms in simp)
  then show ?thesis by (simp add: itemsOf_def)
qed

lemma updateBatch_other: "\<not> list_ex (isBatch n) xs \<Longrightarrow> map (updateBatch f n) xs = xs"
proof (induction xs)
  case (Cons x xs) then show ?case by (cases x) auto
qed simp

lemma Observe_found:
  assumes "queue_wf q" "annotations AnnotationBatch = Some n" "q_byKey q n = Some a"
  obtains bg where "q_store q a = Some (KindBatch bg)" "bg_Name bg = n" "a \<in> set (q_items q)"
    "Observe now ref annotations known q =
       Inr (q\<lparr>q_store := (q_store q)(a \<mapsto> KindBatch (addMember now ref annotations bg))\<rparr>, known)"
proof -
  have a: "a \<in> set (q_items q)" and b: "isBatch n (the (q_store q a))" using assms by (auto simp: queue_wfD(4))
  obtain x where x: "q_store q a = Some x" using a assms(1) queue_wfD(3) by blast
  obtain bg where "x = KindBatch bg" "bg_Name bg = n" using b x by (auto elim: isBatchE)
  with x show thesis using that [of bg] a assms by (simp add: Observe_def)
qed

text \<open>What observing a route does, in the words of the abstract queue; no pointer is nil on the way.\<close>

lemma Observe_refines:
  assumes wf: "queue_wf q"
  shows "\<exists>q' known'. Observe now ref annotations known q = Inr (q', known') \<and> queue_wf q' \<and>
    itemsOf q' = observeItems now ref annotations known (itemsOf q) \<and>
    known' = (if annotations AnnotationBatch = None then insert (singleKey ref) known else known)"
proof (cases "annotations AnnotationBatch")
  case None
  then show ?thesis using wf
    by (auto simp: Observe_def observeItems_def items_appendItem queue_wf_single)
next
  case (Some n)
  show ?thesis
  proof (cases "q_byKey q n")
    case (Some a)
    obtain bg where "q_store q a = Some (KindBatch bg)" "bg_Name bg = n" "a \<in> set (q_items q)"
      "Observe now ref annotations known q =
         Inr (q\<lparr>q_store := (q_store q)(a \<mapsto> KindBatch (addMember now ref annotations bg))\<rparr>, known)"
      by (rule Observe_found [where annotations = annotations, OF wf \<open>annotations AnnotationBatch = Some n\<close> Some])
    then show ?thesis using wf Some \<open>annotations AnnotationBatch = Some n\<close> key_iff [OF wf, of n]
      by (simp add: queue_wf_update items_update observeItems_def)
  next
    case None
    let ?bg = "newGroup now n annotations"
    let ?q = "(appendItem (KindBatch ?bg) q)\<lparr>q_byKey := (q_byKey q)(n \<mapsto> q_fresh q)\<rparr>"
    have wf': "queue_wf ?q" using wf None by (rule queue_wf_batch) simp
    have at: "q_store ?q (q_fresh q) = Some (KindBatch ?bg)" "q_fresh q \<in> set (q_items ?q)"
      by (simp_all add: appendItem_def)
    have items: "itemsOf ?q = itemsOf q @ [KindBatch ?bg]"
      using items_appendItem [OF wf] by (simp add: itemsOf_def)
    show ?thesis using None \<open>annotations AnnotationBatch = Some n\<close> wf' at key_iff [OF wf, of n]
        items_update [OF wf' at(2,1) newGroup_Name, of "addMember now ref annotations"]
        queue_wf_update [OF wf' at(1), of "addMember now ref annotations ?bg"]
      by (simp add: Observe_def observeItems_def Let_def items updateBatch_other)
  qed
qed

lemma Pop_cons:
  assumes "queue_wf q" "q_items q = a # as"
  obtains x where "q_store q a = Some x" "Head q = Some x" "fst (Pop q) = Some x" "itemsOf q = x # itemsOf (snd (Pop q))"
    "q_items (snd (Pop q)) = as" "q_store (snd (Pop q)) = q_store q" "q_fresh (snd (Pop q)) = q_fresh q"
    "\<And>n. q_byKey (snd (Pop q)) n = (if isBatch n x then None else q_byKey q n)"
proof -
  obtain x where x: "q_store q a = Some x" using queue_wfD(3) [OF assms(1), of a] assms(2) by auto
  show thesis by (rule that [of x]) (cases x; simp add: assms(2) x Pop_def Head_def itemsOf_def)+
qed

lemma Pop_refines:
  assumes "queue_wf q"
  shows "queue_wf (snd (Pop q))" "itemsOf (snd (Pop q)) = tl (itemsOf q)"
    "fst (Pop q) = Head q" "Head q = (if itemsOf q = [] then None else Some (hd (itemsOf q)))"
proof -
  have "queue_wf (snd (Pop q)) \<and> itemsOf (snd (Pop q)) = tl (itemsOf q) \<and> fst (Pop q) = Head q \<and>
    Head q = (if itemsOf q = [] then None else Some (hd (itemsOf q)))"
  proof (cases "q_items q")
    case Nil then show ?thesis using assms by (simp add: Pop_def Head_def itemsOf_def)
  next
    case (Cons a as)
    obtain x where x: "q_store q a = Some x" "Head q = Some x" "fst (Pop q) = Some x" "itemsOf q = x # itemsOf (snd (Pop q))"
      "q_items (snd (Pop q)) = as" "q_store (snd (Pop q)) = q_store q" "q_fresh (snd (Pop q)) = q_fresh q"
      "\<And>n. q_byKey (snd (Pop q)) n = (if isBatch n x then None else q_byKey q n)"
      using Pop_cons [OF assms Cons] by metis
    have other: "\<not> isBatch n x" if "b \<in> set as" "isBatch n (the (q_store q b))" for n b
      using that x(1) Cons queue_wfD(1,4) [OF assms]
      by (metis distinct.simps(2) list.set_intros(1,2) option.inject option.sel)
    have "queue_wf (snd (Pop q))"
      using assms other unfolding queue_wf_def x(5-8) Cons by (auto simp: x(1))
    then show ?thesis using x by simp
  qed
  then show "queue_wf (snd (Pop q))" "itemsOf (snd (Pop q)) = tl (itemsOf q)"
    "fst (Pop q) = Head q" "Head q = (if itemsOf q = [] then None else Some (hd (itemsOf q)))" by blast+
qed

subsection \<open>Order of processing\<close>

subsection \<open>Order of processing\<close>

text \<open>What the reconcile loop relies on: observing only appends to the keys of the queue, popping drops the first.\<close>

datatype 'o queue_op = Seen 'o | Done

locale work_queue =
  fixes observe :: "'o \<Rightarrow> 'q \<Rightarrow> 'q" and pop :: "'q \<Rightarrow> 'q" and keys :: "'q \<Rightarrow> 'k list" and inv :: "'q \<Rightarrow> bool"
  assumes observe_keys: "inv q \<Longrightarrow> \<exists>added. keys (observe x q) = keys q @ added"
    and observe_inv: "inv q \<Longrightarrow> inv (observe x q)"
    and pop_keys: "inv q \<Longrightarrow> keys (pop q) = tl (keys q)"
    and pop_inv: "inv q \<Longrightarrow> inv (pop q)"
begin

fun queue_step :: "'o queue_op \<Rightarrow> 'q \<Rightarrow> 'q" where
  "queue_step (Seen x) q = observe x q"
| "queue_step Done q = pop q"

lemma step_inv: "inv q \<Longrightarrow> inv (queue_step x q)"
  by (cases x) (simp_all add: observe_inv pop_inv)

lemma run_inv: "inv q \<Longrightarrow> inv (fold queue_step ops q)"
  by (induction ops arbitrary: q) (simp_all add: step_inv)

lemma keeps_order:
  "inv q \<Longrightarrow> keys q = xs @ ys \<Longrightarrow> length (filter ((=) Done) ops) = length xs \<Longrightarrow>
   \<exists>zs. keys (fold queue_step ops q) = ys @ zs"
proof (induction ops arbitrary: q xs ys)
  case (Cons opn ops)
  show ?case
  proof (cases opn)
    case (Seen x)
    obtain added where "keys (observe x q) = xs @ ys @ added" using observe_keys [OF Cons.prems(1), of x] Cons.prems(2) by auto
    then obtain zs where "keys (fold queue_step ops (observe x q)) = (ys @ added) @ zs"
      using Cons.IH [OF observe_inv [OF Cons.prems(1), of x], of xs "ys @ added"] Cons.prems(3) Seen by auto
    then show ?thesis using Seen by auto
  next
    case Done
    then obtain k ks where "xs = k # ks" using Cons.prems(3) by (cases xs) auto
    then show ?thesis
      using Cons.IH [OF pop_inv [OF Cons.prems(1)], of ks ys] Cons.prems pop_keys [OF Cons.prems(1)] Done by auto
  qed
qed auto

end

fun itemKey :: "Item \<Rightarrow> RouteRef + string" where
  "itemKey (KindSingle ref) = Inl ref"
| "itemKey (KindBatch bg) = Inr (bg_Name bg)"

text \<open>The loop holds the queue together with the set of known single routes.\<close>

definition observeRoute ::
  "time \<times> RouteRef \<times> (string \<rightharpoonup> string) \<Rightarrow> Queue \<times> string set \<Rightarrow> Queue \<times> string set" where
  "observeRoute x s = (case Observe (fst x) (fst (snd x)) (snd (snd x)) (snd s) (fst s) of Inr s' \<Rightarrow> s' | Inl p \<Rightarrow> s)"

definition popItem :: "Queue \<times> string set \<Rightarrow> Queue \<times> string set" where
  "popItem s = (snd (Pop (fst s)), snd s)"

definition queueKeys :: "Queue \<times> string set \<Rightarrow> (RouteRef + string) list" where
  "queueKeys s = map itemKey (itemsOf (fst s))"

fun queueStep :: "(time \<times> RouteRef \<times> (string \<rightharpoonup> string)) queue_op \<Rightarrow> Queue \<times> string set \<Rightarrow> Queue \<times> string set" where
  "queueStep (Seen x) s = observeRoute x s"
| "queueStep Done s = popItem s"

lemma itemKey_updateBatch: "(\<And>bg. bg_Name (f bg) = bg_Name bg) \<Longrightarrow> itemKey \<circ> updateBatch f n = itemKey"
proof
  fix x assume "\<And>bg. bg_Name (f bg) = bg_Name bg"
  then show "(itemKey \<circ> updateBatch f n) x = itemKey x" by (cases x) auto
qed

lemma observeItems_keys: "\<exists>added. map itemKey (observeItems now ref ann known xs) = map itemKey xs @ added"
  by (auto simp: observeItems_def itemKey_updateBatch split: option.splits)

lemma observeRoute_refines:
  assumes "queue_wf (fst s)"
  shows "queue_wf (fst (observeRoute (now, ref, ann) s))"
    "itemsOf (fst (observeRoute (now, ref, ann) s)) = observeItems now ref ann (snd s) (itemsOf (fst s))"
    "snd (observeRoute (now, ref, ann) s) =
       (if ann AnnotationBatch = None then insert (singleKey ref) (snd s) else snd s)"
  using Observe_refines [OF assms, of now ref ann "snd s"] by (auto simp: observeRoute_def)

interpretation wq: work_queue observeRoute popItem queueKeys "\<lambda>s. queue_wf (fst s)"
proof
  fix s :: "Queue \<times> string set" and x :: "time \<times> RouteRef \<times> (string \<rightharpoonup> string)"
  assume "queue_wf (fst s)"
  then show "\<exists>added. queueKeys (observeRoute x s) = queueKeys s @ added" "queue_wf (fst (observeRoute x s))"
    "queueKeys (popItem s) = tl (queueKeys s)" "queue_wf (fst (popItem s))"
    by (cases x; simp add: queueKeys_def popItem_def Pop_refines observeRoute_refines observeItems_keys map_tl)+
qed

lemma queueStep_eq: "queueStep = wq.queue_step"
proof (intro ext)
  fix x s show "queueStep x s = wq.queue_step x s" by (cases x) simp_all
qed

lemma Head_key: "queue_wf q \<Longrightarrow> map_option itemKey (Head q) = (case queueKeys (q, known) of [] \<Rightarrow> None | k # ks \<Rightarrow> Some k)"
  using Pop_refines(4) [of q] by (cases "itemsOf q") (auto simp: queueKeys_def)

text \<open>C11: the work queue is strictly first in, first out, whatever routes are observed in between. An item behind
  \<open>n\<close> others is at the head exactly when these have been popped, and everything behind it is still in order.\<close>

theorem queue_is_fifo:
  assumes "queue_wf (fst s)" "queueKeys s = xs @ k # ys" "length (filter ((=) Done) ops) = length xs"
  shows "map_option itemKey (Head (fst (fold queueStep ops s))) = Some k \<and>
    (\<exists>zs. queueKeys (fold queueStep ops s) = k # ys @ zs)"
proof -
  have order: "\<exists>zs. queueKeys (fold queueStep ops s) = k # ys @ zs"
    using wq.keeps_order [OF assms] by (simp add: queueStep_eq)
  have "queue_wf (fst (fold queueStep ops s))"
    using wq.run_inv [OF assms(1)] by (simp add: queueStep_eq)
  then show ?thesis
    using order Head_key [of "fst (fold queueStep ops s)" "snd (fold queueStep ops s)"] by auto
qed

theorem queue_is_fifo_witness:
  "let r = \<lparr>rr_Namespace = ''ns'', rr_Name = ''a'', rr_Super = False\<rparr>;
       t = \<lparr>rr_Namespace = ''ns'', rr_Name = ''b'', rr_Super = False\<rparr>;
       s = queueStep (Seen (0, t, [AnnotationBatch \<mapsto> ''x''])) (queueStep (Seen (0, r, Map.empty)) (NewQueue, {})) in
   map_option itemKey (Head (fst (fold queueStep [Seen (5, t, Map.empty), Done] s))) = Some (Inr ''x'')"
proof -
  let ?r = "\<lparr>rr_Namespace = ''ns'', rr_Name = ''a'', rr_Super = False\<rparr>"
  let ?t = "\<lparr>rr_Namespace = ''ns'', rr_Name = ''b'', rr_Super = False\<rparr>"
  let ?s1 = "queueStep (Seen (0, ?r, Map.empty)) (NewQueue, {})"
  let ?s = "queueStep (Seen (0, ?t, [AnnotationBatch \<mapsto> ''x''])) ?s1"
  have wf: "queue_wf (fst ?s1)" "queue_wf (fst ?s)"
    by (simp_all add: observeRoute_refines queue_wf_NewQueue)
  have "queueKeys ?s = [Inl ?r, Inr ''x'']"
    using wf by (simp add: queueKeys_def observeRoute_refines queue_wf_NewQueue itemsOf_NewQueue observeItems_def)
  then show ?thesis
    using queue_is_fifo [OF wf(2), of "[Inl ?r]" "Inr ''x''" "[]" "[Seen (5, ?t, Map.empty), Done]"] by (simp add: Let_def)
qed

text \<open>A single route that is known is never queued again, whatever has become of it since.\<close>

lemma known_single_not_queued:
  "ann AnnotationBatch = None \<Longrightarrow> singleKey ref \<in> known \<Longrightarrow> Observe now ref ann known q = Inr (q, known)"
  by (simp add: Observe_def)

text \<open>The members of a group are compared without their kind: of two routes of one name only the first is applied.\<close>

lemma member_kind_ignored:
  assumes "m \<in> set (bg_Members bg)" "rr_Namespace m = rr_Namespace ref" "rr_Name m = rr_Name ref"
  shows "bg_Members (addMember now ref ann bg) = bg_Members bg"
proof -
  have "list_ex (\<lambda>m. rr_Namespace m = rr_Namespace ref \<and> rr_Name m = rr_Name ref) (bg_Members bg)"
    using assms by (auto simp: list_ex_iff)
  then show ?thesis by (simp add: addMember_def Let_def split: option.split)
qed



end
