(* ===== verification/Mapper.thy ===== *)
theory Mapper
  imports Go_Net
begin

text \<open>
  The translation of Gateway API resources into entities of the control plane: the entities as the controller's
  client sees them (\<^verbatim>\<open>clients/controller/internal/vrata/client.go\<close>), the conversion of an HTTPRoute or a Gateway
  into the mapper's input (\<^verbatim>\<open>cmd/controller/main.go\<close>) and the mapper (\<^verbatim>\<open>internal/mapper/mapper.go\<close>). The Gateway
  API types are records with the fields the controller reads; a pointer is an option.
\<close>

subsection \<open>Entities of the control plane\<close>

text \<open>
  Of the \<^verbatim>\<open>map[string]any\<close> of a forward action the controller touches the list of destinations. The mapper builds it as
  \<^verbatim>\<open>[]map[string]any\<close>; decoded from JSON it is a \<^verbatim>\<open>[]any\<close>, whose elements need not be maps.
\<close>

record vDestRef =
  vd_destinationId :: "string option"
  vd_weight :: uint32

datatype destSlice = MapSlice "vDestRef list" | AnySlice "vDestRef option list"

record vForward =
  vf_destinations :: "destSlice option"
  vf_rewrite :: "(string \<rightharpoonup> json) option"

record vRoute =
  vr_ID :: string
  vr_Name :: string
  vr_Match :: "string \<rightharpoonup> json"
  vr_Forward :: "vForward option"
  vr_Redirect :: "(string \<rightharpoonup> json) option"
  vr_MiddlewareIDs :: "string list"

record vGroup =
  vg_ID :: string
  vg_Name :: string
  vg_RouteIDs :: "string list"
  vg_Hostnames :: "string list"

record vDestination =
  vs_ID :: string
  vs_Name :: string
  vs_Host :: string
  vs_Port :: uint32

record vListener =
  vl_ID :: string
  vl_Name :: string
  vl_Address :: string
  vl_Port :: uint32

record vMiddleware =
  vm_ID :: string
  vm_Name :: string
  vm_Type :: string
  vm_Headers :: "string \<rightharpoonup> json"

subsection \<open>Input of the mapper\<close>

record HeaderMatchInput =
  hmi_Name :: string
  hmi_Value :: string
  hmi_Type :: string

record MatchInput =
  mi_PathType :: string
  mi_PathValue :: string
  mi_Method :: string
  mi_Headers :: "HeaderMatchInput list"

record BackendRefInput =
  br_ServiceName :: string
  br_ServiceNamespace :: string
  br_Port :: uint32
  br_Weight :: uint32

record FilterInput =
  fi_Type :: string
  fi_RedirectScheme :: string
  fi_RedirectHost :: string
  fi_RedirectPort :: uint32
  fi_RedirectPath :: string
  fi_RedirectCode :: uint32
  fi_RedirectStripQuery :: bool
  fi_RewritePathPrefix :: string
  fi_RewriteHostname :: string
  fi_HeadersToAdd :: "(string \<times> string) list"
  fi_HeadersToRemove :: "string list"

record RuleInput =
  ri_Matches :: "MatchInput list"
  ri_BackendRefs :: "BackendRefInput list"
  ri_Filters :: "FilterInput list"

record HTTPRouteInput =
  hi_Name :: string
  hi_Namespace :: string
  hi_Hostnames :: "string list"
  hi_Rules :: "RuleInput list"

record GatewayListenerInput =
  gli_Name :: string
  gli_Port :: uint32
  gli_Protocol :: string
  gli_Hostname :: string

record GatewayInput =
  gi_Name :: string
  gi_Namespace :: string
  gi_Listeners :: "GatewayListenerInput list"

record DestinationKey =
  dk_Name :: string
  dk_Namespace :: string
  dk_Port :: uint32

record MappedEntities =
  me_Group :: vGroup
  me_Routes :: "vRoute list"
  me_Destinations :: "DestinationKey list"
  me_Middlewares :: "vMiddleware list"

subsection \<open>The mapper\<close>

definition DestinationName :: "DestinationKey \<Rightarrow> string" where
  "DestinationName dk = ''k8s:'' @ dk_Namespace dk @ ''/'' @ dk_Name dk @ '':'' @ decimal (unat (dk_Port dk))"

definition FQDN :: "DestinationKey \<Rightarrow> string" where
  "FQDN dk = dk_Name dk @ ''.'' @ dk_Namespace dk @ ''.svc.cluster.local''"

definition IsOwned :: "string \<Rightarrow> bool" where
  "IsOwned name = hasPrefix name ''k8s:''"

definition findFilter :: "FilterInput list \<Rightarrow> string \<Rightarrow> FilterInput option" where
  "findFilter filters filterType = find (\<lambda>f. fi_Type f = filterType) filters"

fun dedupKeys :: "string set \<Rightarrow> DestinationKey list \<Rightarrow> DestinationKey list" where
  "dedupKeys seen [] = []"
| "dedupKeys seen (d # ds) =
     (let key = DestinationName d in
      if key \<in> seen then dedupKeys seen ds else d # dedupKeys (insert key seen) ds)"

definition deduplicateDests :: "DestinationKey list \<Rightarrow> DestinationKey list" where
  "deduplicateDests ds = dedupKeys {} ds"

definition setKey :: "bool \<Rightarrow> string \<Rightarrow> json \<Rightarrow> (string \<rightharpoonup> json) \<Rightarrow> (string \<rightharpoonup> json)" where
  "setKey c k v m = (if c then m(k \<mapsto> v) else m)"

definition numJSON :: "uint32 \<Rightarrow> json" where
  "numJSON n = JNum (decimal (unat n))"

definition mapHeaderMatch :: "HeaderMatchInput \<Rightarrow> json" where
  "mapHeaderMatch h =
     JObj (setKey (hmi_Type h = ''RegularExpression'') ''regex'' (JBool True)
             [''name'' \<mapsto> JStr (hmi_Name h), ''value'' \<mapsto> JStr (hmi_Value h)])"

definition mapMatch :: "MatchInput \<Rightarrow> string \<rightharpoonup> json" where
  "mapMatch m =
     (let match = (if mi_PathType m = ''Exact'' then [''path'' \<mapsto> JStr (mi_PathValue m)]
                   else if mi_PathType m = ''RegularExpression'' then [''pathRegex'' \<mapsto> JStr (mi_PathValue m)]
                   else [''pathPrefix'' \<mapsto> JStr (mi_PathValue m)]);
          match = setKey (mi_Method m \<noteq> '''') ''methods'' (JArr [JStr (mi_Method m)]) match in
      setKey (mi_Headers m \<noteq> []) ''headers'' (JArr (map mapHeaderMatch (mi_Headers m))) match)"

definition mapRedirectFilter :: "FilterInput \<Rightarrow> string \<rightharpoonup> json" where
  "mapRedirectFilter f =
     setKey (fi_RedirectStripQuery f) ''stripQuery'' (JBool True)
       (setKey (fi_RedirectCode f > 0) ''code'' (numJSON (fi_RedirectCode f))
         (setKey (fi_RedirectPath f \<noteq> '''') ''path'' (JStr (fi_RedirectPath f))
           (setKey (fi_RedirectHost f \<noteq> '''') ''host'' (JStr (fi_RedirectHost f))
             (setKey (fi_RedirectScheme f \<noteq> '''') ''scheme'' (JStr (fi_RedirectScheme f)) Map.empty))))"

definition mapRewriteFilter :: "FilterInput \<Rightarrow> string \<rightharpoonup> json" where
  "mapRewriteFilter f =
     setKey (fi_RewriteHostname f \<noteq> '''') ''host'' (JStr (fi_RewriteHostname f))
       (setKey (fi_RewritePathPrefix f \<noteq> '''') ''path'' (JStr (fi_RewritePathPrefix f)) Map.empty)"

definition mapHeaderModifierFilter :: "string \<Rightarrow> FilterInput \<Rightarrow> vMiddleware" where
  "mapHeaderModifierFilter name f =
     \<lparr>vm_ID = '''', vm_Name = name, vm_Type = ''headers'',
      vm_Headers =
        setKey (fi_HeadersToRemove f \<noteq> []) ''requestHeadersToRemove'' (JArr (map JStr (fi_HeadersToRemove f)))
          (setKey (fi_HeadersToAdd f \<noteq> []) ''requestHeadersToAdd''
             (JArr (map (\<lambda>(k, v). JObj [''key'' \<mapsto> JStr k, ''value'' \<mapsto> JStr v]) (fi_HeadersToAdd f))) Map.empty)\<rparr>"

definition backendKey :: "BackendRefInput \<Rightarrow> DestinationKey" where
  "backendKey b = \<lparr>dk_Name = br_ServiceName b, dk_Namespace = br_ServiceNamespace b, dk_Port = br_Port b\<rparr>"

definition destRef :: "BackendRefInput \<Rightarrow> vDestRef" where
  "destRef b = \<lparr>vd_destinationId = Some (DestinationName (backendKey b)),
                vd_weight = (if br_Weight b = 0 then 1 else br_Weight b)\<rparr>"

definition rulePrefix :: "string \<Rightarrow> nat \<Rightarrow> string" where
  "rulePrefix p i = p @ ''/rule-'' @ decimal i"

definition defaultMatches :: "MatchInput list \<Rightarrow> MatchInput list" where
  "defaultMatches ms =
     (if length ms = 0 then [\<lparr>mi_PathType = ''PathPrefix'', mi_PathValue = ''/'', mi_Method = '''', mi_Headers = []\<rparr>] else ms)"

definition ruleMiddlewares :: "string \<Rightarrow> nat \<Rightarrow> RuleInput \<Rightarrow> vMiddleware list" where
  "ruleMiddlewares p ri rule =
     (case findFilter (ri_Filters rule) ''RequestHeaderModifier'' of
        None \<Rightarrow> []
      | Some f \<Rightarrow> [mapHeaderModifierFilter (rulePrefix p ri @ ''/headers'') f])"

text \<open>The action of the routes of a rule: a redirect filter takes precedence over the backends.\<close>

definition ruleRoute :: "string \<Rightarrow> nat \<Rightarrow> RuleInput \<Rightarrow> nat \<Rightarrow> MatchInput \<Rightarrow> vRoute" where
  "ruleRoute p ri rule mi m =
     (let route = \<lparr>vr_ID = '''', vr_Name = rulePrefix p ri @ ''/match-'' @ decimal mi, vr_Match = mapMatch m,
                   vr_Forward = None, vr_Redirect = None, vr_MiddlewareIDs = map vm_Name (ruleMiddlewares p ri rule)\<rparr> in
      case findFilter (ri_Filters rule) ''RequestRedirect'' of
        Some f \<Rightarrow> route\<lparr>vr_Redirect := Some (mapRedirectFilter f)\<rparr>
      | None \<Rightarrow>
          if length (ri_BackendRefs rule) > 0
          then route\<lparr>vr_Forward := Some \<lparr>vf_destinations = Some (MapSlice (map destRef (ri_BackendRefs rule))),
                       vf_rewrite = map_option mapRewriteFilter (findFilter (ri_Filters rule) ''URLRewrite'')\<rparr>\<rparr>
          else route)"

definition ruleRoutes :: "string \<Rightarrow> nat \<Rightarrow> RuleInput \<Rightarrow> vRoute list" where
  "ruleRoutes p ri rule = map (\<lambda>(mi, m). ruleRoute p ri rule mi m) (List.enumerate 0 (defaultMatches (ri_Matches rule)))"

definition groupName :: "string \<Rightarrow> string \<Rightarrow> string" where
  "groupName namespace name = ''k8s:'' @ namespace @ ''/'' @ name"

definition MapHTTPRoute :: "HTTPRouteInput \<Rightarrow> MappedEntities" where
  "MapHTTPRoute input =
     (let p = groupName (hi_Namespace input) (hi_Name input);
          rules = List.enumerate 0 (hi_Rules input);
          routes = concat (map (\<lambda>(ri, rule). ruleRoutes p ri rule) rules) in
      \<lparr>me_Group = \<lparr>vg_ID = '''', vg_Name = p, vg_RouteIDs = map vr_Name routes, vg_Hostnames = hi_Hostnames input\<rparr>,
       me_Routes = routes,
       me_Destinations = deduplicateDests (concat (map (\<lambda>rule. map backendKey (ri_BackendRefs rule)) (hi_Rules input))),
       me_Middlewares = concat (map (\<lambda>(ri, rule). ruleMiddlewares p ri rule) rules)\<rparr>)"

definition MapGateway :: "GatewayInput \<Rightarrow> vListener list" where
  "MapGateway input =
     map (\<lambda>l. \<lparr>vl_ID = '''', vl_Name = ''k8s:'' @ gi_Namespace input @ ''/'' @ gi_Name input @ ''/'' @ gli_Name l,
               vl_Address = ''0.0.0.0'', vl_Port = gli_Port l\<rparr>) (gi_Listeners input)"

subsection \<open>Conversion of the Gateway API types\<close>

record gwHeaderMatch =
  ghm_Type :: "string option"
  ghm_Name :: string
  ghm_Value :: string

record gwMatch =
  gm_Path :: "(string option \<times> string option) option"
  gm_Method :: "string option"
  gm_Headers :: "gwHeaderMatch list"

record gwBackendRef =
  gb_Name :: string
  gb_Namespace :: "string option"
  gb_Port :: "int option"
  gb_Weight :: "int option"

record gwRedirect =
  gr_Scheme :: "string option"
  gr_Hostname :: "string option"
  gr_ReplaceFullPath :: "string option"
  gr_Port :: "int option"
  gr_StatusCode :: "int option"

record gwRewrite =
  gw_Hostname :: "string option"
  gw_ReplacePrefixMatch :: "string option"

record gwHeaderModifier =
  gh_Set :: "(string \<times> string) list"
  gh_Add :: "(string \<times> string) list"
  gh_Remove :: "string list"

record gwFilter =
  gf_Type :: string
  gf_RequestRedirect :: "gwRedirect option"
  gf_URLRewrite :: "gwRewrite option"
  gf_RequestHeaderModifier :: "gwHeaderModifier option"

record gwRule =
  gwr_Matches :: "gwMatch list"
  gwr_BackendRefs :: "gwBackendRef list"
  gwr_Filters :: "gwFilter list"

record HTTPRouteSpec =
  hs_Hostnames :: "string list"
  hs_Rules :: "gwRule list"

definition deref :: "string option \<Rightarrow> string" where
  "deref x = (case x of None \<Rightarrow> '''' | Some s \<Rightarrow> s)"

definition matchToInput :: "gwMatch \<Rightarrow> MatchInput" where
  "matchToInput m =
     \<lparr>mi_PathType = (case gm_Path m of None \<Rightarrow> '''' | Some (t, v) \<Rightarrow> deref t),
      mi_PathValue = (case gm_Path m of None \<Rightarrow> '''' | Some (t, v) \<Rightarrow> deref v),
      mi_Method = deref (gm_Method m),
      mi_Headers = map (\<lambda>h. \<lparr>hmi_Name = ghm_Name h, hmi_Value = ghm_Value h, hmi_Type = deref (ghm_Type h)\<rparr>) (gm_Headers m)\<rparr>"

definition backendToInput :: "string \<Rightarrow> gwBackendRef \<Rightarrow> BackendRefInput" where
  "backendToInput namespace b =
     \<lparr>br_ServiceName = gb_Name b,
      br_ServiceNamespace = (case gb_Namespace b of None \<Rightarrow> namespace | Some ns \<Rightarrow> ns),
      br_Port = (case gb_Port b of None \<Rightarrow> 0 | Some n \<Rightarrow> word_of_int n),
      br_Weight = (case gb_Weight b of None \<Rightarrow> 1 | Some n \<Rightarrow> word_of_int n)\<rparr>"

definition emptyFilter :: "string \<Rightarrow> FilterInput" where
  "emptyFilter t =
     \<lparr>fi_Type = t, fi_RedirectScheme = '''', fi_RedirectHost = '''', fi_RedirectPort = 0, fi_RedirectPath = '''',
      fi_RedirectCode = 0, fi_RedirectStripQuery = False, fi_RewritePathPrefix = '''', fi_RewriteHostname = '''',
      fi_HeadersToAdd = [], fi_HeadersToRemove = []\<rparr>"

definition filterToInput :: "gwFilter \<Rightarrow> FilterInput" where
  "filterToInput f =
     (let fi = emptyFilter (gf_Type f) in
      if gf_Type f = ''RequestRedirect'' then
        (case gf_RequestRedirect f of
           None \<Rightarrow> fi
         | Some r \<Rightarrow> fi\<lparr>fi_RedirectScheme := deref (gr_Scheme r), fi_RedirectHost := deref (gr_Hostname r),
                       fi_RedirectCode := (case gr_StatusCode r of None \<Rightarrow> 0 | Some c \<Rightarrow> word_of_int c),
                       fi_RedirectPath := deref (gr_ReplaceFullPath r)\<rparr>)
      else if gf_Type f = ''URLRewrite'' then
        (case gf_URLRewrite f of
           None \<Rightarrow> fi
         | Some r \<Rightarrow> fi\<lparr>fi_RewritePathPrefix := deref (gw_ReplacePrefixMatch r), fi_RewriteHostname := deref (gw_Hostname r)\<rparr>)
      else if gf_Type f = ''RequestHeaderModifier'' then
        (case gf_RequestHeaderModifier f of
           None \<Rightarrow> fi
         | Some h \<Rightarrow> fi\<lparr>fi_HeadersToAdd := gh_Add h @ gh_Set h, fi_HeadersToRemove := gh_Remove h\<rparr>)
      else fi)"

definition httpRouteSpecToInput :: "string \<Rightarrow> string \<Rightarrow> HTTPRouteSpec \<Rightarrow> HTTPRouteInput" where
  "httpRouteSpecToInput namespace name spec =
     \<lparr>hi_Name = name, hi_Namespace = namespace, hi_Hostnames = hs_Hostnames spec,
      hi_Rules = map (\<lambda>rule. \<lparr>ri_Matches = map matchToInput (gwr_Matches rule),
                               ri_BackendRefs = map (backendToInput namespace) (gwr_BackendRefs rule),
                               ri_Filters = map filterToInput (gwr_Filters rule)\<rparr>) (hs_Rules spec)\<rparr>"

record gwListener =
  gl_Name :: string
  gl_Port :: int
  gl_Protocol :: string
  gl_Hostname :: "string option"

record gwGateway =
  gg_Name :: string
  gg_Namespace :: string
  gg_Listeners :: "gwListener list"

definition gatewayToInput :: "gwGateway \<Rightarrow> GatewayInput" where
  "gatewayToInput gw =
     \<lparr>gi_Name = gg_Name gw, gi_Namespace = gg_Namespace gw,
      gi_Listeners = map (\<lambda>l. \<lparr>gli_Name = gl_Name l, gli_Port = word_of_int (gl_Port l), gli_Protocol = gl_Protocol l,
                                gli_Hostname = deref (gl_Hostname l)\<rparr>) (gg_Listeners gw)\<rparr>"

subsection \<open>Names of the mapped entities\<close>

lemma split_at_first: "c \<notin> set u \<Longrightarrow> c \<notin> set v \<Longrightarrow> u @ c # x = v @ c # y \<longleftrightarrow> u = v \<and> x = y"
proof (induction u arbitrary: v)
  case Nil then show ?case by (cases v) auto
next
  case (Cons a u) then show ?case by (cases v) auto
qed

lemma slash_notin_decimal: "CHR ''/'' \<notin> set (decimal n)"
proof -
  have *: "digit_char d \<noteq> CHR ''/''" if "d < 10" for d
  proof
    assume "digit_char d = CHR ''/''"
    then have "of_char (digit_char d) = (47 :: nat)" by simp
    then show False using that by (simp add: digit_char_def of_char_of)
  qed
  then show ?thesis by (force simp: decimal_def dest: digits_rev_less)
qed

definition routeName :: "string \<Rightarrow> nat \<Rightarrow> nat \<Rightarrow> string" where
  "routeName p i j = rulePrefix p i @ ''/match-'' @ decimal j"

lemma routeName_eq: "routeName p i j = routeName p i' j' \<longleftrightarrow> i = i' \<and> j = j'"
  using split_at_first [OF slash_notin_decimal slash_notin_decimal, of i "''match-'' @ decimal j" i' "''match-'' @ decimal j'"]
  by (auto simp: routeName_def rulePrefix_def dest: decimal_inj)

lemma ruleRoute_Name [simp]: "vr_Name (ruleRoute p i rule j m) = routeName p i j"
  by (simp add: ruleRoute_def Let_def routeName_def split: option.split)

lemma ruleRoutes_names:
  "map vr_Name (ruleRoutes p i rule) = map (routeName p i) [0..<length (defaultMatches (ri_Matches rule))]"
  by (auto simp: ruleRoutes_def enumerate_eq_zip intro!: nth_equalityI)

lemma routes_names_distinct:
  "distinct (map vr_Name (concat (map (\<lambda>(i, rule). ruleRoutes p i rule) (List.enumerate n rules)))) \<and>
   (\<forall>x \<in> set (concat (map (\<lambda>(i, rule). ruleRoutes p i rule) (List.enumerate n rules))). \<exists>i\<ge>n. \<exists>j. vr_Name x = routeName p i j)"
proof (induction rules arbitrary: n)
  case (Cons rule rules)
  let ?rest = "concat (map (\<lambda>(i, rule). ruleRoutes p i rule) (List.enumerate (Suc n) rules))"
  have here: "distinct (map vr_Name (ruleRoutes p n rule))"
    by (auto simp: ruleRoutes_names distinct_map inj_on_def routeName_eq)
  have named: "\<exists>j. vr_Name x = routeName p n j" if "x \<in> set (ruleRoutes p n rule)" for x
    using that by (auto simp: ruleRoutes_def)
  have later: "\<exists>i\<ge>Suc n. \<exists>j. vr_Name x = routeName p i j" if "x \<in> set ?rest" for x using Cons that by blast
  have "vr_Name x \<noteq> vr_Name y" if "x \<in> set (ruleRoutes p n rule)" "y \<in> set ?rest" for x y
    using named [OF that(1)] later [OF that(2)] by (auto simp: routeName_eq)
  then show ?case using here named later Cons [of "Suc n"] by (auto dest: Suc_leD) (metis le_refl, metis Suc_leD)
qed simp

subsection \<open>References of the mapped entities\<close>

lemma set_dedupKeys: "DestinationName ` set (dedupKeys seen ds) = DestinationName ` set ds - seen"
  by (induction seen ds rule: dedupKeys.induct) (auto simp: Let_def)

lemma distinct_dedupKeys: "distinct (map DestinationName (dedupKeys seen ds))"
proof (induction seen ds rule: dedupKeys.induct)
  case (2 seen d ds)
  have "DestinationName d \<notin> set (map DestinationName (dedupKeys (insert (DestinationName d) seen) ds))"
    by (simp add: set_dedupKeys)
  then show ?case using 2 by (simp add: Let_def)
qed simp

definition routeDestIDs :: "vRoute \<Rightarrow> string option list" where
  "routeDestIDs r =
     (case vr_Forward r of
        None \<Rightarrow> []
      | Some f \<Rightarrow> (case vf_destinations f of
                     Some (MapSlice ds) \<Rightarrow> map vd_destinationId ds
                   | Some (AnySlice ds) \<Rightarrow> map (\<lambda>d. Option.bind d vd_destinationId) ds
                   | None \<Rightarrow> []))"

lemma ruleRoute_refs:
  "set (routeDestIDs (ruleRoute p i rule j m)) \<subseteq> (\<lambda>b. Some (DestinationName (backendKey b))) ` set (ri_BackendRefs rule)"
  by (auto simp: ruleRoute_def Let_def routeDestIDs_def destRef_def split: option.split)

lemma ruleRoute_mws: "vr_MiddlewareIDs (ruleRoute p i rule j m) = map vm_Name (ruleMiddlewares p i rule)"
  by (simp add: ruleRoute_def Let_def split: option.split)

lemma ruleMiddlewares_prefix: "x \<in> set (ruleMiddlewares p i rule) \<Longrightarrow> hasPrefix (vm_Name x) (p @ ''/'')"
  by (cases "findFilter (ri_Filters rule) ''RequestHeaderModifier''")
    (simp_all add: ruleMiddlewares_def mapHeaderModifierFilter_def hasPrefix_iff rulePrefix_def)

lemma mapped_routeE:
  assumes "r \<in> set (me_Routes (MapHTTPRoute input))"
  obtains i rule j m where "(i, rule) \<in> set (List.enumerate 0 (hi_Rules input))" "rule \<in> set (hi_Rules input)"
    "r = ruleRoute (groupName (hi_Namespace input) (hi_Name input)) i rule j m"
  using assms by (fastforce simp: MapHTTPRoute_def Let_def ruleRoutes_def in_set_enumerate_eq)

lemma mapped_destinations:
  "DestinationName ` set (me_Destinations (MapHTTPRoute input)) =
   (\<Union>rule \<in> set (hi_Rules input). (\<lambda>b. DestinationName (backendKey b)) ` set (ri_BackendRefs rule))"
  by (auto simp: MapHTTPRoute_def Let_def deduplicateDests_def set_dedupKeys)

lemma mapped_middleware:
  "(i, rule) \<in> set (List.enumerate 0 (hi_Rules input)) \<Longrightarrow>
   x \<in> set (ruleMiddlewares (groupName (hi_Namespace input) (hi_Name input)) i rule) \<Longrightarrow>
   x \<in> set (me_Middlewares (MapHTTPRoute input))"
  by (auto simp: MapHTTPRoute_def Let_def intro!: bexI [of _ "(i, rule)"])


text \<open>A backend of weight zero, which is to get no traffic, gets the weight one.\<close>

lemma zero_weight_gets_traffic: "vd_weight (destRef (backendToInput ns b)) \<noteq> 0"
  by (simp add: destRef_def)

text \<open>The port of a redirect is lost.\<close>

lemma redirect_port_lost:
  "filterToInput (f\<lparr>gf_RequestRedirect := Some (r\<lparr>gr_Port := p\<rparr>)\<rparr>) = filterToInput (f\<lparr>gf_RequestRedirect := Some r\<rparr>)"
  by (simp add: filterToInput_def Let_def)

text \<open>
  Headers to add are treated like headers to set. The entries carry no flag for appending, so that the middleware
  replaces the values the request already has.
\<close>

lemma added_headers_like_set:
  "filterToInput (f\<lparr>gf_RequestHeaderModifier := Some \<lparr>gh_Set = s, gh_Add = a, gh_Remove = rm\<rparr>\<rparr>) =
   filterToInput (f\<lparr>gf_RequestHeaderModifier := Some \<lparr>gh_Set = a @ s, gh_Add = [], gh_Remove = rm\<rparr>\<rparr>)"
  by (simp add: filterToInput_def Let_def)

end
