(* ===== verification/Dedup.thy ===== *)
theory Dedup
  imports Mapper "HOL-Library.List_Lexorder" "HOL-Library.Char_ord"
begin

text \<open>
  The detector of overlapping routes (\<^verbatim>\<open>clients/controller/internal/dedup/detector.go\<close>): the entries of the routes
  registered so far, by hostname, and the check of a new route against them.
\<close>

subsection \<open>The detector\<close>

record Entry =
  en_Path :: string
  en_PathType :: string
  en_Hostname :: string
  en_Headers :: "HeaderMatchInput list"
  en_Method :: string
  en_Source :: string

record Overlap =
  ol_Incoming :: Entry
  ol_Existing :: Entry

type_synonym Detector = "string \<rightharpoonup> Entry list"

definition NewDetector :: Detector where
  "NewDetector = Map.empty"

definition Reset :: "Detector \<Rightarrow> Detector" where
  "Reset d = Map.empty"

definition prefixCovers :: "string \<Rightarrow> string \<Rightarrow> bool" where
  "prefixCovers pre path =
     (if pre = path then True
      else if \<not> hasPrefix path pre then False
      else if pre \<noteq> [] \<and> last pre = CHR ''/'' then True
      else length path > length pre \<and> path ! length pre = CHR ''/'')"

definition pathsOverlap :: "string \<Rightarrow> string \<Rightarrow> string \<Rightarrow> string \<Rightarrow> bool" where
  "pathsOverlap aType aPath bType bPath =
     (if aType = ''Exact'' \<and> bType = ''Exact'' then aPath = bPath
      else if aType = ''PathPrefix'' \<and> bType = ''PathPrefix'' then prefixCovers aPath bPath \<or> prefixCovers bPath aPath
      else if aType = ''PathPrefix'' \<and> bType = ''Exact'' then prefixCovers aPath bPath
      else if aType = ''Exact'' \<and> bType = ''PathPrefix'' then prefixCovers bPath aPath
      else False)"

definition methodsOverlap :: "string \<Rightarrow> string \<Rightarrow> bool" where
  "methodsOverlap a b \<longleftrightarrow> (if a = '''' \<or> b = '''' then True else toLowerStr a = toLowerStr b)"

definition normalizeHeader :: "HeaderMatchInput \<Rightarrow> string" where
  "normalizeHeader h =
     (if hmi_Type h = '''' then ''Exact'' else hmi_Type h) @ '':'' @ toLowerStr (hmi_Name h) @ ''='' @ hmi_Value h"

definition normalizeHeaders :: "HeaderMatchInput list \<Rightarrow> string list" where
  "normalizeHeaders headers = sort (map normalizeHeader headers)"

definition sameHeaders :: "HeaderMatchInput list \<Rightarrow> HeaderMatchInput list \<Rightarrow> bool" where
  "sameHeaders a b =
     (if length a \<noteq> length b then False
      else if length a = 0 then True
      else list_all (\<lambda>i. normalizeHeaders a ! i = normalizeHeaders b ! i) [0..<length (normalizeHeaders a)])"

definition entriesOverlap :: "Entry \<Rightarrow> Entry \<Rightarrow> bool" where
  "entriesOverlap a b =
     (if \<not> methodsOverlap (en_Method a) (en_Method b) then False
      else if \<not> sameHeaders (en_Headers a) (en_Headers b) then False
      else pathsOverlap (en_PathType a) (en_Path a) (en_PathType b) (en_Path b))"

definition entriesAt :: "Detector \<Rightarrow> string \<Rightarrow> Entry list" where
  "entriesAt d h = (case d h of None \<Rightarrow> [] | Some es \<Rightarrow> es)"

definition findOverlaps :: "Detector \<Rightarrow> Entry \<Rightarrow> Overlap list" where
  "findOverlaps d e =
     map (\<lambda>x. \<lparr>ol_Incoming = e, ol_Existing = x\<rparr>)
       (filter (\<lambda>x. en_Source x \<noteq> en_Source e \<and>
                    \<not> (en_PathType x = ''RegularExpression'' \<or> en_PathType e = ''RegularExpression'') \<and>
                    entriesOverlap x e) (entriesAt d (en_Hostname e)))"

definition sourceOf :: "string \<Rightarrow> string \<Rightarrow> string" where
  "sourceOf namespace name = namespace @ ''/'' @ name"

text \<open>The entries of a route in the order of the loops over rules, matches and hostnames.\<close>

definition routeEntries :: "HTTPRouteInput \<Rightarrow> Entry list" where
  "routeEntries input =
     (let hostnames = (if length (hi_Hostnames input) = 0 then [''*''] else hi_Hostnames input) in
      concat (map (\<lambda>rule. concat (map (\<lambda>m.
        if mi_PathType m = ''RegularExpression'' then []
        else map (\<lambda>hostname. \<lparr>en_Path = mi_PathValue m, en_PathType = mi_PathType m, en_Hostname = hostname,
                               en_Headers = mi_Headers m, en_Method = mi_Method m,
                               en_Source = sourceOf (hi_Namespace input) (hi_Name input)\<rparr>) hostnames)
        (defaultMatches (ri_Matches rule)))) (hi_Rules input)))"

definition register :: "Entry \<Rightarrow> Overlap list \<times> Detector \<Rightarrow> Overlap list \<times> Detector" where
  "register e s =
     (fst s @ findOverlaps (snd s) e, (snd s)(en_Hostname e \<mapsto> entriesAt (snd s) (en_Hostname e) @ [e]))"

definition Check :: "HTTPRouteInput \<Rightarrow> Detector \<Rightarrow> Overlap list \<times> Detector" where
  "Check input d = fold register (routeEntries input) ([], d)"

definition Remove :: "string \<Rightarrow> string \<Rightarrow> Detector \<Rightarrow> Detector" where
  "Remove namespace name d =
     (\<lambda>hostname. case d hostname of
        None \<Rightarrow> None
      | Some entries \<Rightarrow>
          (let kept = filter (\<lambda>e. en_Source e \<noteq> sourceOf namespace name) entries in
           if length kept = 0 then None else Some kept))"

subsection \<open>What an overlap means\<close>

text \<open>The request paths that a path matcher of the Gateway API selects: a prefix ends at the boundary of a segment.\<close>

definition pathSelects :: "string \<Rightarrow> string \<Rightarrow> string \<Rightarrow> bool" where
  "pathSelects pathType v p \<longleftrightarrow> pathType = ''Exact'' \<and> v = p \<or> pathType = ''PathPrefix'' \<and> prefixCovers v p"

lemma prefixCovers_iff:
  "prefixCovers v p \<longleftrightarrow> (\<exists>t. p = v @ t \<and> (t = [] \<or> v \<noteq> [] \<and> last v = CHR ''/'' \<or> hd t = CHR ''/''))"
  by (auto simp: prefixCovers_def hasPrefix_iff nth_append hd_conv_nth)

lemma prefixCovers_refl [simp]: "prefixCovers v v"
  by (simp add: prefixCovers_def)

lemma prefixCovers_meet:
  assumes "prefixCovers a p" "prefixCovers b p" "length a \<le> length b"
  shows "prefixCovers a b"
proof -
  obtain t where t: "p = a @ t" "t = [] \<or> a \<noteq> [] \<and> last a = CHR ''/'' \<or> hd t = CHR ''/''"
    using assms(1) unfolding prefixCovers_iff by blast
  obtain u where u: "p = b @ u" using assms(2) unfolding prefixCovers_iff by blast
  have "a @ t = b @ u" using t(1) u by simp
  then obtain w where w: "b = a @ w" "t = w @ u" using assms(3) by (auto simp: append_eq_append_conv2)
  then show ?thesis using t(2) by (cases w) (auto simp: prefixCovers_iff)
qed

lemma pathsOverlap_iff: "pathsOverlap s a t b \<longleftrightarrow> (\<exists>p. pathSelects s a p \<and> pathSelects t b p)"
proof -
  have "(\<exists>p. prefixCovers a p \<and> prefixCovers b p) \<longleftrightarrow> prefixCovers a b \<or> prefixCovers b a"
    using prefixCovers_meet prefixCovers_refl nat_le_linear by metis
  then show ?thesis by (auto simp: pathsOverlap_def pathSelects_def)
qed

lemma sort_eq_iff: "sort xs = sort ys \<longleftrightarrow> mset xs = mset ys"
proof
  assume "sort xs = sort ys"
  then have "mset (sort xs) = mset (sort ys)" by simp
  then show "mset xs = mset ys" by simp
next
  assume "mset xs = mset ys"
  then show "sort xs = sort ys" by (intro properties_for_sort) simp_all
qed

lemma sameHeaders_iff: "sameHeaders a b \<longleftrightarrow> mset (map normalizeHeader a) = mset (map normalizeHeader b)"
proof -
  have len: "length (normalizeHeaders x) = length x" for x by (simp add: normalizeHeaders_def)
  have "sameHeaders a b \<longleftrightarrow> normalizeHeaders a = normalizeHeaders b"
    unfolding list_eq_iff_nth_eq [of "normalizeHeaders a" "normalizeHeaders b"] len sameHeaders_def list_all_iff by auto
  then show ?thesis by (simp add: normalizeHeaders_def sort_eq_iff del: mset_map)
qed

definition methodSelects :: "string \<Rightarrow> string \<Rightarrow> bool" where
  "methodSelects m r \<longleftrightarrow> m = '''' \<or> toLowerStr m = toLowerStr r"

lemma methodsOverlap_iff: "methodsOverlap a b \<longleftrightarrow> (\<exists>r. methodSelects a r \<and> methodSelects b r)"
  by (auto simp: methodsOverlap_def methodSelects_def)

text \<open>Entries of the checked route itself are skipped, so that only what was registered before counts.\<close>

definition foreign :: "string \<Rightarrow> Detector \<Rightarrow> string \<Rightarrow> Entry list" where
  "foreign source d h = filter (\<lambda>x. en_Source x \<noteq> source) (entriesAt d h)"

lemma findOverlaps_foreign:
  "findOverlaps d e =
     map (\<lambda>x. \<lparr>ol_Incoming = e, ol_Existing = x\<rparr>)
       (filter (\<lambda>x. \<not> (en_PathType x = ''RegularExpression'' \<or> en_PathType e = ''RegularExpression'') \<and> entriesOverlap x e)
         (foreign (en_Source e) d (en_Hostname e)))"
  unfolding findOverlaps_def foreign_def filter_filter by (intro arg_cong [where f = "map _"] filter_cong) auto

lemma foreign_register: "en_Source e = source \<Longrightarrow> foreign source (snd (register e s)) = foreign source (snd s)"
  by (auto simp: foreign_def register_def entriesAt_def)

lemma fold_register:
  "list_all (\<lambda>e. en_Source e = source) es \<Longrightarrow> foreign source (snd s) = foreign source d \<Longrightarrow>
   fst (fold register es s) = fst s @ concat (map (findOverlaps d) es)"
proof (induction es arbitrary: s)
  case (Cons e es)
  have "findOverlaps (snd s) e = findOverlaps d e" using Cons.prems by (simp add: findOverlaps_foreign)
  then have "fst (register e s) = fst s @ findOverlaps d e" by (simp add: register_def)
  then show ?case using Cons.IH [of "register e s"] Cons.prems by (simp add: foreign_register)
qed simp

lemma routeEntries_source: "list_all (\<lambda>e. en_Source e = sourceOf (hi_Namespace input) (hi_Name input)) (routeEntries input)"
  by (auto simp: routeEntries_def Let_def list_all_iff split: if_splits)

lemma Check_overlaps: "fst (Check input d) = concat (map (findOverlaps d) (routeEntries input))"
  unfolding Check_def using fold_register [OF routeEntries_source, where s = "([], d)" and d = d] by simp
lemma entriesOverlap_iff:
  "entriesOverlap a b \<longleftrightarrow>
   mset (map normalizeHeader (en_Headers a)) = mset (map normalizeHeader (en_Headers b)) \<and>
   (\<exists>r. methodSelects (en_Method a) r \<and> methodSelects (en_Method b) r) \<and>
   (\<exists>p. pathSelects (en_PathType a) (en_Path a) p \<and> pathSelects (en_PathType b) (en_Path b) p)"
  by (auto simp: entriesOverlap_def pathsOverlap_iff methodsOverlap_iff sameHeaders_iff)

lemma entriesOverlap_type:
  "entriesOverlap a b \<Longrightarrow> en_PathType a \<noteq> ''RegularExpression'' \<and> en_PathType b \<noteq> ''RegularExpression''"
  by (auto simp: entriesOverlap_def pathsOverlap_def split: if_splits)


definition apiRoute :: "string \<Rightarrow> string \<Rightarrow> string \<Rightarrow> HTTPRouteInput" where
  "apiRoute name pathType path =
     \<lparr>hi_Name = name, hi_Namespace = ''ns'', hi_Hostnames = [''h''],
      hi_Rules = [\<lparr>ri_Matches = [\<lparr>mi_PathType = pathType, mi_PathValue = path, mi_Method = '''', mi_Headers = []\<rparr>],
                   ri_BackendRefs = [], ri_Filters = []\<rparr>]\<rparr>"



text \<open>Unregistering a route after its check restores the detector.\<close>

lemma remove_undoes_check:
  assumes "\<And>h. foreign (sourceOf (hi_Namespace input) (hi_Name input)) d h = entriesAt d h" "\<And>h. d h \<noteq> Some []"
  shows "Remove (hi_Namespace input) (hi_Name input) (snd (Check input d)) = d"
proof
  fix h
  let ?src = "sourceOf (hi_Namespace input) (hi_Name input)"
  have "foreign ?src (snd (fold register es s)) = foreign ?src (snd s)"
    if "list_all (\<lambda>e. en_Source e = ?src) es" for es s
    using that by (induction es arbitrary: s) (simp_all add: foreign_register)
  then have "foreign ?src (snd (Check input d)) = foreign ?src d" using routeEntries_source by (simp add: Check_def)
  then have "filter (\<lambda>e. en_Source e \<noteq> ?src) (entriesAt (snd (Check input d)) h) = entriesAt d h"
    using assms(1) [of h] by (metis foreign_def)
  then show "Remove (hi_Namespace input) (hi_Name input) (snd (Check input d)) h = d h"
    using assms(2) [of h] by (auto simp: Remove_def entriesAt_def Let_def split: option.splits)
qed

text \<open>An exact path under a registered prefix is reported.\<close>

lemma exact_under_prefix_reported:
  "fst (Check (apiRoute ''b'' ''Exact'' ''/api/users'') (snd (Check (apiRoute ''a'' ''PathPrefix'' ''/api'') NewDetector))) \<noteq> []"
  by code_simp

text \<open>A route for all hostnames is not compared with a route for one of them.\<close>

lemma wildcard_not_compared:
  assumes "hi_Hostnames input = []" "entriesAt d ''*'' = []"
  shows "fst (Check input d) = []"
  using assms by (auto simp: Check_overlaps findOverlaps_def routeEntries_def Let_def filter_empty_conv)

end
