(* ===== verification/Reconciler.thy ===== *)
theory Reconciler
  imports Mapper
begin

text \<open>
  The reconciler of the controller (\<^verbatim>\<open>clients/controller/internal/reconciler/reconciler.go\<close>): it brings the mapped
  entities of a route into the control plane and deletes what is stale, with a reference count per destination. The
  state holds the collections of the control plane, as the client's calls (\<^verbatim>\<open>vrata/client.go\<close>) read and change them,
  next to the reconciler's own maps. Every call may fail: refused without an effect, or with its effect but its answer
  lost. Functions return an error or a value and the state so far, as the code returns its changes.
\<close>

subsection \<open>Calls of the control plane\<close>

datatype reply = Answered | Refused | Lost

text \<open>What is outside of the controller: the fate of the n-th call and the n-th id the control plane draws.\<close>

record env =
  env_reply :: "nat \<Rightarrow> reply"
  env_newID :: "nat \<Rightarrow> string"

record RState =
  rs_routes :: "vRoute list"
  rs_groups :: "vGroup list"
  rs_dests :: "vDestination list"
  rs_mws :: "vMiddleware list"
  rs_listeners :: "vListener list"
  rs_fresh :: nat
  rs_calls :: nat
  rs_counts :: "string \<rightharpoonup> int"
  rs_routeDest :: "string \<rightharpoonup> string list"
  rs_changes :: int

datatype rec_error =
  ListingRoutes | ListingGroups | ListingDestinations | ListingMiddlewares | ListingListeners
| CreatingDestination string | CreatingMiddleware string | CreatingRoute string | CreatingGroup string | CreatingListener string
| UpdatingRoute string | UpdatingGroup string
| DeletingRoute string | DeletingGroup string | DeletingMiddleware string | DeletingDestination string | DeletingListener string
| DestinationNotFound string | MiddlewareNotFound string

type_synonym 'a act = "RState \<Rightarrow> (rec_error + 'a) \<times> RState"

definition ret :: "'a \<Rightarrow> 'a act" where
  "ret x s = (Inr x, s)"

definition throw :: "rec_error \<Rightarrow> 'a act" where
  "throw e s = (Inl e, s)"

definition andThen :: "'a act \<Rightarrow> ('a \<Rightarrow> 'b act) \<Rightarrow> 'b act" where
  "andThen m f s = (case m s of (Inl e, s') \<Rightarrow> (Inl e, s') | (Inr x, s') \<Rightarrow> f x s')"

definition modify :: "(RState \<Rightarrow> RState) \<Rightarrow> unit act" where
  "modify f s = (Inr (), f s)"

definition gets :: "(RState \<Rightarrow> 'a) \<Rightarrow> 'a act" where
  "gets f s = (Inr (f s), s)"

primrec forEach :: "'a list \<Rightarrow> ('a \<Rightarrow> unit act) \<Rightarrow> unit act" where
  "forEach [] f = ret ()"
| "forEach (x # xs) f = andThen (f x) (\<lambda>_. forEach xs f)"

primrec collect :: "'a list \<Rightarrow> ('a \<Rightarrow> 'b act) \<Rightarrow> 'b list act" where
  "collect [] f = ret []"
| "collect (x # xs) f = andThen (f x) (\<lambda>y. andThen (collect xs f) (\<lambda>ys. ret (y # ys)))"

definition call :: "env \<Rightarrow> rec_error \<Rightarrow> 'a act \<Rightarrow> 'a act" where
  "call env err m s =
     (let t = s\<lparr>rs_calls := Suc (rs_calls s)\<rparr> in
      case env_reply env (rs_calls s) of
        Answered \<Rightarrow> m t
      | Refused \<Rightarrow> (Inl err, t)
      | Lost \<Rightarrow> (Inl err, snd (m t)))"

definition change :: "unit act" where
  "change = modify (\<lambda>s. s\<lparr>rs_changes := rs_changes s + 1\<rparr>)"

definition ListRoutes :: "env \<Rightarrow> vRoute list act" where
  "ListRoutes env = call env ListingRoutes (gets rs_routes)"

definition ListGroups :: "env \<Rightarrow> vGroup list act" where
  "ListGroups env = call env ListingGroups (gets rs_groups)"

definition ListDestinations :: "env \<Rightarrow> vDestination list act" where
  "ListDestinations env = call env ListingDestinations (gets rs_dests)"

definition ListMiddlewares :: "env \<Rightarrow> vMiddleware list act" where
  "ListMiddlewares env = call env ListingMiddlewares (gets rs_mws)"

definition ListListeners :: "env \<Rightarrow> vListener list act" where
  "ListListeners env = call env ListingListeners (gets rs_listeners)"

text \<open>An entity goes to the control plane as JSON, so that a list of maps comes back as a list of any values.\<close>

fun sliceJSON :: "destSlice \<Rightarrow> destSlice" where
  "sliceJSON (MapSlice ds) = AnySlice (map Some ds)"
| "sliceJSON (AnySlice ds) = AnySlice ds"

definition routeJSON :: "vRoute \<Rightarrow> vRoute" where
  "routeJSON r = r\<lparr>vr_Forward := map_option (\<lambda>f. f\<lparr>vf_destinations := map_option sliceJSON (vf_destinations f)\<rparr>) (vr_Forward r)\<rparr>"

definition freshID :: "env \<Rightarrow> string act" where
  "freshID env s = (Inr (env_newID env (rs_fresh s)), s\<lparr>rs_fresh := Suc (rs_fresh s)\<rparr>)"

definition CreateRoute :: "env \<Rightarrow> vRoute \<Rightarrow> vRoute act" where
  "CreateRoute env r = call env (CreatingRoute (vr_Name r))
     (andThen (freshID env) (\<lambda>i. let r = (routeJSON r)\<lparr>vr_ID := i\<rparr> in
        andThen (modify (\<lambda>s. s\<lparr>rs_routes := rs_routes s @ [r]\<rparr>)) (\<lambda>_. ret r)))"

definition UpdateRoute :: "env \<Rightarrow> string \<Rightarrow> vRoute \<Rightarrow> unit act" where
  "UpdateRoute env i r = call env (UpdatingRoute (vr_Name r))
     (modify (\<lambda>s. s\<lparr>rs_routes := map (\<lambda>x. if vr_ID x = i then (routeJSON r)\<lparr>vr_ID := i\<rparr> else x) (rs_routes s)\<rparr>))"

definition DeleteRoute :: "env \<Rightarrow> vRoute \<Rightarrow> unit act" where
  "DeleteRoute env r = call env (DeletingRoute (vr_Name r))
     (modify (\<lambda>s. s\<lparr>rs_routes := filter (\<lambda>x. vr_ID x \<noteq> vr_ID r) (rs_routes s)\<rparr>))"

definition CreateGroup :: "env \<Rightarrow> vGroup \<Rightarrow> unit act" where
  "CreateGroup env g = call env (CreatingGroup (vg_Name g))
     (andThen (freshID env) (\<lambda>i. modify (\<lambda>s. s\<lparr>rs_groups := rs_groups s @ [g\<lparr>vg_ID := i\<rparr>]\<rparr>)))"

definition UpdateGroup :: "env \<Rightarrow> string \<Rightarrow> vGroup \<Rightarrow> unit act" where
  "UpdateGroup env i g = call env (UpdatingGroup (vg_Name g))
     (modify (\<lambda>s. s\<lparr>rs_groups := map (\<lambda>x. if vg_ID x = i then g\<lparr>vg_ID := i\<rparr> else x) (rs_groups s)\<rparr>))"

definition DeleteGroup :: "env \<Rightarrow> vGroup \<Rightarrow> unit act" where
  "DeleteGroup env g = call env (DeletingGroup (vg_Name g))
     (modify (\<lambda>s. s\<lparr>rs_groups := filter (\<lambda>x. vg_ID x \<noteq> vg_ID g) (rs_groups s)\<rparr>))"

definition CreateDestination :: "env \<Rightarrow> vDestination \<Rightarrow> unit act" where
  "CreateDestination env d = call env (CreatingDestination (vs_Name d))
     (andThen (freshID env) (\<lambda>i. modify (\<lambda>s. s\<lparr>rs_dests := rs_dests s @ [d\<lparr>vs_ID := i\<rparr>]\<rparr>)))"

definition DeleteDestination :: "env \<Rightarrow> vDestination \<Rightarrow> unit act" where
  "DeleteDestination env d = call env (DeletingDestination (vs_Name d))
     (modify (\<lambda>s. s\<lparr>rs_dests := filter (\<lambda>x. vs_ID x \<noteq> vs_ID d) (rs_dests s)\<rparr>))"

definition CreateMiddleware :: "env \<Rightarrow> vMiddleware \<Rightarrow> unit act" where
  "CreateMiddleware env m = call env (CreatingMiddleware (vm_Name m))
     (andThen (freshID env) (\<lambda>i. modify (\<lambda>s. s\<lparr>rs_mws := rs_mws s @ [m\<lparr>vm_ID := i\<rparr>]\<rparr>)))"

definition DeleteMiddleware :: "env \<Rightarrow> vMiddleware \<Rightarrow> unit act" where
  "DeleteMiddleware env m = call env (DeletingMiddleware (vm_Name m))
     (modify (\<lambda>s. s\<lparr>rs_mws := filter (\<lambda>x. vm_ID x \<noteq> vm_ID m) (rs_mws s)\<rparr>))"

definition CreateListener :: "env \<Rightarrow> vListener \<Rightarrow> unit act" where
  "CreateListener env l = call env (CreatingListener (vl_Name l))
     (andThen (freshID env) (\<lambda>i. modify (\<lambda>s. s\<lparr>rs_listeners := rs_listeners s @ [l\<lparr>vl_ID := i\<rparr>]\<rparr>)))"

definition DeleteListener :: "env \<Rightarrow> vListener \<Rightarrow> unit act" where
  "DeleteListener env l = call env (DeletingListener (vl_Name l))
     (modify (\<lambda>s. s\<lparr>rs_listeners := filter (\<lambda>x. vl_ID x \<noteq> vl_ID l) (rs_listeners s)\<rparr>))"

subsection \<open>Reference counts\<close>

definition Increment :: "string \<Rightarrow> (string \<rightharpoonup> int) \<Rightarrow> (string \<rightharpoonup> int)" where
  "Increment d m = m(d \<mapsto> mapInt m d + 1)"

definition Decrement :: "string \<Rightarrow> (string \<rightharpoonup> int) \<Rightarrow> (string \<rightharpoonup> int)" where
  "Decrement d m = (if mapInt m d - 1 \<le> 0 then m(d := None) else m(d \<mapsto> mapInt m d - 1))"

definition extractDestinationNames :: "vRoute \<Rightarrow> string list" where
  "extractDestinationNames r =
     (case vr_Forward r of
        None \<Rightarrow> []
      | Some f \<Rightarrow> (case vf_destinations f of
                     Some (AnySlice ds) \<Rightarrow> List.map_filter (\<lambda>d. Option.bind d vd_destinationId) ds
                   | _ \<Rightarrow> []))"

definition RebuildFromRoutes :: "vRoute list \<Rightarrow> (string \<rightharpoonup> int)" where
  "RebuildFromRoutes routes =
     fold Increment (concat (map extractDestinationNames (filter (\<lambda>r. IsOwned (vr_Name r)) routes))) Map.empty"

subsection \<open>The reconciler\<close>

definition NewReconciler :: "RState \<Rightarrow> RState" where
  "NewReconciler s = s\<lparr>rs_counts := Map.empty, rs_routeDest := Map.empty\<rparr>"

definition countRef :: "string \<Rightarrow> unit act" where
  "countRef d = modify (\<lambda>s. s\<lparr>rs_counts := Increment d (rs_counts s)\<rparr>)"

definition discountRef :: "string \<Rightarrow> unit act" where
  "discountRef d = modify (\<lambda>s. s\<lparr>rs_counts := Decrement d (rs_counts s)\<rparr>)"

definition Init :: "env \<Rightarrow> unit act" where
  "Init env =
     andThen (ListRoutes env) (\<lambda>routes.
     andThen (ListDestinations env) (\<lambda>dests.
     let idToName = map_of (rev (map (\<lambda>d. (vs_ID d, vs_Name d)) dests)) in
     andThen (modify NewReconciler) (\<lambda>_.
     forEach (filter (\<lambda>r. IsOwned (vr_Name r)) routes) (\<lambda>route.
       let names = List.map_filter idToName (extractDestinationNames route) in
       andThen (modify (\<lambda>s. s\<lparr>rs_routeDest := (rs_routeDest s)(vr_Name route \<mapsto> names)\<rparr>)) (\<lambda>_.
       forEach names countRef)))))"

text \<open>\<^verbatim>\<open>findByName\<close> at each of its four resources: the id of the first entity of the name.\<close>

definition findByName :: "('a \<Rightarrow> string) \<Rightarrow> ('a \<Rightarrow> string) \<Rightarrow> 'a list act \<Rightarrow> string \<Rightarrow> string option act" where
  "findByName nameOf idOf list name = andThen list (\<lambda>xs. ret (map_option idOf (find (\<lambda>x. nameOf x = name) xs)))"

definition byName :: "('a \<Rightarrow> string) \<Rightarrow> ('a \<Rightarrow> string) \<Rightarrow> 'a list \<Rightarrow> (string \<rightharpoonup> string)" where
  "byName nameOf idOf xs = map_of (rev (map (\<lambda>x. (nameOf x, idOf x)) xs))"

text \<open>The ids of the names; the first name that is missing is an error.\<close>

definition resolveNames :: "(string \<rightharpoonup> string) \<Rightarrow> (string \<Rightarrow> rec_error) \<Rightarrow> string list \<Rightarrow> (string \<rightharpoonup> string) act" where
  "resolveNames ids err names =
     (case find (\<lambda>n. ids n = None) names of
        Some n \<Rightarrow> throw (err n)
      | None \<Rightarrow> ret (\<lambda>n. if n \<in> set names then ids n else None))"

definition resolveDestinationIDs :: "env \<Rightarrow> DestinationKey list \<Rightarrow> (string \<rightharpoonup> string) act" where
  "resolveDestinationIDs env dks =
     andThen (ListDestinations env) (\<lambda>dests.
     resolveNames (byName vs_Name vs_ID dests) DestinationNotFound (map DestinationName dks))"

definition resolveMiddlewareIDs :: "env \<Rightarrow> vMiddleware list \<Rightarrow> (string \<rightharpoonup> string) option act" where
  "resolveMiddlewareIDs env mws =
     (if length mws = 0 then ret None
      else andThen (ListMiddlewares env) (\<lambda>all.
           andThen (resolveNames (byName vm_Name vm_ID all) MiddlewareNotFound (map vm_Name mws)) (\<lambda>ids. ret (Some ids))))"

definition resolveRef :: "(string \<rightharpoonup> string) \<Rightarrow> string \<Rightarrow> string" where
  "resolveRef ids n = (case ids n of None \<Rightarrow> n | Some i \<Rightarrow> i)"

text \<open>
  The routes of one rule share the list of destinations and the list of middlewares, which are resolved in place. A
  list that was resolved already stays as it is, since no id is a name to be resolved.
\<close>

definition resolveRouteRefs :: "vRoute \<Rightarrow> (string \<rightharpoonup> string) \<Rightarrow> (string \<rightharpoonup> string) option \<Rightarrow> vRoute" where
  "resolveRouteRefs route destIDs mwIDs =
     route\<lparr>vr_Forward := map_option (\<lambda>f. case vf_destinations f of
              Some (MapSlice ds) \<Rightarrow>
                f\<lparr>vf_destinations := Some (MapSlice (map (\<lambda>d. d\<lparr>vd_destinationId := map_option (resolveRef destIDs) (vd_destinationId d)\<rparr>) ds))\<rparr>
            | _ \<Rightarrow> f) (vr_Forward route),
          vr_MiddlewareIDs := (case mwIDs of None \<Rightarrow> vr_MiddlewareIDs route
                                 | Some ids \<Rightarrow> map (resolveRef ids) (vr_MiddlewareIDs route))\<rparr>"

definition destinationNamesForRoute :: "DestinationKey list \<Rightarrow> string list" where
  "destinationNamesForRoute dks = map DestinationName dks"

definition ensureDestination :: "env \<Rightarrow> DestinationKey \<Rightarrow> unit act" where
  "ensureDestination env dk =
     andThen (findByName vs_Name vs_ID (ListDestinations env) (DestinationName dk)) (\<lambda>existing.
     case existing of
       Some i \<Rightarrow> ret ()
     | None \<Rightarrow>
         andThen (CreateDestination env \<lparr>vs_ID = '''', vs_Name = DestinationName dk, vs_Host = FQDN dk, vs_Port = dk_Port dk\<rparr>)
           (\<lambda>_. change))"

definition ensureMiddleware :: "env \<Rightarrow> vMiddleware \<Rightarrow> unit act" where
  "ensureMiddleware env mw =
     andThen (findByName vm_Name vm_ID (ListMiddlewares env) (vm_Name mw)) (\<lambda>existing.
     case existing of Some i \<Rightarrow> ret () | None \<Rightarrow> andThen (CreateMiddleware env mw) (\<lambda>_. change))"

definition applyRoute ::
  "env \<Rightarrow> MappedEntities \<Rightarrow> (string \<rightharpoonup> string) \<Rightarrow> (string \<rightharpoonup> string) option \<Rightarrow> vRoute \<Rightarrow> string act" where
  "applyRoute env mapped destIDs mwIDs route =
     (let resolved = resolveRouteRefs route destIDs mwIDs in
      andThen (findByName vr_Name vr_ID (ListRoutes env) (vr_Name route)) (\<lambda>existing.
      case existing of
        None \<Rightarrow>
          andThen (CreateRoute env resolved) (\<lambda>created.
          let destNames = destinationNamesForRoute (me_Destinations mapped) in
          andThen (modify (\<lambda>s. s\<lparr>rs_routeDest := (rs_routeDest s)(vr_Name route \<mapsto> destNames)\<rparr>)) (\<lambda>_.
          andThen (forEach destNames countRef) (\<lambda>_.
          andThen change (\<lambda>_. ret (vr_ID created)))))
      | Some i \<Rightarrow>
          andThen (UpdateRoute env i (resolved\<lparr>vr_ID := i\<rparr>)) (\<lambda>_.
          andThen change (\<lambda>_. ret i))))"

definition applyGroup :: "env \<Rightarrow> vGroup \<Rightarrow> unit act" where
  "applyGroup env g =
     andThen (findByName vg_Name vg_ID (ListGroups env) (vg_Name g)) (\<lambda>existing.
     case existing of
       None \<Rightarrow> andThen (CreateGroup env g) (\<lambda>_. change)
     | Some i \<Rightarrow> andThen (UpdateGroup env i (g\<lparr>vg_ID := i\<rparr>)) (\<lambda>_. change))"

text \<open>A route goes with its references; the names of its destinations are returned to be checked.\<close>

definition dropRoute :: "env \<Rightarrow> vRoute \<Rightarrow> string list act" where
  "dropRoute env route =
     andThen (gets (\<lambda>s. case rs_routeDest s (vr_Name route) of None \<Rightarrow> [] | Some ds \<Rightarrow> ds)) (\<lambda>destNames.
     andThen (DeleteRoute env route) (\<lambda>_.
     andThen change (\<lambda>_.
     andThen (forEach destNames discountRef) (\<lambda>_.
     andThen (modify (\<lambda>s. s\<lparr>rs_routeDest := (rs_routeDest s)(vr_Name route := None)\<rparr>)) (\<lambda>_.
     ret destNames)))))"

definition dropMiddleware :: "env \<Rightarrow> vMiddleware \<Rightarrow> unit act" where
  "dropMiddleware env mw = andThen (DeleteMiddleware env mw) (\<lambda>_. change)"

definition dropDestination :: "env \<Rightarrow> vDestination list \<Rightarrow> string \<Rightarrow> unit act" where
  "dropDestination env dests dn =
     andThen (gets (\<lambda>s. mapInt (rs_counts s) dn)) (\<lambda>n.
     if n > 0 then ret ()
     else case find (\<lambda>d. vs_Name d = dn) dests of
            None \<Rightarrow> ret ()
          | Some d \<Rightarrow> andThen (DeleteDestination env d) (\<lambda>_. change))"

fun unique :: "string set \<Rightarrow> string list \<Rightarrow> string list" where
  "unique seen [] = []"
| "unique seen (s # ss) = (if s \<in> seen then unique seen ss else s # unique (insert s seen) ss)"

definition belongs :: "string \<Rightarrow> string \<Rightarrow> bool" where
  "belongs p name \<longleftrightarrow> IsOwned name \<and> hasPrefix name p"

definition ApplyHTTPRoute :: "env \<Rightarrow> MappedEntities \<Rightarrow> unit act" where
  "ApplyHTTPRoute env mapped =
     andThen (modify (\<lambda>s. s\<lparr>rs_changes := 0\<rparr>)) (\<lambda>_.
     andThen (forEach (me_Destinations mapped) (ensureDestination env)) (\<lambda>_.
     andThen (forEach (me_Middlewares mapped) (ensureMiddleware env)) (\<lambda>_.
     andThen (resolveDestinationIDs env (me_Destinations mapped)) (\<lambda>destIDs.
     andThen (resolveMiddlewareIDs env (me_Middlewares mapped)) (\<lambda>mwIDs.
     andThen (collect (me_Routes mapped) (applyRoute env mapped destIDs mwIDs)) (\<lambda>routeVrataIDs.
     andThen (applyGroup env ((me_Group mapped)\<lparr>vg_RouteIDs := routeVrataIDs\<rparr>)) (\<lambda>_.
     let p = vg_Name (me_Group mapped) @ ''/'' in
     andThen (ListRoutes env) (\<lambda>allRoutes.
     andThen (collect (filter (\<lambda>r. belongs p (vr_Name r) \<and> vr_Name r \<notin> set (map vr_Name (me_Routes mapped))) allRoutes)
                (dropRoute env)) (\<lambda>destNames.
     andThen (ListMiddlewares env) (\<lambda>allMWs.
     andThen (forEach (filter (\<lambda>m. belongs p (vm_Name m) \<and> vm_Name m \<notin> set (map vm_Name (me_Middlewares mapped))) allMWs)
                (dropMiddleware env)) (\<lambda>_.
     let destsToCheck = concat destNames in
     if length destsToCheck > 0 then
       andThen (ListDestinations env) (\<lambda>allDests.
       forEach (unique {} destsToCheck) (dropDestination env allDests))
     else ret ())))))))))))"

definition DeleteHTTPRoute :: "env \<Rightarrow> string \<Rightarrow> string \<Rightarrow> unit act" where
  "DeleteHTTPRoute env namespace name =
     (let p = groupName namespace name in
      andThen (modify (\<lambda>s. s\<lparr>rs_changes := 0\<rparr>)) (\<lambda>_.
      andThen (ListGroups env) (\<lambda>groups.
      andThen (forEach (filter (\<lambda>g. vg_Name g = p) groups) (\<lambda>g. andThen (DeleteGroup env g) (\<lambda>_. change))) (\<lambda>_.
      andThen (ListRoutes env) (\<lambda>routes.
      andThen (collect (filter (\<lambda>r. belongs (p @ ''/'') (vr_Name r)) routes) (dropRoute env)) (\<lambda>destNames.
      andThen (ListMiddlewares env) (\<lambda>middlewares.
      andThen (forEach (filter (\<lambda>m. belongs (p @ ''/'') (vm_Name m)) middlewares) (dropMiddleware env)) (\<lambda>_.
      andThen (ListDestinations env) (\<lambda>dests.
      forEach (unique {} (concat destNames)) (dropDestination env dests))))))))))"

definition DeleteListenerByName :: "env \<Rightarrow> string \<Rightarrow> int act" where
  "DeleteListenerByName env name =
     andThen (ListListeners env) (\<lambda>listeners.
     case find (\<lambda>l. vl_Name l = name) listeners of
       None \<Rightarrow> ret 0
     | Some l \<Rightarrow> andThen (DeleteListener env l) (\<lambda>_. ret 1))"

definition OwnedGroupNames :: "env \<Rightarrow> string list act" where
  "OwnedGroupNames env = andThen (ListGroups env) (\<lambda>groups. ret (filter IsOwned (map vg_Name groups)))"

definition OwnedListenerNames :: "env \<Rightarrow> string list act" where
  "OwnedListenerNames env = andThen (ListListeners env) (\<lambda>listeners. ret (filter IsOwned (map vl_Name listeners)))"

subsection \<open>Triples over actions\<close>

text \<open>From a state with \<open>P\<close> the action ends with a result and a state in \<open>Q\<close>, or with an error in a state with \<open>E\<close>.\<close>

definition valid :: "(RState \<Rightarrow> bool) \<Rightarrow> 'a act \<Rightarrow> ('a \<Rightarrow> RState \<Rightarrow> bool) \<Rightarrow> (RState \<Rightarrow> bool) \<Rightarrow> bool" where
  "valid P m Q E \<longleftrightarrow> (\<forall>s. P s \<longrightarrow> (case m s of (Inr x, t) \<Rightarrow> Q x t | (Inl e, t) \<Rightarrow> E t))"

named_theorems triples \<open>rules for triples over actions\<close>

lemma valid_ret [triples]: "(\<And>s. P s \<Longrightarrow> Q x s) \<Longrightarrow> valid P (ret x) Q E"
  by (simp add: valid_def ret_def)

lemma valid_throw [triples]: "(\<And>s. P s \<Longrightarrow> E s) \<Longrightarrow> valid P (throw e) Q E"
  by (simp add: valid_def throw_def)

lemma valid_modify [triples]: "(\<And>s. P s \<Longrightarrow> Q () (f s)) \<Longrightarrow> valid P (modify f) Q E"
  by (simp add: valid_def modify_def)

lemma valid_gets [triples]: "(\<And>s. P s \<Longrightarrow> Q (f s) s) \<Longrightarrow> valid P (gets f) Q E"
  by (simp add: valid_def gets_def)

lemma valid_andThen: "valid P m R E \<Longrightarrow> (\<And>x. valid (R x) (f x) Q E) \<Longrightarrow> valid P (andThen m f) Q E"
  by (fastforce simp: valid_def andThen_def split: prod.splits sum.splits)

lemma valid_weaken:
  "valid P' m Q' E' \<Longrightarrow> (\<And>s. P s \<Longrightarrow> P' s) \<Longrightarrow> (\<And>x s. Q' x s \<Longrightarrow> Q x s) \<Longrightarrow> (\<And>s. E' s \<Longrightarrow> E s) \<Longrightarrow> valid P m Q E"
  by (fastforce simp: valid_def split: prod.splits sum.splits)

lemma valid_forEach:
  "(\<And>x. x \<in> set xs \<Longrightarrow> valid P (f x) (\<lambda>_. P) E) \<Longrightarrow> valid P (forEach xs f) (\<lambda>_. P) E"
proof (induction xs)
  case (Cons x xs)
  have "valid P (f x) (\<lambda>_. P) E" by (rule Cons.prems) simp
  moreover have "valid P (forEach xs f) (\<lambda>_. P) E" using Cons by simp
  ultimately show ?case by (auto intro: valid_andThen)
qed (auto intro: valid_ret)

lemma valid_collect:
  "(\<And>x. x \<in> set xs \<Longrightarrow> valid P (f x) (\<lambda>_. P) E) \<Longrightarrow> valid P (collect xs f) (\<lambda>_. P) E"
proof (induction xs)
  case (Cons x xs)
  have 1: "valid P (f x) (\<lambda>_. P) E" by (rule Cons.prems) simp
  have 2: "valid P (collect xs f) (\<lambda>_. P) E" using Cons by simp
  show ?case unfolding collect.simps by (intro valid_andThen [OF 1] valid_andThen [OF 2] valid_ret)
qed (auto intro: valid_ret)

text \<open>A call keeps what its body keeps, and what the number of calls does not matter for.\<close>

lemma valid_call:
  assumes body: "valid P m Q E" and "\<And>s n. P s \<Longrightarrow> P (s\<lparr>rs_calls := n\<rparr>)" "\<And>s. P s \<Longrightarrow> E s" "\<And>x s. Q x s \<Longrightarrow> E s"
  shows "valid P (call env err m) Q E"
  unfolding valid_def
proof (intro allI impI)
  fix s assume "P s"
  let ?t = "s\<lparr>rs_calls := Suc (rs_calls s)\<rparr>"
  have t: "P ?t" using \<open>P s\<close> by (rule assms(2))
  obtain r u where m: "m ?t = (r, u)" by (cases "m ?t")
  have ru: "case r of Inr x \<Rightarrow> Q x u | Inl e \<Rightarrow> E u" using body t m by (auto simp: valid_def split: sum.splits dest!: spec [of _ ?t])
  then have "E u" using assms(4) by (cases r) auto
  then show "case call env err m s of (Inr x, t) \<Rightarrow> Q x t | (Inl e, t) \<Rightarrow> E t"
    using ru m assms(3) [OF t] by (cases "env_reply env (rs_calls s)") (auto simp: call_def Let_def split: sum.splits)
qed

definition keeps :: "(RState \<Rightarrow> bool) \<Rightarrow> 'a act \<Rightarrow> bool" where
  "keeps T m \<longleftrightarrow> valid T m (\<lambda>_. T) T"

named_theorems keeping \<open>what keeps a predicate on states\<close>

lemma keeps_ret [keeping]: "keeps T (ret x)" and keeps_throw [keeping]: "keeps T (throw e)"
  and keeps_gets [keeping]: "keeps T (gets f)"
  by (simp_all add: keeps_def valid_ret valid_throw valid_gets)

lemma keeps_modify: "(\<And>s. T s \<Longrightarrow> T (f s)) \<Longrightarrow> keeps T (modify f)"
  by (simp add: keeps_def valid_modify)

lemma keeps_andThen [keeping]: "keeps T m \<Longrightarrow> (\<And>x. keeps T (f x)) \<Longrightarrow> keeps T (andThen m f)"
  unfolding keeps_def by (rule valid_andThen)

lemma keeps_forEach [keeping]: "(\<And>x. keeps T (f x)) \<Longrightarrow> keeps T (forEach xs f)"
  unfolding keeps_def by (rule valid_forEach)

lemma keeps_collect [keeping]: "(\<And>x. keeps T (f x)) \<Longrightarrow> keeps T (collect xs f)"
  unfolding keeps_def by (rule valid_collect)

lemma keeps_call: "(\<And>s n. T s \<Longrightarrow> T (s\<lparr>rs_calls := n\<rparr>)) \<Longrightarrow> keeps T m \<Longrightarrow> keeps T (call env err m)"
  unfolding keeps_def by (rule valid_call)

lemma keepsD: "keeps T m \<Longrightarrow> T s \<Longrightarrow> T (snd (m s))"
  unfolding keeps_def valid_def by (cases "m s"; cases "fst (m s)") force+

subsection \<open>Counted references\<close>

definition refsOf :: "(string \<rightharpoonup> string list) \<Rightarrow> string \<Rightarrow> nat" where
  "refsOf m d = (\<Sum>r \<in> dom m. count_list (the (m r)) d)"

text \<open>The count of a destination is at least the number of its mentions in the map of routes.\<close>

definition counted :: "(string \<rightharpoonup> int) \<Rightarrow> (string \<rightharpoonup> string list) \<Rightarrow> bool" where
  "counted c m \<longleftrightarrow> finite (dom m) \<and> (\<forall>d. int (refsOf m d) \<le> mapInt c d)"

lemma refsOf_delete:
  assumes "finite (dom m)"
  shows "refsOf m d = refsOf (m(n := None)) d + count_list (case m n of None \<Rightarrow> [] | Some ds \<Rightarrow> ds) d"
proof (cases "m n")
  case (Some ds)
  have "refsOf (m(n := None)) d = (\<Sum>r \<in> dom m - {n}. count_list (the (m r)) d)"
    by (auto simp: refsOf_def intro!: sum.cong)
  moreover have "refsOf m d = count_list (the (m n)) d + (\<Sum>r \<in> dom m - {n}. count_list (the (m r)) d)"
    unfolding refsOf_def using assms Some by (intro sum.remove) auto
  ultimately show ?thesis using Some by simp
qed (simp add: fun_upd_idem)

lemma refsOf_insert:
  assumes "finite (dom m)"
  shows "refsOf (m(n \<mapsto> ds)) d = refsOf (m(n := None)) d + count_list ds d"
  using refsOf_delete [of "m(n \<mapsto> ds)" d n] assms by simp

lemma mapInt_Increment: "mapInt (fold Increment ds c) d = mapInt c d + int (count_list ds d)"
  by (induction ds arbitrary: c) (auto simp: Increment_def mapInt_def)

lemma mapInt_Decrement:
  "(\<And>d. int (count_list ds d) \<le> mapInt c d) \<Longrightarrow> mapInt (fold Decrement ds c) d = mapInt c d - int (count_list ds d)"
proof (induction ds arbitrary: c)
  case (Cons x ds)
  have x: "1 \<le> mapInt c x" using Cons.prems [of x] by simp
  have step: "mapInt (Decrement x c) y = (if y = x then mapInt c x - 1 else mapInt c y)" for y
    using x by (auto simp: Decrement_def mapInt_def)
  have "int (count_list ds y) \<le> mapInt (Decrement x c) y" for y
    using Cons.prems [of y] unfolding step by (auto split: if_splits)
  then show ?case using Cons.IH [of "Decrement x c"] by (auto simp: step)
qed simp

lemma counted_insert:
  assumes "counted c m"
  shows "counted (fold Increment ds c) (m(n \<mapsto> ds))"
proof -
  have fin: "finite (dom m)" and le: "\<And>d. int (refsOf m d) \<le> mapInt c d" using assms by (auto simp: counted_def)
  have "int (refsOf (m(n \<mapsto> ds)) d) \<le> mapInt (fold Increment ds c) d" for d
    using le [of d] refsOf_delete [OF fin, of d n] refsOf_insert [OF fin, of n ds d] by (simp add: mapInt_Increment)
  then show ?thesis using fin by (simp add: counted_def)
qed

lemma counted_delete:
  assumes "counted c m"
  shows "counted (fold Decrement (case m n of None \<Rightarrow> [] | Some ds \<Rightarrow> ds) c) (m(n := None))"
proof -
  let ?ds = "case m n of None \<Rightarrow> [] | Some ds \<Rightarrow> ds"
  have fin: "finite (dom m)" and le: "\<And>d. int (refsOf m d) \<le> mapInt c d" using assms by (auto simp: counted_def)
  note split = refsOf_delete [OF fin, where n = n]
  have "int (count_list ?ds d) \<le> mapInt c d" for d using le [of d] split [of d] by linarith
  then have dec: "mapInt (fold Decrement ?ds c) d = mapInt c d - int (count_list ?ds d)" for d by (rule mapInt_Decrement)
  have "int (refsOf (m(n := None)) d) \<le> mapInt (fold Decrement ?ds c) d" for d
    unfolding dec using le [of d] split [of d] by linarith
  then show ?thesis using fin by (simp add: counted_def)
qed

lemma counted_mention: "counted c m \<Longrightarrow> m r = Some ds \<Longrightarrow> d \<in> set ds \<Longrightarrow> 0 < mapInt c d"
proof -
  assume a: "counted c m" "m r = Some ds" "d \<in> set ds"
  then have "0 < count_list ds d" by (simp add: count_list_0_iff zero_less_iff_neq_zero)
  then have "0 < refsOf m d" using refsOf_delete [of m d r] a by (simp add: counted_def)
  then show ?thesis using a(1) by (simp add: counted_def) (metis of_nat_0_less_iff order_less_le_trans)
qed

lemma forEach_countRef: "forEach ds countRef s = (Inr (), s\<lparr>rs_counts := fold Increment ds (rs_counts s)\<rparr>)"
  by (induction ds arbitrary: s) (simp_all add: countRef_def andThen_def modify_def ret_def)

lemma forEach_discountRef: "forEach ds discountRef s = (Inr (), s\<lparr>rs_counts := fold Decrement ds (rs_counts s)\<rparr>)"
  by (induction ds arbitrary: s) (simp_all add: discountRef_def andThen_def modify_def ret_def)

text \<open>
  The ids of the destinations are distinct and the control plane draws new ones; the references are counted; the
  destinations of \<open>D\<close> are still there.
\<close>

definition tracked :: "env \<Rightarrow> vDestination set \<Rightarrow> RState \<Rightarrow> bool" where
  "tracked env D s \<longleftrightarrow> counted (rs_counts s) (rs_routeDest s) \<and> D \<subseteq> set (rs_dests s) \<and> inj_on vs_ID (set (rs_dests s)) \<and>
     inj (env_newID env) \<and> (\<forall>x \<in> set (rs_dests s). \<forall>n \<ge> rs_fresh s. vs_ID x \<noteq> env_newID env n)"

lemma tracked_frame:
  "tracked env D s \<Longrightarrow> rs_dests t = rs_dests s \<Longrightarrow> rs_fresh s \<le> rs_fresh t \<Longrightarrow>
   counted (rs_counts t) (rs_routeDest t) \<Longrightarrow> tracked env D t"
  by (auto simp: tracked_def)

lemma tracked_counted: "tracked env D s \<Longrightarrow> counted (rs_counts s) (rs_routeDest s)"
  by (simp add: tracked_def)

lemma tracked_create:
  assumes "tracked env D s"
  shows "tracked env D (s\<lparr>rs_fresh := Suc (rs_fresh s), rs_dests := rs_dests s @ [d\<lparr>vs_ID := env_newID env (rs_fresh s)\<rparr>]\<rparr>)"
proof -
  let ?d = "d\<lparr>vs_ID := env_newID env (rs_fresh s)\<rparr>"
  have "vs_ID ?d \<notin> vs_ID ` set (rs_dests s)" using assms by (auto simp: tracked_def dest: sym)
  then have "inj_on vs_ID (insert ?d (set (rs_dests s)))" using assms by (auto simp: tracked_def)
  moreover have "env_newID env (rs_fresh s) \<noteq> env_newID env n" if "Suc (rs_fresh s) \<le> n" for n
    using assms that by (auto simp: tracked_def dest: injD)
  ultimately show ?thesis using assms by (auto simp: tracked_def)
qed

lemma keeps_tracked_call: "keeps (tracked env D) m \<Longrightarrow> keeps (tracked env D) (call env err m)"
  by (rule keeps_call) (simp_all add: tracked_def)

lemma keeps_tracked_modify:
  "(\<And>s. rs_dests (f s) = rs_dests s \<and> rs_fresh (f s) = rs_fresh s \<and> rs_counts (f s) = rs_counts s \<and> rs_routeDest (f s) = rs_routeDest s) \<Longrightarrow>
   keeps (tracked env D) (modify f)"
  by (rule keeps_modify) (simp add: tracked_def)

lemma keeps_tracked_fresh: "keeps (tracked env D) (freshID env)"
  by (simp add: keeps_def valid_def freshID_def tracked_def)

lemma keeps_tracked_calls [keeping]:
  "keeps (tracked env D) (ListRoutes env)" "keeps (tracked env D) (ListGroups env)"
  "keeps (tracked env D) (ListDestinations env)" "keeps (tracked env D) (ListMiddlewares env)"
  "keeps (tracked env D) (UpdateRoute env i r)" "keeps (tracked env D) (DeleteRoute env r)"
  "keeps (tracked env D) (CreateGroup env g)" "keeps (tracked env D) (UpdateGroup env i g)"
  "keeps (tracked env D) (DeleteGroup env g)" "keeps (tracked env D) (CreateMiddleware env mw)"
  "keeps (tracked env D) (DeleteMiddleware env mw)" "keeps (tracked env D) change"
  unfolding ListRoutes_def ListGroups_def ListDestinations_def ListMiddlewares_def UpdateRoute_def DeleteRoute_def
    CreateGroup_def UpdateGroup_def DeleteGroup_def CreateMiddleware_def DeleteMiddleware_def change_def
  by (auto intro!: keeps_tracked_call keeps_tracked_modify keeps_tracked_fresh keeping)

lemma keeps_tracked_CreateRoute [keeping]: "keeps (tracked env D) (CreateRoute env r)"
  unfolding CreateRoute_def Let_def
  by (auto intro!: keeps_tracked_call keeps_tracked_modify keeps_tracked_fresh keeping)

lemma keeps_tracked_CreateDestination [keeping]: "keeps (tracked env D) (CreateDestination env d)"
  unfolding CreateDestination_def
  by (rule keeps_tracked_call) (auto simp: keeps_def valid_def andThen_def freshID_def modify_def tracked_create)

lemma keeps_findByName [keeping]: "keeps T list \<Longrightarrow> keeps T (findByName nameOf idOf list name)"
  unfolding findByName_def by (auto intro!: keeping)

lemma keeps_option [keeping]: "keeps T m \<Longrightarrow> (\<And>x. keeps T (f x)) \<Longrightarrow> keeps T (case y of None \<Rightarrow> m | Some x \<Rightarrow> f x)"
  by (cases y) auto

lemma keeps_tracked_ensure [keeping]:
  "keeps (tracked env D) (ensureDestination env dk)" "keeps (tracked env D) (ensureMiddleware env mw)"
  "keeps (tracked env D) (applyGroup env g)" "keeps (tracked env D) (dropMiddleware env mw)"
  unfolding ensureDestination_def ensureMiddleware_def applyGroup_def dropMiddleware_def by (auto intro!: keeping)

lemma keeps_resolveNames [keeping]: "keeps T (resolveNames ids err names)"
  unfolding resolveNames_def by (auto intro!: keeping)

lemma keeps_tracked_resolve [keeping]:
  "keeps (tracked env D) (resolveDestinationIDs env dks)" "keeps (tracked env D) (resolveMiddlewareIDs env mws)"
  unfolding resolveDestinationIDs_def resolveMiddlewareIDs_def by (auto intro!: keeping)

lemma keeps_after: "(\<And>s. T s \<Longrightarrow> T (g s)) \<Longrightarrow> keeps T m \<Longrightarrow> (\<And>s. m' s = m (g s)) \<Longrightarrow> keeps T m'"
  by (simp add: keeps_def valid_def)

lemma keeps_tracked_book:
  assumes "keeps (tracked env D) (f ())"
  shows "keeps (tracked env D) (andThen (modify (\<lambda>s. s\<lparr>rs_routeDest := (rs_routeDest s)(n \<mapsto> ds)\<rparr>)) (\<lambda>_. andThen (forEach ds countRef) f))"
  by (rule keeps_after [OF _ assms, where g = "\<lambda>s. s\<lparr>rs_routeDest := (rs_routeDest s)(n \<mapsto> ds), rs_counts := fold Increment ds (rs_counts s)\<rparr>"])
    (simp_all add: andThen_def modify_def forEach_countRef tracked_def counted_insert)

lemma keeps_tracked_applyRoute [keeping]: "keeps (tracked env D) (applyRoute env mapped destIDs mwIDs route)"
  unfolding applyRoute_def Let_def by (intro keeping keeps_tracked_book)

text \<open>The names of the destinations are read before the call that deletes the route, which does not change them.\<close>

lemma keeps_tracked_dropRoute [keeping]: "keeps (tracked env D) (dropRoute env route)"
proof -
  let ?ds = "\<lambda>s. case rs_routeDest s (vr_Name route) of None \<Rightarrow> [] | Some ds \<Rightarrow> ds"
  let ?T = "\<lambda>ds s. tracked env D s \<and> ds = ?ds s"
  have del: "valid (?T ds) (DeleteRoute env route) (\<lambda>_. ?T ds) (tracked env D)" for ds
    unfolding DeleteRoute_def by (rule valid_call) (simp_all add: tracked_def valid_modify)
  have chg: "valid (?T ds) change (\<lambda>_. ?T ds) (tracked env D)" for ds
    unfolding change_def by (rule valid_modify) (simp add: tracked_def)
  have book: "valid (?T ds) (andThen (forEach ds discountRef)
      (\<lambda>_. andThen (modify (\<lambda>s. s\<lparr>rs_routeDest := (rs_routeDest s)(vr_Name route := None)\<rparr>)) (\<lambda>_. ret ds)))
      (\<lambda>_. tracked env D) (tracked env D)" for ds
    using counted_delete by (auto simp: valid_def andThen_def forEach_discountRef modify_def ret_def tracked_def)
  show ?thesis unfolding keeps_def dropRoute_def
    by (rule valid_andThen [OF _ valid_andThen [OF del valid_andThen [OF chg book]]]) (rule valid_gets, simp)
qed

subsection \<open>Deleting destinations\<close>

text \<open>Only destinations without a reference are deleted, and the references do not change meanwhile.\<close>

definition pruning :: "vDestination set \<Rightarrow> vDestination list \<Rightarrow> RState \<Rightarrow> bool" where
  "pruning D dests s \<longleftrightarrow> counted (rs_counts s) (rs_routeDest s) \<and> inj_on vs_ID (set dests) \<and> set (rs_dests s) \<subseteq> set dests \<and>
     (\<forall>x \<in> D. x \<in> set (rs_dests s) \<or> mapInt (rs_counts s) (vs_Name x) \<le> 0)"

definition pruned :: "vDestination set \<Rightarrow> RState \<Rightarrow> bool" where
  "pruned D s \<longleftrightarrow> counted (rs_counts s) (rs_routeDest s) \<and> inj_on vs_ID (set (rs_dests s)) \<and>
     (\<forall>x \<in> D. x \<in> set (rs_dests s) \<or> mapInt (rs_counts s) (vs_Name x) \<le> 0)"

lemma pruned_tracked: "tracked env D s \<Longrightarrow> pruned D s"
  by (auto simp: tracked_def pruned_def)

lemma pruned_pruning: "pruning D dests s \<Longrightarrow> pruned D s"
  by (auto simp: pruning_def pruned_def intro: inj_on_subset)

lemma keeps_pruning_drop: "keeps (pruning D dests) (dropDestination env dests dn)"
proof -
  let ?P = "\<lambda>s. pruning D dests s \<and> mapInt (rs_counts s) dn \<le> 0"
  have del: "valid ?P (DeleteDestination env d) (\<lambda>_. pruning D dests) (pruning D dests)" if "d \<in> set dests" "vs_Name d = dn" for d
  proof -
    have same: "x = d" if "pruning D dests s" "x \<in> set (rs_dests s)" "vs_ID x = vs_ID d" for s x
      using that \<open>d \<in> set dests\<close> by (auto simp: pruning_def dest: inj_onD)
    have "pruning D dests (s\<lparr>rs_dests := filter (\<lambda>x. vs_ID x \<noteq> vs_ID d) (rs_dests s)\<rparr>)" if "?P s" for s
      using that same [of s] \<open>vs_Name d = dn\<close> by (auto simp: pruning_def)
    then show ?thesis unfolding DeleteDestination_def by (intro valid_call valid_modify) (simp_all add: pruning_def)
  qed
  have chg: "valid (pruning D dests) change (\<lambda>_. pruning D dests) (pruning D dests)"
    unfolding change_def by (rule valid_modify) (simp add: pruning_def)
  have body: "valid ?P (case find (\<lambda>d. vs_Name d = dn) dests of None \<Rightarrow> ret ()
      | Some d \<Rightarrow> andThen (DeleteDestination env d) (\<lambda>_. change)) (\<lambda>_. pruning D dests) (pruning D dests)"
  proof (cases "find (\<lambda>d. vs_Name d = dn) dests")
    case (Some d)
    then have "d \<in> set dests" "vs_Name d = dn" by (auto simp: find_Some_iff)
    then show ?thesis unfolding Some option.case by (rule valid_andThen [OF del chg])
  qed (auto intro!: valid_ret)
  show ?thesis unfolding keeps_def dropDestination_def
  proof (rule valid_andThen)
    show "valid (pruning D dests) (gets (\<lambda>s. mapInt (rs_counts s) dn))
        (\<lambda>n s. pruning D dests s \<and> n = mapInt (rs_counts s) dn) (pruning D dests)"
      by (rule valid_gets) simp
    fix n :: int
    show "valid (\<lambda>s. pruning D dests s \<and> n = mapInt (rs_counts s) dn)
       (if 0 < n then ret () else case find (\<lambda>d. vs_Name d = dn) dests of None \<Rightarrow> ret ()
        | Some d \<Rightarrow> andThen (DeleteDestination env d) (\<lambda>_. change)) (\<lambda>_. pruning D dests) (pruning D dests)"
      by (cases "0 < n") (auto intro!: valid_ret valid_weaken [OF body])
  qed
qed

lemma prune_dests:
  "valid (tracked env D) (andThen (ListDestinations env) (\<lambda>dests. forEach (names dests) (dropDestination env dests)))
     (\<lambda>_. pruned D) (pruned D)"
proof (rule valid_andThen)
  show "valid (tracked env D) (ListDestinations env) (\<lambda>dests. pruning D dests) (pruned D)"
    unfolding ListDestinations_def
    by (rule valid_call) (auto simp: tracked_def pruning_def pruned_def intro!: valid_gets intro: inj_on_subset)
  show "valid (pruning D dests) (forEach (names dests) (dropDestination env dests)) (\<lambda>_. pruned D) (pruned D)" for dests
    by (rule valid_weaken [OF keeps_forEach [OF keeps_pruning_drop, unfolded keeps_def]]) (auto intro: pruned_pruning)
qed

lemma valid_keeps: "keeps T m \<Longrightarrow> (\<And>s. T s \<Longrightarrow> E s) \<Longrightarrow> (\<And>x. valid T (f x) Q E) \<Longrightarrow> valid T (andThen m f) Q E"
  unfolding keeps_def by (rule valid_andThen) (auto elim: valid_weaken)

lemma keeps_tracked_reset [keeping]: "keeps (tracked env D) (modify (\<lambda>s. s\<lparr>rs_changes := 0\<rparr>))"
  by (rule keeps_tracked_modify) simp

lemma ApplyHTTPRoute_prunes: "valid (tracked env D) (ApplyHTTPRoute env mapped) (\<lambda>_. pruned D) (pruned D)"
  unfolding ApplyHTTPRoute_def Let_def
  by (intro valid_keeps pruned_tracked keeping) (auto intro!: valid_ret prune_dests intro: pruned_tracked)

lemma DeleteHTTPRoute_prunes: "valid (tracked env D) (DeleteHTTPRoute env namespace name) (\<lambda>_. pruned D) (pruned D)"
  unfolding DeleteHTTPRoute_def Let_def
  by (rule prune_dests | rule valid_keeps, (intro keeping)[1], erule pruned_tracked)+

subsection \<open>Runs of the reconciler\<close>

lemma keeps_tracked_drop [keeping]: "keeps (tracked env {}) (dropDestination env dests dn)"
proof -
  have "keeps (tracked env {}) (DeleteDestination env d)" for d
    unfolding DeleteDestination_def
    by (intro keeps_tracked_call keeps_modify) (auto simp: tracked_def intro: inj_on_subset)
  then show ?thesis unfolding dropDestination_def by (auto intro!: keeping)
qed

lemma keeps_tracked_Apply: "keeps (tracked env {}) (ApplyHTTPRoute env mapped)"
  unfolding ApplyHTTPRoute_def Let_def by (auto intro!: keeping)

lemma keeps_tracked_Delete: "keeps (tracked env {}) (DeleteHTTPRoute env namespace name)"
  unfolding DeleteHTTPRoute_def Let_def by (auto intro!: keeping)

lemma andThen_ret: "andThen m ret = m"
  by (auto simp: andThen_def ret_def fun_eq_iff split: prod.splits sum.splits)

lemma keeps_tracked_Init: "keeps (tracked env D) (Init env)"
proof -
  have new: "keeps (tracked env D) (modify NewReconciler)"
    by (rule keeps_modify) (simp add: tracked_def NewReconciler_def counted_def refsOf_def mapInt_def)
  have book: "keeps (tracked env D) (andThen (modify (\<lambda>s. s\<lparr>rs_routeDest := (rs_routeDest s)(n \<mapsto> ds)\<rparr>)) (\<lambda>_. forEach ds countRef))" for n ds
    using keeps_tracked_book [of env D ret n ds] by (simp add: andThen_ret keeps_ret)
  show ?thesis unfolding Init_def Let_def
    by (rule keeps_andThen [OF keeps_tracked_calls(1)], rule keeps_andThen [OF keeps_tracked_calls(3)],
        rule keeps_andThen [OF new], rule keeps_forEach, rule book)
qed

text \<open>
  The states a controller reaches: from an empty reconciler, by its operations with any replies, and by other clients
  of the control plane, which keep the ids of the destinations distinct.
\<close>

definition ids_wf :: "env \<Rightarrow> RState \<Rightarrow> bool" where
  "ids_wf env s \<longleftrightarrow> inj_on vs_ID (set (rs_dests s)) \<and> inj (env_newID env) \<and>
     (\<forall>x \<in> set (rs_dests s). \<forall>n \<ge> rs_fresh s. vs_ID x \<noteq> env_newID env n)"

inductive rec_reach :: "env \<Rightarrow> RState \<Rightarrow> bool" for env where
  start: "ids_wf env s \<Longrightarrow> rec_reach env (NewReconciler s)"
| init: "rec_reach env s \<Longrightarrow> rec_reach env (snd (Init env s))"
| apply_route: "rec_reach env s \<Longrightarrow> rec_reach env (snd (ApplyHTTPRoute env mapped s))"
| delete_route: "rec_reach env s \<Longrightarrow> rec_reach env (snd (DeleteHTTPRoute env namespace name s))"
| others: "rec_reach env s \<Longrightarrow> ids_wf env t \<Longrightarrow> rs_counts t = rs_counts s \<Longrightarrow> rs_routeDest t = rs_routeDest s \<Longrightarrow> rec_reach env t"

lemma rec_reach_tracked: "rec_reach env s \<Longrightarrow> tracked env {} s"
proof (induction rule: rec_reach.induct)
  case (start s) then show ?case
    by (simp add: tracked_def ids_wf_def NewReconciler_def counted_def refsOf_def mapInt_def)
next
  case (init s) then show ?case by (auto intro: keepsD [OF keeps_tracked_Init])
next
  case (apply_route s mapped) then show ?case by (auto intro: keepsD [OF keeps_tracked_Apply])
next
  case (delete_route s namespace name) then show ?case by (auto intro: keepsD [OF keeps_tracked_Delete])
next
  case (others s t) then show ?case by (simp add: tracked_def ids_wf_def)
qed

lemma validD: "valid P m (\<lambda>_. Q) Q \<Longrightarrow> P s \<Longrightarrow> Q (snd (m s))"
  unfolding valid_def by (cases "m s"; cases "fst (m s)") force+

lemma pruned_mentioned:
  "pruned D s \<Longrightarrow> rs_routeDest s r = Some ds \<Longrightarrow> vs_Name x \<in> set ds \<Longrightarrow> x \<in> D \<Longrightarrow> x \<in> set (rs_dests s)"
  using counted_mention by (fastforce simp: pruned_def)

lemma pruned_by_ops:
  assumes "rec_reach env s" "m = ApplyHTTPRoute env mapped \<or> m = DeleteHTTPRoute env namespace name"
  shows "pruned (set (rs_dests s)) (snd (m s))"
proof -
  have "tracked env (set (rs_dests s)) s" using rec_reach_tracked [OF assms(1)] by (simp add: tracked_def)
  then show ?thesis
    using assms(2) validD [OF ApplyHTTPRoute_prunes] validD [OF DeleteHTTPRoute_prunes] by blast
qed

text \<open>C5: no matter which calls of the control plane fail, neither applying nor deleting a route ever deletes a
  destination that the reconciler has booked for a route that remains. This holds in every state a controller reaches,
  with other clients changing the control plane in between.\<close>

theorem booked_destinations_survive:
  assumes "rec_reach env s" "m = ApplyHTTPRoute env mapped \<or> m = DeleteHTTPRoute env namespace name"
    and "rs_routeDest (snd (m s)) r = Some ds" "vs_Name x \<in> set ds" "x \<in> set (rs_dests s)"
  shows "x \<in> set (rs_dests (snd (m s)))"
  using pruned_mentioned [OF pruned_by_ops [OF assms(1,2)] assms(3-5)] .

definition calm :: env where
  "calm = \<lparr>env_reply = (\<lambda>n. Answered), env_newID = (\<lambda>n. ''i'' @ decimal n)\<rparr>"

definition emptyState :: RState where
  "emptyState = \<lparr>rs_routes = [], rs_groups = [], rs_dests = [], rs_mws = [], rs_listeners = [], rs_fresh = 0, rs_calls = 0,
     rs_counts = Map.empty, rs_routeDest = Map.empty, rs_changes = 0\<rparr>"

definition toBackends :: "string \<Rightarrow> string list \<Rightarrow> MappedEntities" where
  "toBackends name services =
     MapHTTPRoute \<lparr>hi_Name = name, hi_Namespace = ''n'', hi_Hostnames = [],
       hi_Rules = map (\<lambda>b. \<lparr>ri_Matches = [],
         ri_BackendRefs = [\<lparr>br_ServiceName = b, br_ServiceNamespace = ''n'', br_Port = 1, br_Weight = 1\<rparr>],
         ri_Filters = []\<rparr>) services\<rparr>"

lemma calm_start: "rec_reach calm emptyState"
proof -
  have "ids_wf calm emptyState" by (auto simp: ids_wf_def calm_def emptyState_def inj_def dest: decimal_inj)
  from rec_reach.start [OF this] show ?thesis by (simp add: NewReconciler_def emptyState_def)
qed

theorem booked_destinations_survive_witness:
  "let s = snd (ApplyHTTPRoute calm (toBackends ''r'' [''a'']) emptyState);
       x = \<lparr>vs_ID = ''i0'', vs_Name = ''k8s:n/a:1'', vs_Host = ''a.n.svc.cluster.local'', vs_Port = 1\<rparr> in
   rec_reach calm s \<and> x \<in> set (rs_dests s) \<and> x \<in> set (rs_dests (snd (DeleteHTTPRoute calm ''n'' ''z'' s)))"
proof -
  let ?s = "snd (ApplyHTTPRoute calm (toBackends ''r'' [''a'']) emptyState)"
  let ?x = "\<lparr>vs_ID = ''i0'', vs_Name = ''k8s:n/a:1'', vs_Host = ''a.n.svc.cluster.local'', vs_Port = 1\<rparr>"
  have r: "rec_reach calm ?s" using calm_start by (rule rec_reach.apply_route)
  have x: "?x \<in> set (rs_dests ?s)" by code_simp
  have b: "rs_routeDest (snd (DeleteHTTPRoute calm ''n'' ''z'' ?s)) ''k8s:n/r/rule-0/match-0'' = Some [''k8s:n/a:1'']"
    by code_simp
  have "?x \<in> set (rs_dests (snd (DeleteHTTPRoute calm ''n'' ''z'' ?s)))"
    by (rule booked_destinations_survive [where m = "DeleteHTTPRoute calm ''n'' ''z''", OF r disjI2 [OF refl] b _ x]) simp
  then show ?thesis using r x by (simp only: Let_def)
qed

text \<open>
  What is booked is not what the routes use. A restart books the destinations each route has; a route that was edited
  meanwhile is updated without being booked for its new destination; and when another route of the same resource goes,
  the destination goes with it and the updated route is left with the id of nothing.
\<close>

definition toPort :: "uint32 \<Rightarrow> string \<Rightarrow> vRoute" where
  "toPort p i = \<lparr>vr_ID = '''', vr_Name = ''k8s:g/'' @ i, vr_Match = Map.empty,
     vr_Forward = Some \<lparr>vf_destinations = Some (MapSlice [\<lparr>vd_destinationId = Some (''k8s:/:'' @ decimal (unat p)), vd_weight = 1\<rparr>]),
                        vf_rewrite = None\<rparr>,
     vr_Redirect = None, vr_MiddlewareIDs = []\<rparr>"

definition ruleSet :: "(uint32 \<times> string) list \<Rightarrow> MappedEntities" where
  "ruleSet ps = \<lparr>me_Group = \<lparr>vg_ID = '''', vg_Name = ''k8s:g'', vg_RouteIDs = [], vg_Hostnames = []\<rparr>,
     me_Routes = map (\<lambda>(p, i). toPort p i) ps,
     me_Destinations = map (\<lambda>(p, i). \<lparr>dk_Name = '''', dk_Namespace = '''', dk_Port = p\<rparr>) ps, me_Middlewares = []\<rparr>"

definition storedRoute :: "string \<Rightarrow> string \<Rightarrow> string \<Rightarrow> vRoute" where
  "storedRoute i name d = \<lparr>vr_ID = i, vr_Name = name, vr_Match = Map.empty,
     vr_Forward = Some \<lparr>vf_destinations = Some (AnySlice [Some \<lparr>vd_destinationId = Some d, vd_weight = 1\<rparr>]), vf_rewrite = None\<rparr>,
     vr_Redirect = None, vr_MiddlewareIDs = []\<rparr>"

definition afterRestart :: RState where
  "afterRestart = snd (Init calm (emptyState\<lparr>
     rs_routes := [storedRoute ''i2'' ''k8s:g/0'' ''i0'', storedRoute ''i3'' ''k8s:g/1'' ''i1''],
     rs_groups := [\<lparr>vg_ID = ''i4'', vg_Name = ''k8s:g'', vg_RouteIDs = [''i2'', ''i3''], vg_Hostnames = []\<rparr>],
     rs_dests := [\<lparr>vs_ID = ''i0'', vs_Name = ''k8s:/:1'', vs_Host = '''', vs_Port = 1\<rparr>,
                  \<lparr>vs_ID = ''i1'', vs_Name = ''k8s:/:2'', vs_Host = '''', vs_Port = 2\<rparr>],
     rs_fresh := 5\<rparr>))"

lemma update_leaves_dangling_route:
  "map extractDestinationNames (rs_routes (snd (ApplyHTTPRoute calm (ruleSet [(2, ''0'')]) afterRestart))) = [[''i1'']]"
  "map vs_ID (rs_dests (snd (ApplyHTTPRoute calm (ruleSet [(2, ''0'')]) afterRestart))) = [''i0'']"
  by code_simp+

text \<open>Applying a route that is in place counts as a change, which leads to a new snapshot.\<close>

lemma reapply_is_a_change:
  "rs_changes (snd (ApplyHTTPRoute calm (ruleSet [(1, ''0'')])
     (snd (ApplyHTTPRoute calm (ruleSet [(1, ''0'')]) emptyState)))) = 2"
  by code_simp

end
