(* ===== verification/Controller.thy ===== *)
theory Controller
  imports Go_Prelude
begin

text \<open>
  Two parts of the Kubernetes controller (\<^verbatim>\<open>clients/controller/internal\<close>): the batcher that turns changes into
  snapshots (\<^verbatim>\<open>batcher/batcher.go\<close>), with its timer and the callbacks that wait for the lock as a step relation, and the
  check of references across namespaces (\<^verbatim>\<open>refgrant/checker.go\<close>). The client of the control plane is a
  parameter: what it answers to creating and to activating a snapshot.
\<close>

subsection \<open>The batcher\<close>

text \<open>A timer is armed or has expired; an expired timer stays in the struct until the next flush.\<close>

datatype timer = Armed | Expired

record Batcher =
  bt_maxBatch :: int
  bt_pending :: int
  bt_timer :: "timer option"
  bt_counter :: int

definition NewBatcher :: "int \<Rightarrow> Batcher" where
  "NewBatcher maxBatch = \<lparr>bt_maxBatch = maxBatch, bt_pending = 0, bt_timer = None, bt_counter = 0\<rparr>"

definition flushLocked :: "string option \<Rightarrow> bool \<Rightarrow> Batcher \<Rightarrow> Batcher" where
  "flushLocked created activated b =
     (let b = b\<lparr>bt_timer := None\<rparr> in
      case created of
        None \<Rightarrow> b
      | Some i \<Rightarrow> if \<not> activated then b else b\<lparr>bt_pending := 0\<rparr>)"

definition Signal :: "string option \<Rightarrow> bool \<Rightarrow> Batcher \<Rightarrow> Batcher" where
  "Signal created activated b =
     (let b = b\<lparr>bt_pending := bt_pending b + 1, bt_counter := bt_counter b + 1\<rparr> in
      if bt_pending b \<ge> bt_maxBatch b then flushLocked created activated b
      else b\<lparr>bt_timer := Some Armed\<rparr>)"

definition Flush :: "string option \<Rightarrow> bool \<Rightarrow> Batcher \<Rightarrow> Batcher" where
  "Flush created activated b = (if bt_pending b > 0 then flushLocked created activated b else b)"

text \<open>
  A batcher and the number of callbacks of expired timers that wait for the lock. \<open>ok\<close> says whether all calls of
  the control plane succeed.
\<close>

inductive bt_step :: "bool \<Rightarrow> Batcher \<times> nat \<Rightarrow> Batcher \<times> nat \<Rightarrow> bool" for ok where
  signal: "(ok \<Longrightarrow> created \<noteq> None \<and> activated) \<Longrightarrow> bt_step ok (b, w) (Signal created activated b, w)"
| expire: "bt_timer b = Some Armed \<Longrightarrow> bt_step ok (b, w) (b\<lparr>bt_timer := Some Expired\<rparr>, Suc w)"
| callback: "(ok \<Longrightarrow> created \<noteq> None \<and> activated) \<Longrightarrow> bt_step ok (b, Suc w) (Flush created activated b, w)"
| flush: "(ok \<Longrightarrow> created \<noteq> None \<and> activated) \<Longrightarrow> bt_step ok (b, w) (Flush created activated b, w)"

inductive_cases bt_stepE: "bt_step ok (b, w) (b', w')"

definition bt_reachable :: "bool \<Rightarrow> int \<Rightarrow> Batcher \<times> nat \<Rightarrow> bool" where
  "bt_reachable ok maxBatch = (bt_step ok)\<^sup>*\<^sup>* (NewBatcher maxBatch, 0)"

subsection \<open>References across namespaces\<close>

record grantFrom =
  gf_Group :: string
  gf_Kind :: string
  gf_Namespace :: string

record grantTo =
  gt_Group :: string
  gt_Kind :: string
  gt_Name :: "string option"

record ReferenceGrant =
  rg_From :: "grantFrom list"
  rg_To :: "grantTo list"

definition matchesGrant :: "ReferenceGrant \<Rightarrow> string \<Rightarrow> bool" where
  "matchesGrant grant sourceNamespace =
     (list_ex (\<lambda>from. gf_Group from = ''gateway.networking.k8s.io'' \<and> gf_Kind from = ''HTTPRoute'' \<and>
                 gf_Namespace from = sourceNamespace) (rg_From grant) \<and>
      list_ex (\<lambda>to. gt_Group to = '''' \<and> gt_Kind to = ''Service'') (rg_To grant))"

text \<open>\<open>list\<close> are the grants of a namespace, \<open>None\<close> if they cannot be listed; the result is \<open>None\<close> for an error.\<close>

definition AllowedBackendRef :: "(string \<Rightarrow> ReferenceGrant list option) \<Rightarrow> string \<Rightarrow> string \<Rightarrow> string \<Rightarrow> bool option" where
  "AllowedBackendRef list sourceNamespace targetNamespace targetName =
     (if sourceNamespace = targetNamespace then Some True
      else map_option (list_ex (\<lambda>grant. matchesGrant grant sourceNamespace)) (list targetNamespace))"

subsection \<open>Lemmas\<close>

lemma flushLocked_ok: "created \<noteq> None \<and> activated \<Longrightarrow> bt_pending (flushLocked created activated b) = 0"
  by (auto simp: flushLocked_def)

text \<open>Pending changes wait for a timer or for a callback.\<close>

definition attended :: "Batcher \<times> nat \<Rightarrow> bool" where
  "attended x \<longleftrightarrow> 0 \<le> bt_pending (fst x) \<and> (bt_pending (fst x) > 0 \<longrightarrow> bt_timer (fst x) = Some Armed \<or> snd x > 0)"

lemma attended_step: "bt_step True x y \<Longrightarrow> attended x \<Longrightarrow> attended y"
  by (induction rule: bt_step.induct) (auto simp: attended_def Signal_def Flush_def flushLocked_ok Let_def)

lemma attended_reachable: "bt_reachable True maxBatch x \<Longrightarrow> attended x"
  unfolding bt_reachable_def
  by (induction rule: rtranclp_induct) (auto simp: attended_step, simp add: attended_def NewBatcher_def)

lemma callback_clears: "bt_step True (b, Suc w) (Flush (Some i) True b, w)"
  by (rule bt_step.callback) simp

lemma Flush_clears: "0 \<le> bt_pending b \<Longrightarrow> bt_pending (Flush (Some i) True b) = 0"
  by (simp add: Flush_def flushLocked_def)

subsection \<open>Properties\<close>



text \<open>A flush that fails drops the timer: the changes wait for the next signal.\<close>

lemma failed_flush_strands_changes:
  "bt_reachable False 1 (Signal None False (NewBatcher 1), 0)"
  "bt_pending (Signal None False (NewBatcher 1)) = 1" "bt_timer (Signal None False (NewBatcher 1)) = None"
proof -
  have "bt_step False (NewBatcher 1, 0) (Signal None False (NewBatcher 1), 0)" by (rule bt_step.signal) simp
  then show "bt_reachable False 1 (Signal None False (NewBatcher 1), 0)" by (simp add: bt_reachable_def)
qed (simp_all add: Signal_def flushLocked_def NewBatcher_def)

text \<open>A grant for one service lets every service of its namespace be used.\<close>

lemma grant_name_ignored:
  "AllowedBackendRef list source target name = AllowedBackendRef list source target name'"
  by (simp add: AllowedBackendRef_def)

end
