(* ===== verification/Sync.thy ===== *)
theory Sync
  imports Work_Queue Dedup Reconciler Controller
begin

text \<open>
  The reconcile loop of the controller (\<^verbatim>\<open>clients/controller/cmd/controller/main.go\<close>), which composes the work queue,
  the check of references, the detector of overlaps, the mapper, the reconciler and the batcher. Kubernetes is a
  parameter: what the informer cache lists and returns. So are the answers of the control plane to the batcher.
\<close>

subsection \<open>State and parameters\<close>

type_synonym annotations = "string \<rightharpoonup> string"

record K8s =
  k_HTTPRoutes :: "(RouteRef \<times> annotations) list option"
  k_SuperHTTPRoutes :: "(RouteRef \<times> annotations) list option"
  k_Gateways :: "gwGateway list option"
  k_getHTTPRoute :: "string \<Rightarrow> string \<Rightarrow> HTTPRouteSpec option"
  k_getSuperHTTPRoute :: "string \<Rightarrow> string \<Rightarrow> HTTPRouteSpec option"
  k_grants :: "string \<Rightarrow> ReferenceGrant list option"
  k_snapshot :: "Batcher \<Rightarrow> string option \<times> bool"

record ctlConfig =
  cc_WatchHTTPRoutes :: bool
  cc_WatchSuperHTTPRoutes :: bool
  cc_WatchGateways :: bool
  cc_RejectDuplicates :: bool
  cc_RejectIncomplete :: bool
  cc_BatchIdleTimeout :: duration

datatype status_write = ResolvedRefs RouteRef bool | Accepted RouteRef bool string

record ctl =
  ct_rec :: RState
  ct_queue :: Queue
  ct_known :: "string set"
  ct_bat :: Batcher
  ct_det :: "Detector option"
  ct_status :: "status_write list"

datatype single_result = NotFound | DeniedRef | OverlappingRoute | ApplyFailed rec_error | Applied int

definition signal :: "K8s \<Rightarrow> ctl \<Rightarrow> ctl" where
  "signal k s = s\<lparr>ct_bat := Signal (fst (k_snapshot k (ct_bat s))) (snd (k_snapshot k (ct_bat s))) (ct_bat s)\<rparr>"

definition signals :: "K8s \<Rightarrow> int \<Rightarrow> ctl \<Rightarrow> ctl" where
  "signals k n s = (signal k ^^ nat n) s"

definition flush :: "K8s \<Rightarrow> ctl \<Rightarrow> ctl" where
  "flush k s = s\<lparr>ct_bat := Flush (fst (k_snapshot k (ct_bat s))) (snd (k_snapshot k (ct_bat s))) (ct_bat s)\<rparr>"

definition writeStatus :: "status_write \<Rightarrow> ctl \<Rightarrow> ctl" where
  "writeStatus w s = s\<lparr>ct_status := ct_status s @ [w]\<rparr>"

subsection \<open>One route\<close>

definition backendAllowed :: "K8s \<Rightarrow> string \<Rightarrow> BackendRefInput \<Rightarrow> bool" where
  "backendAllowed k namespace b =
     (br_ServiceNamespace b = namespace \<or>
      AllowedBackendRef (k_grants k) namespace (br_ServiceNamespace b) (br_ServiceName b) = Some True)"

definition refsDenied :: "K8s \<Rightarrow> string \<Rightarrow> HTTPRouteInput \<Rightarrow> bool" where
  "refsDenied k namespace input =
     list_ex (\<lambda>rule. list_ex (\<lambda>b. \<not> backendAllowed k namespace b) (ri_BackendRefs rule)) (hi_Rules input)"

definition applyInput :: "env \<Rightarrow> K8s \<Rightarrow> RouteRef \<Rightarrow> HTTPRouteInput \<Rightarrow> ctl \<Rightarrow> single_result \<times> ctl" where
  "applyInput env k ref input s =
     (let status = (\<lambda>w s. if rr_Super ref then s else writeStatus w s) in
      case ApplyHTTPRoute env (MapHTTPRoute input) (ct_rec s) of
        (Inl e, r) \<Rightarrow> (ApplyFailed e, status (Accepted ref False ''SyncFailed'') (s\<lparr>ct_rec := r\<rparr>))
      | (Inr _, r) \<Rightarrow>
          (Applied (rs_changes r),
           if rs_changes r > 0 then status (Accepted ref True ''Synced'') (signals k (rs_changes r) (s\<lparr>ct_rec := r\<rparr>))
           else s\<lparr>ct_rec := r\<rparr>))"

definition checkInput :: "env \<Rightarrow> K8s \<Rightarrow> ctlConfig \<Rightarrow> RouteRef \<Rightarrow> HTTPRouteInput \<Rightarrow> ctl \<Rightarrow> single_result \<times> ctl" where
  "checkInput env k cfg ref input s =
     (case ct_det s of
        None \<Rightarrow> applyInput env k ref input s
      | Some d \<Rightarrow>
          (let (ols, d') = Check input d; s = s\<lparr>ct_det := Some d'\<rparr> in
           if length ols > 0 \<and> cc_RejectDuplicates cfg
           then (OverlappingRoute, if rr_Super ref then s else writeStatus (Accepted ref False ''OverlappingRoute'') s)
           else applyInput env k ref input s))"

definition reconcileSingleRoute :: "env \<Rightarrow> K8s \<Rightarrow> ctlConfig \<Rightarrow> RouteRef \<Rightarrow> ctl \<Rightarrow> single_result \<times> ctl" where
  "reconcileSingleRoute env k cfg ref s =
     (if rr_Super ref then
        (case k_getSuperHTTPRoute k (rr_Namespace ref) (rr_Name ref) of
           None \<Rightarrow> (NotFound, s)
         | Some spec \<Rightarrow> checkInput env k cfg ref (httpRouteSpecToInput (rr_Namespace ref) (rr_Name ref) spec) s)
      else
        (case k_getHTTPRoute k (rr_Namespace ref) (rr_Name ref) of
           None \<Rightarrow> (NotFound, s)
         | Some spec \<Rightarrow>
             (let input = httpRouteSpecToInput (rr_Namespace ref) (rr_Name ref) spec in
              if refsDenied k (rr_Namespace ref) input then (DeniedRef, writeStatus (ResolvedRefs ref False) s)
              else checkInput env k cfg ref input s)))"

subsection \<open>Gateways\<close>

definition lift :: "'a act \<Rightarrow> ctl \<Rightarrow> (rec_error + 'a) \<times> ctl" where
  "lift m s = (case m (ct_rec s) of (x, r) \<Rightarrow> (x, s\<lparr>ct_rec := r\<rparr>))"

definition syncListener :: "env \<Rightarrow> K8s \<Rightarrow> vListener \<Rightarrow> ctl \<Rightarrow> ctl" where
  "syncListener env k l s =
     (case lift (findByName vl_Name vl_ID (ListListeners env) (vl_Name l)) s of
        (Inl e, s) \<Rightarrow> s
      | (Inr (Some i), s) \<Rightarrow> s
      | (Inr None, s) \<Rightarrow> (case lift (CreateListener env l) s of (Inl e, s) \<Rightarrow> s | (Inr _, s) \<Rightarrow> signal k s))"

definition dropListener :: "env \<Rightarrow> K8s \<Rightarrow> string \<Rightarrow> ctl \<Rightarrow> ctl" where
  "dropListener env k name s =
     (case lift (DeleteListenerByName env name) s of (Inl e, s) \<Rightarrow> s | (Inr n, s) \<Rightarrow> signals k n s)"

definition syncAllGateways :: "env \<Rightarrow> K8s \<Rightarrow> ctl \<Rightarrow> ctl" where
  "syncAllGateways env k s =
     (case k_Gateways k of
        None \<Rightarrow> s
      | Some gateways \<Rightarrow>
          (let listeners = concat (map (\<lambda>gw. MapGateway (gatewayToInput gw)) gateways);
               s = fold (syncListener env k) listeners s in
           case lift (OwnedListenerNames env) s of
             (Inl e, s) \<Rightarrow> s
           | (Inr ownedNames, s) \<Rightarrow>
               fold (dropListener env k) (filter (\<lambda>n. n \<notin> set (map vl_Name listeners)) ownedNames) s))"

subsection \<open>Garbage collection\<close>

definition parseGroupName :: "string \<Rightarrow> (string \<times> string) option" where
  "parseGroupName g =
     (if \<not> hasPrefix g ''k8s:'' then None
      else let rest = drop 4 g in
           case indexByte (CHR ''/'') rest of
             None \<Rightarrow> None
           | Some idx \<Rightarrow> Some (take idx rest, drop (Suc idx) rest))"

definition gcGroup :: "env \<Rightarrow> K8s \<Rightarrow> string set \<Rightarrow> string \<Rightarrow> ctl \<Rightarrow> ctl" where
  "gcGroup env k desiredGroups g s =
     (if g \<in> desiredGroups then s
      else case parseGroupName g of
             None \<Rightarrow> s
           | Some (ns, name) \<Rightarrow>
               (case lift (DeleteHTTPRoute env ns name) s of
                  (Inl e, s) \<Rightarrow> s
                | (Inr _, s) \<Rightarrow> if rs_changes (ct_rec s) > 0 then signals k (rs_changes (ct_rec s)) s else s))"

definition gcOrphanedGroups :: "env \<Rightarrow> K8s \<Rightarrow> string set \<Rightarrow> ctl \<Rightarrow> ctl" where
  "gcOrphanedGroups env k desiredGroups s =
     (case lift (OwnedGroupNames env) s of
        (Inl e, s) \<Rightarrow> s
      | (Inr ownedGroups, s) \<Rightarrow> fold (gcGroup env k desiredGroups) ownedGroups s)"

subsection \<open>A cycle\<close>

definition observeAll :: "time \<Rightarrow> (RouteRef \<times> annotations) list \<Rightarrow> ctl \<times> string set \<Rightarrow> ctl \<times> string set" where
  "observeAll now routes s =
     fold (\<lambda>(ref, ann) (s, desired).
             let (q, known) = observeRoute (now, ref, ann) (ct_queue s, ct_known s) in
             (s\<lparr>ct_queue := q, ct_known := known\<rparr>, insert (groupName (rr_Namespace ref) (rr_Name ref)) desired)) routes s"

definition populate :: "time \<Rightarrow> K8s \<Rightarrow> ctlConfig \<Rightarrow> ctl \<Rightarrow> ctl \<times> string set" where
  "populate now k cfg s =
     (let x = (case k_HTTPRoutes k of
                 Some routes \<Rightarrow> if cc_WatchHTTPRoutes cfg then observeAll now routes (s, {}) else (s, {})
               | None \<Rightarrow> (s, {})) in
      case k_SuperHTTPRoutes k of
        Some routes \<Rightarrow> if cc_WatchSuperHTTPRoutes cfg then observeAll now routes x else x
      | None \<Rightarrow> x)"

definition pop :: "ctl \<Rightarrow> ctl" where
  "pop s = s\<lparr>ct_queue := snd (Pop (ct_queue s))\<rparr>"

text \<open>The head of the queue; the result says whether it is a batch that is still accumulating.\<close>

definition processHead :: "env \<Rightarrow> time \<Rightarrow> K8s \<Rightarrow> ctlConfig \<Rightarrow> ctl \<Rightarrow> bool \<times> ctl" where
  "processHead env now k cfg s =
     (case Head (ct_queue s) of
        None \<Rightarrow> (False, s)
      | Some (KindSingle ref) \<Rightarrow> (False, pop (snd (reconcileSingleRoute env k cfg ref s)))
      | Some (KindBatch bg) \<Rightarrow>
          if \<not> IsReady now (cc_BatchIdleTimeout cfg) bg then (True, s)
          else if IsIncomplete bg \<and> cc_RejectIncomplete cfg then (False, pop s)
          else (False, pop (flush k (fold (\<lambda>ref s. snd (reconcileSingleRoute env k cfg ref s)) (bg_Members bg) s))))"

text \<open>The group of a route that was processed counts as desired even if the route is not listed any more.\<close>

definition syncCycle :: "env \<Rightarrow> time \<Rightarrow> K8s \<Rightarrow> ctlConfig \<Rightarrow> ctl \<Rightarrow> ctl" where
  "syncCycle env now k cfg s =
     (let s = s\<lparr>ct_det := map_option Reset (ct_det s)\<rparr>;
          (s, desired) = populate now k cfg s;
          (desired, s) = (case Head (ct_queue s) of
                            Some (KindSingle ref) \<Rightarrow>
                              (case fst (reconcileSingleRoute env k cfg ref s) of
                                 Applied n \<Rightarrow> if n > 0 then insert (groupName (rr_Namespace ref) (rr_Name ref)) desired else desired
                               | _ \<Rightarrow> desired, s)
                          | Some (KindBatch bg) \<Rightarrow>
                              (if IsReady now (cc_BatchIdleTimeout cfg) bg \<and> \<not> (IsIncomplete bg \<and> cc_RejectIncomplete cfg)
                               then desired \<union> set (map (\<lambda>ref. groupName (rr_Namespace ref) (rr_Name ref)) (bg_Members bg))
                               else desired, s)
                          | None \<Rightarrow> (desired, s));
          (batchBlocking, s) = processHead env now k cfg s;
          s = (if cc_WatchGateways cfg then syncAllGateways env k s else s) in
      if batchBlocking then s else gcOrphanedGroups env k desired s)"

subsection \<open>References across namespaces\<close>

text \<open>C38: an HTTPRoute reaches the control plane only if every backend is in its own namespace or in a namespace with a
  grant for routes of this one. Otherwise nothing but its status changes: neither the control plane nor the books of
  the reconciler nor the batcher.\<close>

theorem ungranted_route_not_applied:
  assumes "\<not> rr_Super ref" "k_getHTTPRoute k (rr_Namespace ref) (rr_Name ref) = Some spec"
    and "rule \<in> set (hs_Rules spec)" "b \<in> set (gwr_BackendRefs rule)" "gb_Namespace b = Some target" "target \<noteq> rr_Namespace ref"
    and "k_grants k target = None \<or> (\<exists>gs. k_grants k target = Some gs \<and> \<not> list_ex (\<lambda>g. matchesGrant g (rr_Namespace ref)) gs)"
  shows "reconcileSingleRoute env k cfg ref s = (DeniedRef, writeStatus (ResolvedRefs ref False) s) \<and>
    ct_rec (snd (reconcileSingleRoute env k cfg ref s)) = ct_rec s \<and> ct_bat (snd (reconcileSingleRoute env k cfg ref s)) = ct_bat s"
proof -
  let ?b = "backendToInput (rr_Namespace ref) b"
  let ?in = "httpRouteSpecToInput (rr_Namespace ref) (rr_Name ref) spec"
  have "br_ServiceNamespace ?b = target" using assms(5) by (simp add: backendToInput_def)
  then have "\<not> backendAllowed k (rr_Namespace ref) ?b"
    using assms(6,7) by (auto simp: backendAllowed_def AllowedBackendRef_def)
  moreover have "\<exists>r \<in> set (hi_Rules ?in). ?b \<in> set (ri_BackendRefs r)"
    using assms(3,4) by (force simp: httpRouteSpecToInput_def)
  ultimately have "refsDenied k (rr_Namespace ref) ?in" by (auto simp: refsDenied_def list_ex_iff)
  then show ?thesis using assms(1,2) by (simp add: reconcileSingleRoute_def Let_def writeStatus_def)
qed

definition crossSpec :: HTTPRouteSpec where
  "crossSpec = \<lparr>hs_Hostnames = [], hs_Rules = [\<lparr>gwr_Matches = [],
     gwr_BackendRefs = [\<lparr>gb_Name = ''svc'', gb_Namespace = Some ''other'', gb_Port = Some 80, gb_Weight = None\<rparr>], gwr_Filters = []\<rparr>]\<rparr>"

definition crossK8s :: K8s where
  "crossK8s = \<lparr>k_HTTPRoutes = Some [], k_SuperHTTPRoutes = Some [], k_Gateways = Some [],
     k_getHTTPRoute = (\<lambda>ns n. Some crossSpec), k_getSuperHTTPRoute = (\<lambda>ns n. Some crossSpec), k_grants = (\<lambda>ns. Some []),
     k_snapshot = (\<lambda>b. (Some ''s'', True))\<rparr>"

definition newCtl :: ctl where
  "newCtl = \<lparr>ct_rec = emptyState, ct_queue = NewQueue, ct_known = {}, ct_bat = NewBatcher 10, ct_det = Some NewDetector, ct_status = []\<rparr>"

definition watchAll :: ctlConfig where
  "watchAll = \<lparr>cc_WatchHTTPRoutes = True, cc_WatchSuperHTTPRoutes = True, cc_WatchGateways = True, cc_RejectDuplicates = False,
     cc_RejectIncomplete = False, cc_BatchIdleTimeout = 10\<rparr>"

theorem ungranted_route_not_applied_witness:
  "fst (reconcileSingleRoute calm crossK8s watchAll \<lparr>rr_Namespace = ''n'', rr_Name = ''r'', rr_Super = False\<rparr> newCtl) = DeniedRef"
proof -
  let ?ref = "\<lparr>rr_Namespace = ''n'', rr_Name = ''r'', rr_Super = False\<rparr>"
  have "\<not> rr_Super ?ref" "k_getHTTPRoute crossK8s (rr_Namespace ?ref) (rr_Name ?ref) = Some crossSpec"
    "hd (hs_Rules crossSpec) \<in> set (hs_Rules crossSpec)"
    "hd (gwr_BackendRefs (hd (hs_Rules crossSpec))) \<in> set (gwr_BackendRefs (hd (hs_Rules crossSpec)))"
    "gb_Namespace (hd (gwr_BackendRefs (hd (hs_Rules crossSpec)))) = Some ''other''" "''other'' \<noteq> rr_Namespace ?ref"
    "k_grants crossK8s ''other'' = None \<or> (\<exists>gs. k_grants crossK8s ''other'' = Some gs \<and> \<not> list_ex (\<lambda>g. matchesGrant g (rr_Namespace ?ref)) gs)"
    by (simp_all add: crossK8s_def crossSpec_def)
  from ungranted_route_not_applied [OF this, of calm watchAll newCtl] show ?thesis by simp
qed

text \<open>A SuperHTTPRoute with the same specification needs no grant.\<close>

lemma applyInput_grants: "applyInput env (k\<lparr>k_grants := gs\<rparr>) = applyInput env k"
proof -
  have *: "signals (k\<lparr>k_grants := gs\<rparr>) = signals k" by (simp add: signals_def [abs_def] signal_def [abs_def])
  show ?thesis by (intro ext) (simp only: applyInput_def *)
qed

lemma super_route_needs_no_grant:
  "rr_Super ref \<Longrightarrow> k_getSuperHTTPRoute k (rr_Namespace ref) (rr_Name ref) = Some spec \<Longrightarrow>
   reconcileSingleRoute env (k\<lparr>k_grants := gs\<rparr>) cfg ref s = reconcileSingleRoute env k cfg ref s"
  unfolding reconcileSingleRoute_def checkInput_def applyInput_grants by simp

subsection \<open>Overlaps\<close>

text \<open>The detector is reset in every cycle, and a cycle checks one route unless it has a batch: there is nothing to overlap.\<close>

lemma single_never_overlaps: "fst (Check input (Reset d)) = []"
  by (simp add: Check_overlaps findOverlaps_def Reset_def entriesAt_def)

subsection \<open>Known routes\<close>

lemma observeAll_known:
  assumes "list_all (\<lambda>(ref, ann). ann AnnotationBatch = None \<and> singleKey ref \<in> ct_known s) routes"
  shows "fst (observeAll now routes (s, desired)) = s"
proof -
  have "fst (fold (\<lambda>(ref, ann) (s, desired). let (q, known) = observeRoute (now, ref, ann) (ct_queue s, ct_known s) in
          (s\<lparr>ct_queue := q, ct_known := known\<rparr>, insert (groupName (rr_Namespace ref) (rr_Name ref)) desired)) routes (s, desired)) = s"
    using assms
    by (induction routes arbitrary: desired) (auto simp: observeRoute_def known_single_not_queued)
  then show ?thesis by (simp add: observeAll_def)
qed


definition knownK8s :: K8s where
  "knownK8s = crossK8s\<lparr>k_HTTPRoutes := Some [(\<lparr>rr_Namespace = ''n'', rr_Name = ''r'', rr_Super = False\<rparr>, Map.empty)]\<rparr>"


subsection \<open>Desired groups\<close>

lemma indexByte_split: "indexByte c s = Some i \<Longrightarrow> s = take i s @ c # drop (Suc i) s"
  by (induction s arbitrary: i) (auto split: if_splits)

lemma parseGroupName_groupName:
  assumes "parseGroupName g = Some (ns, name)"
  shows "groupName ns name = g"
proof -
  have "hasPrefix g ''k8s:''" using assms by (simp add: parseGroupName_def split: if_splits)
  then obtain t where g: "g = ''k8s:'' @ t" by (auto simp: hasPrefix_iff)
  have four: "drop 4 g = t" by (simp add: g)
  obtain i where i: "indexByte (CHR ''/'') t = Some i" "ns = take i t" "name = drop (Suc i) t"
    using assms \<open>hasPrefix g ''k8s:''\<close> unfolding parseGroupName_def four Let_def by (auto split: option.splits)
  show ?thesis using indexByte_split [OF i(1)] unfolding groupName_def g i(2,3) by simp
qed

text \<open>The groups of the list that are desired, while others are deleted by their ids.\<close>

definition sparing :: "string set \<Rightarrow> vGroup list \<Rightarrow> vGroup set \<Rightarrow> RState \<Rightarrow> bool" where
  "sparing desired G all s \<longleftrightarrow> inj_on vg_ID all \<and> set (rs_groups s) \<subseteq> all \<and> filter (\<lambda>g. vg_Name g \<in> desired) (rs_groups s) = G"

lemma sparing_modify: "(\<And>s. rs_groups (f s) = rs_groups s) \<Longrightarrow> keeps (sparing desired G all) (modify f)"
  by (rule keeps_modify) (simp add: sparing_def)

lemma sparing_call: "keeps (sparing desired G all) m \<Longrightarrow> keeps (sparing desired G all) (call env err m)"
  by (rule keeps_call) (simp_all add: sparing_def)

lemma sparing_calls:
  "keeps (sparing desired G all) (ListRoutes env)" "keeps (sparing desired G all) (ListMiddlewares env)"
  "keeps (sparing desired G all) (ListDestinations env)" "keeps (sparing desired G all) (DeleteRoute env r)"
  "keeps (sparing desired G all) (DeleteMiddleware env m)" "keeps (sparing desired G all) (DeleteDestination env d)"
  "keeps (sparing desired G all) change" "keeps (sparing desired G all) (discountRef dn)"
  unfolding ListRoutes_def ListMiddlewares_def ListDestinations_def DeleteRoute_def DeleteMiddleware_def DeleteDestination_def
    change_def discountRef_def
  by (auto intro!: sparing_call sparing_modify keeping)

lemma sparing_drops:
  "keeps (sparing desired G all) (dropRoute env r)" "keeps (sparing desired G all) (dropMiddleware env m)"
  "keeps (sparing desired G all) (dropDestination env dests dn)"
  unfolding dropRoute_def dropMiddleware_def dropDestination_def
  by (auto intro!: keeping sparing_calls sparing_modify)

lemma sparing_DeleteGroup:
  assumes "g \<in> all" "vg_Name g \<notin> desired"
  shows "keeps (sparing desired G all) (DeleteGroup env g)"
  unfolding DeleteGroup_def
proof (intro sparing_call keeps_modify)
  fix s assume s: "sparing desired G all s"
  have "vg_ID x \<noteq> vg_ID g" if "x \<in> set (rs_groups s)" "vg_Name x \<in> desired" for x
    using s that assms by (auto simp: sparing_def dest: inj_onD)
  then have "filter (\<lambda>x. vg_Name x \<in> desired) (filter (\<lambda>x. vg_ID x \<noteq> vg_ID g) (rs_groups s)) = filter (\<lambda>x. vg_Name x \<in> desired) (rs_groups s)"
    by (simp add: filter_filter) (metis (mono_tags, lifting) filter_cong)
  then show "sparing desired G all (s\<lparr>rs_groups := filter (\<lambda>x. vg_ID x \<noteq> vg_ID g) (rs_groups s)\<rparr>)"
    using s by (auto simp: sparing_def)
qed

lemma sparing_DeleteHTTPRoute:
  assumes "groupName ns name \<notin> desired"
  shows "keeps (sparing desired G all) (DeleteHTTPRoute env ns name)"
proof -
  let ?T = "sparing desired G all"
  have list: "valid ?T (ListGroups env) (\<lambda>groups s. ?T s \<and> set groups \<subseteq> all) ?T"
    unfolding ListGroups_def by (rule valid_call) (auto simp: sparing_def intro!: valid_gets)
  have del: "keeps ?T (forEach (filter (\<lambda>g. vg_Name g = groupName ns name) groups) (\<lambda>g. andThen (DeleteGroup env g) (\<lambda>_. change)))"
    if "set groups \<subseteq> all" for groups
    unfolding keeps_def using that assms
    by (intro valid_forEach) (auto intro!: keeps_andThen [unfolded keeps_def] sparing_DeleteGroup [unfolded keeps_def] sparing_calls [unfolded keeps_def])
  have rest: "keeps ?T (andThen (forEach (filter (\<lambda>g. vg_Name g = groupName ns name) groups) (\<lambda>g. andThen (DeleteGroup env g) (\<lambda>_. change)))
      (\<lambda>_. f))" if "set groups \<subseteq> all" "keeps ?T f" for groups and f :: "unit act"
    using del [OF that(1)] that(2) by (rule keeps_andThen)
  have step: "keeps ?T (andThen (ListGroups env) (\<lambda>groups. andThen (forEach (filter (\<lambda>g. vg_Name g = groupName ns name) groups)
      (\<lambda>g. andThen (DeleteGroup env g) (\<lambda>_. change))) (\<lambda>_. f)))" if "keeps ?T f" for f :: "unit act"
    unfolding keeps_def
  proof (rule valid_andThen [OF list])
    fix groups
    show "valid (\<lambda>s. ?T s \<and> set groups \<subseteq> all) (andThen (forEach (filter (\<lambda>g. vg_Name g = groupName ns name) groups)
      (\<lambda>g. andThen (DeleteGroup env g) (\<lambda>_. change))) (\<lambda>_. f)) (\<lambda>_. ?T) ?T"
      using rest [OF _ that] by (cases "set groups \<subseteq> all") (auto simp: keeps_def valid_def)
  qed
  have reset: "keeps ?T (modify (\<lambda>s. s\<lparr>rs_changes := 0\<rparr>))" by (rule sparing_modify) simp
  show ?thesis unfolding DeleteHTTPRoute_def Let_def
    by (rule keeps_andThen [OF reset], rule step) (auto intro!: keeping sparing_calls sparing_drops)
qed

lemma signals_rec [simp]: "ct_rec (signals k n s) = ct_rec s"
proof -
  have "ct_rec ((signal k ^^ m) s) = ct_rec s" for m by (induction m) (simp_all add: signal_def)
  then show ?thesis by (simp add: signals_def)
qed

lemma lift_rec: "lift m s = (x, t) \<Longrightarrow> ct_rec t = snd (m (ct_rec s)) \<and> x = fst (m (ct_rec s))"
  by (auto simp: lift_def split: prod.splits)

lemma gcGroup_spares:
  assumes "sparing desired G all (ct_rec s)"
  shows "sparing desired G all (ct_rec (gcGroup env k desired g s))"
proof (cases "g \<in> desired \<or> parseGroupName g = None")
  case False
  then obtain ns name where p: "parseGroupName g = Some (ns, name)" by auto
  have "groupName ns name \<notin> desired" using False parseGroupName_groupName [OF p] by simp
  then have "sparing desired G all (snd (DeleteHTTPRoute env ns name (ct_rec s)))"
    by (rule keepsD [OF sparing_DeleteHTTPRoute assms])
  then show ?thesis using False p
    by (cases "lift (DeleteHTTPRoute env ns name) s") (auto simp: gcGroup_def dest: lift_rec split: sum.split)
qed (use assms in \<open>auto simp: gcGroup_def\<close>)

text \<open>C12: the collection of orphaned groups never touches a group that is desired, whatever calls fail on the way: the desired
  groups are afterwards as they were, in the same order.\<close>

theorem desired_groups_survive:
  assumes "inj_on vg_ID (set (rs_groups (ct_rec s)))"
  shows "filter (\<lambda>g. vg_Name g \<in> desired) (rs_groups (ct_rec (gcOrphanedGroups env k desired s))) =
    filter (\<lambda>g. vg_Name g \<in> desired) (rs_groups (ct_rec s))"
proof -
  let ?T = "sparing desired (filter (\<lambda>g. vg_Name g \<in> desired) (rs_groups (ct_rec s))) (set (rs_groups (ct_rec s)))"
  have start: "?T (ct_rec s)" using assms by (simp add: sparing_def)
  have "keeps ?T (OwnedGroupNames env)"
    unfolding OwnedGroupNames_def ListGroups_def by (intro keeping sparing_call)
  from keepsD [OF this start] have listed: "?T (snd (OwnedGroupNames env (ct_rec s)))" .
  have "?T (ct_rec (fold (gcGroup env k desired) gs t))" if "?T (ct_rec t)" for gs t
    using that by (induction gs arbitrary: t) (auto intro: gcGroup_spares)
  then have "?T (ct_rec (gcOrphanedGroups env k desired s))"
    using listed by (cases "lift (OwnedGroupNames env) s") (auto simp: gcOrphanedGroups_def dest!: lift_rec split: sum.split)
  then show ?thesis by (simp add: sparing_def)
qed

definition orphanCtl :: ctl where
  "orphanCtl = newCtl\<lparr>ct_rec := emptyState\<lparr>rs_groups :=
     [\<lparr>vg_ID = ''a'', vg_Name = ''k8s:n/r'', vg_RouteIDs = [], vg_Hostnames = []\<rparr>,
      \<lparr>vg_ID = ''b'', vg_Name = ''k8s:n/z'', vg_RouteIDs = [], vg_Hostnames = []\<rparr>]\<rparr>\<rparr>"

theorem desired_groups_survive_witness:
  "filter (\<lambda>g. vg_Name g \<in> {''k8s:n/r''}) (rs_groups (ct_rec (gcOrphanedGroups calm crossK8s {''k8s:n/r''} orphanCtl))) =
   [\<lparr>vg_ID = ''a'', vg_Name = ''k8s:n/r'', vg_RouteIDs = [], vg_Hostnames = []\<rparr>]"
  by (subst desired_groups_survive) (simp_all add: orphanCtl_def newCtl_def emptyState_def)

text \<open>A list of routes that cannot be read counts as empty: the groups of its routes are then collected as orphans.\<close>

lemma unlisted_routes_not_desired:
  "k_HTTPRoutes k = None \<Longrightarrow> k_SuperHTTPRoutes k = Some [] \<Longrightarrow> snd (populate now k cfg s) = {}"
  by (simp add: populate_def observeAll_def Let_def)

end
