(* ===== verification/Convergence.thy ===== *)
theory Convergence
  imports Reconciler
begin

text \<open>
  What applying a route achieves when the control plane answers every call
  (\<^verbatim>\<open>clients/controller/internal/reconciler/reconciler.go\<close>, \<^verbatim>\<open>ApplyHTTPRoute\<close>): it succeeds, and the routes stored under
  the group are exactly the mapped ones. Each step of the function is run with its result and the state it leaves.
\<close>

definition answers :: "env \<Rightarrow> bool" where
  "answers env \<longleftrightarrow> (\<forall>n. env_reply env n = Answered)"

lemma call_answered: "answers env \<Longrightarrow> call env err m s = m (s\<lparr>rs_calls := Suc (rs_calls s)\<rparr>)"
  by (simp add: call_def answers_def)

lemma andThen_Inr: "m s = (Inr x, t) \<Longrightarrow> andThen m f s = f x t"
  by (simp add: andThen_def)

lemma lists_answered:
  assumes "answers env"
  shows "ListRoutes env s = (Inr (rs_routes s), s\<lparr>rs_calls := Suc (rs_calls s)\<rparr>)"
    "ListGroups env s = (Inr (rs_groups s), s\<lparr>rs_calls := Suc (rs_calls s)\<rparr>)"
    "ListDestinations env s = (Inr (rs_dests s), s\<lparr>rs_calls := Suc (rs_calls s)\<rparr>)"
    "ListMiddlewares env s = (Inr (rs_mws s), s\<lparr>rs_calls := Suc (rs_calls s)\<rparr>)"
  using assms by (simp_all add: ListRoutes_def ListGroups_def ListDestinations_def ListMiddlewares_def call_answered gets_def)

lemmas run_defs = andThen_def findByName_def ret_def modify_def change_def freshID_def gets_def call_answered lists_answered

text \<open>A step that leaves the routes alone; ids are only drawn, never given back.\<close>

definition frame :: "RState \<Rightarrow> RState \<Rightarrow> bool" where
  "frame s t \<longleftrightarrow> rs_routes t = rs_routes s \<and> rs_fresh s \<le> rs_fresh t"

lemma frame_refl [simp]: "frame s s" and frame_trans: "frame s t \<Longrightarrow> frame t u \<Longrightarrow> frame s u"
  by (auto simp: frame_def)

lemma forEach_same:
  assumes "\<And>x s. \<exists>t. f x s = (Inr (), t) \<and> rs_routes t = rs_routes s"
  shows "\<exists>t. forEach xs f s = (Inr (), t) \<and> rs_routes t = rs_routes s"
proof (induction xs arbitrary: s)
  case (Cons x xs)
  obtain t where t: "f x s = (Inr (), t)" "rs_routes t = rs_routes s" using assms by blast
  obtain u where "forEach xs f t = (Inr (), u)" "rs_routes u = rs_routes t" using Cons.IH by blast
  then show ?case using t unfolding forEach.simps by (subst andThen_Inr [where m = "f x", OF t(1)]) simp
qed (simp add: ret_def)

subsection \<open>Destinations and middlewares\<close>

definition destNames :: "RState \<Rightarrow> string set" where
  "destNames s = vs_Name ` set (rs_dests s)"

definition mwNames :: "RState \<Rightarrow> string set" where
  "mwNames s = vm_Name ` set (rs_mws s)"

definition grow :: "RState \<Rightarrow> RState \<Rightarrow> bool" where
  "grow s t \<longleftrightarrow> frame s t \<and> destNames s \<subseteq> destNames t \<and> mwNames s \<subseteq> mwNames t"

lemma grow_refl: "grow s s" and grow_trans: "grow s t \<Longrightarrow> grow t u \<Longrightarrow> grow s u"
  by (auto simp: grow_def intro: frame_trans)

lemma ensureDestination_run:
  assumes "answers env"
  shows "\<exists>t. ensureDestination env dk s = (Inr (), t) \<and> grow s t \<and> DestinationName dk \<in> destNames t"
proof (cases "find (\<lambda>d. vs_Name d = DestinationName dk) (rs_dests s)")
  case None
  then show ?thesis using assms
    by (simp add: ensureDestination_def run_defs CreateDestination_def grow_def frame_def destNames_def mwNames_def) blast
next
  case (Some d)
  then have "d \<in> set (rs_dests s)" "vs_Name d = DestinationName dk" by (auto simp: find_Some_iff)
  then have "DestinationName dk \<in> vs_Name ` set (rs_dests s)" by force
  then show ?thesis using assms Some
    by (simp add: ensureDestination_def run_defs grow_def frame_def destNames_def mwNames_def)
qed

lemma ensureMiddleware_run:
  assumes "answers env"
  shows "\<exists>t. ensureMiddleware env mw s = (Inr (), t) \<and> grow s t \<and> vm_Name mw \<in> mwNames t"
proof (cases "find (\<lambda>m. vm_Name m = vm_Name mw) (rs_mws s)")
  case None
  then show ?thesis using assms
    by (simp add: ensureMiddleware_def run_defs CreateMiddleware_def grow_def frame_def destNames_def mwNames_def) blast
next
  case (Some m)
  then have "m \<in> set (rs_mws s)" "vm_Name m = vm_Name mw" by (auto simp: find_Some_iff)
  then have "vm_Name mw \<in> vm_Name ` set (rs_mws s)" by (metis imageI)
  then show ?thesis using assms Some
    by (simp add: ensureMiddleware_def run_defs grow_def frame_def destNames_def mwNames_def)
qed

lemma ensureDestinations_run:
  assumes "answers env"
  shows "\<exists>t. forEach dks (ensureDestination env) s = (Inr (), t) \<and> grow s t \<and> DestinationName ` set dks \<subseteq> destNames t"
proof (induction dks arbitrary: s)
  case (Cons dk dks)
  obtain t where t: "ensureDestination env dk s = (Inr (), t)" "grow s t" "DestinationName dk \<in> destNames t"
    using ensureDestination_run [OF assms] by blast
  obtain u where "forEach dks (ensureDestination env) t = (Inr (), u)" "grow t u" "DestinationName ` set dks \<subseteq> destNames u"
    using Cons.IH by blast
  then show ?case using t grow_trans [OF t(2)] unfolding forEach.simps
    by (subst andThen_Inr [where m = "ensureDestination env dk", OF t(1)]) (auto simp: grow_def)
qed (simp add: ret_def grow_refl)

lemma ensureMiddlewares_run:
  assumes "answers env"
  shows "\<exists>t. forEach mws (ensureMiddleware env) s = (Inr (), t) \<and> grow s t \<and> vm_Name ` set mws \<subseteq> mwNames t"
proof (induction mws arbitrary: s)
  case (Cons mw mws)
  obtain t where t: "ensureMiddleware env mw s = (Inr (), t)" "grow s t" "vm_Name mw \<in> mwNames t"
    using ensureMiddleware_run [OF assms] by blast
  obtain u where "forEach mws (ensureMiddleware env) t = (Inr (), u)" "grow t u" "vm_Name ` set mws \<subseteq> mwNames u"
    using Cons.IH by blast
  then show ?case using t grow_trans [OF t(2)] unfolding forEach.simps
    by (subst andThen_Inr [where m = "ensureMiddleware env mw", OF t(1)]) (auto simp: grow_def)
qed (simp add: ret_def grow_refl)

lemma byName_None: "byName nameOf idOf xs n = None \<longleftrightarrow> n \<notin> nameOf ` set xs"
  by (force simp: byName_def map_of_eq_None_iff)

lemma resolveNames_run: "set names \<subseteq> nameOf ` set xs \<Longrightarrow> \<exists>ids. resolveNames (byName nameOf idOf xs) err names s = (Inr ids, s)"
proof -
  assume "set names \<subseteq> nameOf ` set xs"
  then have "find (\<lambda>n. byName nameOf idOf xs n = None) names = None" by (auto simp: find_None_iff byName_None)
  then show ?thesis by (simp add: resolveNames_def ret_def)
qed

lemma resolveDestinationIDs_run:
  assumes "answers env" "DestinationName ` set dks \<subseteq> destNames s"
  shows "\<exists>ids. resolveDestinationIDs env dks s = (Inr ids, s\<lparr>rs_calls := Suc (rs_calls s)\<rparr>)"
  unfolding resolveDestinationIDs_def andThen_Inr [OF lists_answered(3) [OF assms(1)]]
  using assms(2) by (intro resolveNames_run) (simp add: destNames_def)

lemma resolveMiddlewareIDs_run:
  assumes "answers env" "vm_Name ` set mws \<subseteq> mwNames s"
  shows "\<exists>ids t. resolveMiddlewareIDs env mws s = (Inr ids, t) \<and> frame s t"
proof (cases "length mws = 0")
  case False
  obtain ids where "resolveNames (byName vm_Name vm_ID (rs_mws s)) MiddlewareNotFound (map vm_Name mws) (s\<lparr>rs_calls := Suc (rs_calls s)\<rparr>) =
      (Inr ids, s\<lparr>rs_calls := Suc (rs_calls s)\<rparr>)"
    using resolveNames_run [where names = "map vm_Name mws" and nameOf = vm_Name and idOf = vm_ID and xs = "rs_mws s"
        and err = MiddlewareNotFound and s = "s\<lparr>rs_calls := Suc (rs_calls s)\<rparr>"] assms(2) unfolding mwNames_def by auto
  then show ?thesis using False
    by (simp add: resolveMiddlewareIDs_def andThen_Inr [OF lists_answered(4) [OF assms(1)]] andThen_Inr ret_def frame_def)
qed (simp add: resolveMiddlewareIDs_def ret_def)

subsection \<open>Routes\<close>

text \<open>The ids of the routes are distinct and the control plane draws new ones.\<close>

definition routes_wf :: "env \<Rightarrow> RState \<Rightarrow> bool" where
  "routes_wf env s \<longleftrightarrow> inj_on vr_ID (set (rs_routes s)) \<and> inj (env_newID env) \<and>
     (\<forall>x \<in> set (rs_routes s). \<forall>n \<ge> rs_fresh s. vr_ID x \<noteq> env_newID env n)"

lemma routes_wf_frame: "routes_wf env s \<Longrightarrow> frame s t \<Longrightarrow> routes_wf env t"
  by (auto simp: routes_wf_def frame_def)

definition routeNames :: "RState \<Rightarrow> string set" where
  "routeNames s = vr_Name ` set (rs_routes s)"

definition others :: "string \<Rightarrow> RState \<Rightarrow> vRoute list" where
  "others p s = filter (\<lambda>r. \<not> belongs p (vr_Name r)) (rs_routes s)"

lemma routes_wf_create:
  assumes "routes_wf env s" "rs_routes t = rs_routes s @ [r\<lparr>vr_ID := env_newID env (rs_fresh s)\<rparr>]" "rs_fresh t = Suc (rs_fresh s)"
  shows "routes_wf env t"
proof -
  let ?r = "r\<lparr>vr_ID := env_newID env (rs_fresh s)\<rparr>"
  have "vr_ID ?r \<notin> vr_ID ` set (rs_routes s)" using assms(1) by (auto simp: routes_wf_def dest: sym)
  then have "inj_on vr_ID (insert ?r (set (rs_routes s)))" using assms(1) by (auto simp: routes_wf_def)
  moreover have "env_newID env (rs_fresh s) \<noteq> env_newID env n" if "Suc (rs_fresh s) \<le> n" for n
    using assms(1) that by (auto simp: routes_wf_def dest: injD)
  ultimately show ?thesis using assms by (auto simp: routes_wf_def)
qed

definition replaceRoute :: "vRoute \<Rightarrow> vRoute \<Rightarrow> vRoute list \<Rightarrow> vRoute list" where
  "replaceRoute old new xs = map (\<lambda>x. if vr_ID x = vr_ID old then new\<lparr>vr_ID := vr_ID old\<rparr> else x) xs"

lemma replaceRoute_ids: "map vr_ID (replaceRoute old new xs) = map vr_ID xs"
  by (simp add: replaceRoute_def)

lemma replaceRoute_names:
  "inj_on vr_ID (set xs) \<Longrightarrow> old \<in> set xs \<Longrightarrow> vr_Name new = vr_Name old \<Longrightarrow> map vr_Name (replaceRoute old new xs) = map vr_Name xs"
  by (auto simp: replaceRoute_def dest: inj_onD)

lemma replaceRoute_others:
  assumes "inj_on vr_ID (set xs)" "old \<in> set xs" "vr_Name new = vr_Name old" "Q (vr_Name old)"
  shows "filter (\<lambda>r. \<not> Q (vr_Name r)) (replaceRoute old new xs) = filter (\<lambda>r. \<not> Q (vr_Name r)) xs"
proof -
  have "vr_ID x = vr_ID old \<Longrightarrow> x \<in> set xs \<Longrightarrow> Q (vr_Name x)" for x using assms(1,2,4) by (auto dest: inj_onD)
  then have "set ys \<subseteq> set xs \<Longrightarrow>
      filter (\<lambda>r. \<not> Q (vr_Name r)) (replaceRoute old new ys) = filter (\<lambda>r. \<not> Q (vr_Name r)) ys" for ys
    using assms(3,4) by (induction ys) (simp_all add: replaceRoute_def)
  then show ?thesis by blast
qed

lemma inj_on_ids: "map vr_ID ys = map vr_ID xs \<Longrightarrow> distinct (map vr_ID xs) \<Longrightarrow> inj_on vr_ID (set ys)"
  by (metis distinct_map)

lemma resolveRouteRefs_Name [simp]: "vr_Name (resolveRouteRefs r d m) = vr_Name r"
  by (simp add: resolveRouteRefs_def)

lemma routeJSON_Name [simp]: "vr_Name (routeJSON r) = vr_Name r"
  by (simp add: routeJSON_def)

text \<open>What a route does to the stored ones: it is appended, or it replaces the first of its name.\<close>

lemma applyRoute_run:
  assumes "answers env"
  defines "new \<equiv> \<lambda>r d m. routeJSON (resolveRouteRefs r d m)"
  shows "\<exists>i t. applyRoute env mapped d m r s = (Inr i, t) \<and>
    (case find (\<lambda>x. vr_Name x = vr_Name r) (rs_routes s) of
       None \<Rightarrow> rs_routes t = rs_routes s @ [(new r d m)\<lparr>vr_ID := env_newID env (rs_fresh s)\<rparr>] \<and> rs_fresh t = Suc (rs_fresh s)
     | Some x \<Rightarrow> rs_routes t = replaceRoute x (new r d m) (rs_routes s) \<and> rs_fresh t = rs_fresh s)"
  using assms
  by (cases "find (\<lambda>x. vr_Name x = vr_Name r) (rs_routes s)")
    (simp_all add: applyRoute_def run_defs CreateRoute_def UpdateRoute_def Let_def forEach_countRef replaceRoute_def routeJSON_def)

lemma applyRoute_step:
  assumes "answers env" "routes_wf env s" "belongs p (vr_Name r)"
  shows "\<exists>i t. applyRoute env mapped d m r s = (Inr i, t) \<and> routes_wf env t \<and> others p t = others p s \<and>
    routeNames t = insert (vr_Name r) (routeNames s)"
proof (cases "find (\<lambda>x. vr_Name x = vr_Name r) (rs_routes s)")
  case None
  obtain i t where t: "applyRoute env mapped d m r s = (Inr i, t)" "rs_fresh t = Suc (rs_fresh s)"
    "rs_routes t = rs_routes s @ [(routeJSON (resolveRouteRefs r d m))\<lparr>vr_ID := env_newID env (rs_fresh s)\<rparr>]"
    using applyRoute_run [OF assms(1), of mapped d m r s] None by auto
  have "routes_wf env t" using routes_wf_create [OF assms(2) t(3,2)] .
  then show ?thesis using t(1) assms(3) by (auto simp: others_def routeNames_def t(3))
next
  case (Some x)
  obtain i t where t: "applyRoute env mapped d m r s = (Inr i, t)" "rs_fresh t = rs_fresh s"
    "rs_routes t = replaceRoute x (routeJSON (resolveRouteRefs r d m)) (rs_routes s)"
    using applyRoute_run [OF assms(1), of mapped d m r s] Some by auto
  have x: "x \<in> set (rs_routes s)" "vr_Name x = vr_Name r" using Some by (auto simp: find_Some_iff)
  have inj: "inj_on vr_ID (set (rs_routes s))" using assms(2) by (simp add: routes_wf_def)
  note ids = replaceRoute_ids [of x "routeJSON (resolveRouteRefs r d m)" "rs_routes s"]
  have "vr_ID ` set (rs_routes t) = vr_ID ` set (rs_routes s)" using ids unfolding t(3) by (metis image_set)
  moreover have "inj_on vr_ID (set (rs_routes t))"
  proof (rule inj_onI)
    fix y z assume yz: "y \<in> set (rs_routes t)" "z \<in> set (rs_routes t)" "vr_ID y = vr_ID z"
    obtain y' z' where y': "y' \<in> set (rs_routes s)" "y = (if vr_ID y' = vr_ID x then (routeJSON (resolveRouteRefs r d m))\<lparr>vr_ID := vr_ID x\<rparr> else y')"
      and z': "z' \<in> set (rs_routes s)" "z = (if vr_ID z' = vr_ID x then (routeJSON (resolveRouteRefs r d m))\<lparr>vr_ID := vr_ID x\<rparr> else z')"
      using yz(1,2) unfolding t(3) replaceRoute_def by auto
    have "vr_ID y' = vr_ID z'" using yz(3) y'(2) z'(2) by (simp split: if_splits)
    then show "y = z" using inj_onD [OF inj _ y'(1) z'(1)] y'(2) z'(2) by simp
  qed
  ultimately have "routes_wf env t" using assms(2) t(2) unfolding routes_wf_def by (metis (no_types, lifting) image_iff)
  moreover have "map vr_Name (rs_routes t) = map vr_Name (rs_routes s)" unfolding t(3) by (rule replaceRoute_names [OF inj x(1)]) (simp add: x(2))
  then have "routeNames t = insert (vr_Name r) (routeNames s)" using x by (metis image_set imageI insert_absorb routeNames_def)
  moreover have "others p t = others p s" unfolding others_def t(3)
    by (rule replaceRoute_others [OF inj x(1)]) (simp_all add: x(2) assms(3))
  ultimately show ?thesis using t(1) by blast
qed

lemma applyRoutes_run:
  assumes "answers env"
  shows "routes_wf env s \<Longrightarrow> list_all (\<lambda>r. belongs p (vr_Name r)) rs \<Longrightarrow>
    \<exists>ids t. collect rs (applyRoute env mapped d m) s = (Inr ids, t) \<and> routes_wf env t \<and> others p t = others p s \<and>
      routeNames t = vr_Name ` set rs \<union> routeNames s"
proof (induction rs arbitrary: s)
  case (Cons r rs)
  obtain i t where t: "applyRoute env mapped d m r s = (Inr i, t)" "routes_wf env t" "others p t = others p s"
    "routeNames t = insert (vr_Name r) (routeNames s)"
    using applyRoute_step [OF assms Cons.prems(1), of p r mapped d m] Cons.prems(2) by auto
  obtain is' u where "collect rs (applyRoute env mapped d m) t = (Inr is', u)" "routes_wf env u" "others p u = others p t"
    "routeNames u = vr_Name ` set rs \<union> routeNames t"
    using Cons.IH [OF t(2)] Cons.prems(2) by auto
  then show ?case using t unfolding collect.simps
    by (subst andThen_Inr [where m = "applyRoute env mapped d m r", OF t(1)]) (auto simp: andThen_def ret_def)
qed (simp add: ret_def)

lemma applyGroup_run: "answers env \<Longrightarrow> \<exists>t. applyGroup env g s = (Inr (), t) \<and> frame s t"
  by (cases "find (\<lambda>x. vg_Name x = vg_Name g) (rs_groups s)")
    (simp_all add: applyGroup_def run_defs CreateGroup_def UpdateGroup_def frame_def)

subsection \<open>Stale entities\<close>

lemma dropRoute_run:
  "answers env \<Longrightarrow> \<exists>ds t. dropRoute env r s = (Inr ds, t) \<and> rs_routes t = filter (\<lambda>x. vr_ID x \<noteq> vr_ID r) (rs_routes s)"
  by (simp add: dropRoute_def run_defs DeleteRoute_def forEach_discountRef)

lemma dropRoutes_run:
  assumes "answers env"
  shows "\<exists>ds t. collect rs (dropRoute env) s = (Inr ds, t) \<and>
    rs_routes t = filter (\<lambda>x. vr_ID x \<notin> vr_ID ` set rs) (rs_routes s)"
proof (induction rs arbitrary: s)
  case (Cons r rs)
  obtain ds t where t: "dropRoute env r s = (Inr ds, t)" "rs_routes t = filter (\<lambda>x. vr_ID x \<noteq> vr_ID r) (rs_routes s)"
    using dropRoute_run [OF assms] by blast
  obtain ds' u where u: "collect rs (dropRoute env) t = (Inr ds', u)" "rs_routes u = filter (\<lambda>x. vr_ID x \<notin> vr_ID ` set rs) (rs_routes t)"
    using Cons.IH by blast
  have "rs_routes u = filter (\<lambda>x. vr_ID x \<notin> vr_ID ` set (r # rs)) (rs_routes s)"
    unfolding u(2) t(2) filter_filter by (intro filter_cong) auto
  then show ?case unfolding collect.simps using u(1)
    by (subst andThen_Inr [where m = "dropRoute env r", OF t(1)]) (auto simp: andThen_def ret_def)
qed (simp add: ret_def)

lemma dropMiddlewares_run:
  assumes "answers env"
  shows "\<exists>t. forEach mws (dropMiddleware env) s = (Inr (), t) \<and> rs_routes t = rs_routes s"
  by (rule forEach_same) (simp add: dropMiddleware_def run_defs DeleteMiddleware_def assms)

lemma dropDestinations_run:
  assumes "answers env"
  shows "\<exists>t. forEach ns (dropDestination env dests) s = (Inr (), t) \<and> rs_routes t = rs_routes s"
proof (rule forEach_same)
  fix n s
  show "\<exists>t. dropDestination env dests n s = (Inr (), t) \<and> rs_routes t = rs_routes s"
    using assms by (cases "find (\<lambda>d. vs_Name d = n) dests") (simp_all add: dropDestination_def run_defs DeleteDestination_def)
qed

subsection \<open>The whole\<close>

text \<open>The routes that stay: those of other resources and those that are desired.\<close>

lemma stale_dropped:
  assumes "inj_on vr_ID (set all)" "rs_routes t = filter (\<lambda>x. vr_ID x \<notin> vr_ID ` set (filter stale all)) all"
  shows "rs_routes t = filter (\<lambda>x. \<not> stale x) all"
  unfolding assms(2) using assms(1) by (intro filter_cong) (auto dest: inj_onD)

lemma ApplyHTTPRoute_run:
  fixes mapped :: MappedEntities
  defines "p \<equiv> vg_Name (me_Group mapped) @ ''/''" and "desired \<equiv> set (map vr_Name (me_Routes mapped))"
  assumes "answers env" "routes_wf env s" "list_all (\<lambda>r. belongs p (vr_Name r)) (me_Routes mapped)"
  shows "\<exists>t all. ApplyHTTPRoute env mapped s = (Inr (), t) \<and>
    rs_routes t = filter (\<lambda>x. \<not> (belongs p (vr_Name x) \<and> vr_Name x \<notin> desired)) all \<and>
    filter (\<lambda>x. \<not> belongs p (vr_Name x)) all = others p s \<and> desired \<subseteq> vr_Name ` set all"
proof -
  note ok = \<open>answers env\<close>
  define s0 where "s0 = s\<lparr>rs_changes := 0\<rparr>"
  have f0: "frame s s0" by (simp add: s0_def frame_def)
  obtain s1 where s1: "forEach (me_Destinations mapped) (ensureDestination env) s0 = (Inr (), s1)" "grow s0 s1"
    "DestinationName ` set (me_Destinations mapped) \<subseteq> destNames s1" using ensureDestinations_run [OF ok] by blast
  obtain s2 where s2: "forEach (me_Middlewares mapped) (ensureMiddleware env) s1 = (Inr (), s2)" "grow s1 s2"
    "vm_Name ` set (me_Middlewares mapped) \<subseteq> mwNames s2" using ensureMiddlewares_run [OF ok] by blast
  have "DestinationName ` set (me_Destinations mapped) \<subseteq> destNames s2" using s1(3) s2(2) by (auto simp: grow_def)
  then obtain d where s3: "resolveDestinationIDs env (me_Destinations mapped) s2 = (Inr d, s2\<lparr>rs_calls := Suc (rs_calls s2)\<rparr>)"
    using resolveDestinationIDs_run [OF ok] by blast
  define s3' where "s3' = s2\<lparr>rs_calls := Suc (rs_calls s2)\<rparr>"
  have "vm_Name ` set (me_Middlewares mapped) \<subseteq> mwNames s3'" using s2(3) by (simp add: s3'_def mwNames_def)
  then obtain m s4 where s4: "resolveMiddlewareIDs env (me_Middlewares mapped) s3' = (Inr m, s4)" "frame s3' s4"
    using resolveMiddlewareIDs_run [OF ok] by blast
  have fr: "frame s s4" using f0 s1(2) s2(2) s4(2) by (auto simp: grow_def frame_def s3'_def)
  obtain rids s5 where s5: "collect (me_Routes mapped) (applyRoute env mapped d m) s4 = (Inr rids, s5)" "routes_wf env s5"
    "others p s5 = others p s4" "routeNames s5 = vr_Name ` set (me_Routes mapped) \<union> routeNames s4"
    using applyRoutes_run [OF ok routes_wf_frame [OF assms(4) fr] assms(5), of mapped d m] by blast
  obtain s6 where s6: "applyGroup env ((me_Group mapped)\<lparr>vg_RouteIDs := rids\<rparr>) s5 = (Inr (), s6)" "frame s5 s6"
    using applyGroup_run [OF ok] by blast
  let ?stale = "\<lambda>x. belongs p (vr_Name x) \<and> vr_Name x \<notin> desired"
  define s6' where "s6' = s6\<lparr>rs_calls := Suc (rs_calls s6)\<rparr>"
  obtain ds s7 where s7: "collect (filter ?stale (rs_routes s6)) (dropRoute env) s6' = (Inr ds, s7)"
    "rs_routes s7 = filter (\<lambda>x. vr_ID x \<notin> vr_ID ` set (filter ?stale (rs_routes s6))) (rs_routes s6')"
    using dropRoutes_run [OF ok] by blast
  define s7' where "s7' = s7\<lparr>rs_calls := Suc (rs_calls s7)\<rparr>"
  obtain s8 where s8: "forEach (filter (\<lambda>m. belongs p (vm_Name m) \<and> vm_Name m \<notin> set (map vm_Name (me_Middlewares mapped))) (rs_mws s7))
      (dropMiddleware env) s7' = (Inr (), s8)" "rs_routes s8 = rs_routes s7'"
    using dropMiddlewares_run [OF ok] by blast
  obtain s9 where s9: "forEach (unique {} (concat ds)) (dropDestination env (rs_dests s8)) (s8\<lparr>rs_calls := Suc (rs_calls s8)\<rparr>) = (Inr (), s9)"
    "rs_routes s9 = rs_routes s8" using dropDestinations_run [OF ok] by force
  have routes: "rs_routes s7 = filter (\<lambda>x. \<not> ?stale x) (rs_routes s6)"
    using stale_dropped [of "rs_routes s6" s7 ?stale] s5(2) s6(2) s7(2) by (simp add: routes_wf_def frame_def s6'_def)
  have run: "\<exists>t. ApplyHTTPRoute env mapped s = (Inr (), t) \<and> rs_routes t = rs_routes s7"
    using s1(1) s2(1) s3 s4(1) s5(1) s6(1) s7(1) s8 s9
    unfolding s0_def s3'_def s6'_def s7'_def p_def desired_def
    by (cases "length (concat ds) > 0")
      (simp_all add: ApplyHTTPRoute_def modify_def andThen_def lists_answered [OF ok] Let_def ret_def)
  obtain t where t: "ApplyHTTPRoute env mapped s = (Inr (), t)" "rs_routes t = rs_routes s7" using run by blast
  show ?thesis
    by (rule exI [of _ t], rule exI [of _ "rs_routes s5"])
      (use t routes s5(3,4) s6(2) fr in \<open>auto simp: others_def frame_def routeNames_def desired_def\<close>)
qed

lemma mapped_belongs:
  "list_all (\<lambda>r. belongs (vg_Name (me_Group (MapHTTPRoute input)) @ ''/'') (vr_Name r)) (me_Routes (MapHTTPRoute input))"
proof -
  have "vg_Name (me_Group (MapHTTPRoute input)) = groupName (hi_Namespace input) (hi_Name input)"
    by (simp add: MapHTTPRoute_def Let_def)
  then show ?thesis
    by (auto simp: list_all_iff belongs_def IsOwned_def hasPrefix_iff groupName_def routeName_def rulePrefix_def elim!: mapped_routeE)
qed


definition withStale :: RState where
  "withStale = emptyState\<lparr>rs_routes := [storedRoute ''x'' ''k8s:n/r/rule-7/match-0'' ''d'', storedRoute ''y'' ''other'' ''d'']\<rparr>"


end
