(* ===== verification/Spec2Isabelle.thy ===== *)
theory Spec2Isabelle
  imports Gateway Stores Sync Convergence
begin

text \<open>
  A verification development for Vrata, a programmable HTTP reverse proxy written in Go
  (\<^verbatim>\<open>src/server\<close>), with a Kubernetes controller (\<^verbatim>\<open>src/clients/controller\<close>) that writes its configuration.

  \<^bold>\<open>The program.\<close> The control plane stores configuration entities and publishes snapshots of them. The
  proxy compiles a snapshot into a routing table and replaces the old table at once. A request is dispatched
  to the first matching route, passes the middlewares of its group and route, and is answered
  directly, redirected, or forwarded: a destination is chosen by weight or by a pinning cookie, an endpoint of
  it by a balancer, the circuit breaker is asked, the request is rewritten and sent with retries, and
  the result is recorded by the breaker, by outlier detection and by the metrics. Active health checks run beside.

  \<^bold>\<open>The model.\<close> Each theory translates the files its header names, one definition per function or
  loop body, in the order of the code. A definition that stands for a part of a function belongs to the lines of the
  function that uses it.

  \<^item> \<^verbatim>\<open>Go_Prelude\<close>, \<^verbatim>\<open>Go_Net\<close>, \<^verbatim>\<open>Go_Strings\<close>: what the code uses of the language and its library: integer
    wrap-around, panics as values of a sum type, slices and maps, binary search, decimal numbers, CRC-32,
    headers under canonical keys, requests, splitting of hosts and strings.
  \<^item> \<^verbatim>\<open>Model\<close>: the entities of \<^verbatim>\<open>internal/model\<close> as records with the fields of the structs.
  \<^item> \<^verbatim>\<open>Hash_Ring\<close>, \<^verbatim>\<open>Balancer\<close>, \<^verbatim>\<open>Maglev\<close>: the pinning ring and the endpoint balancers. The loops of Maglev
    are partial functions, so that not returning is a value.
  \<^item> \<^verbatim>\<open>Circuit_Breaker\<close>: the breaker as a state transformer, its three-state specification, and the
    interleaving of its atomic operations as a step relation.
  \<^item> \<^verbatim>\<open>Pool\<close>, \<^verbatim>\<open>Destination_Select\<close>: pools whose endpoints live in a heap shared with health checks, and
    the choice of a destination.
  \<^item> \<^verbatim>\<open>Outlier\<close>, \<^verbatim>\<open>Health\<close>: ejection of endpoints and active checks, as functions of a history of events.
  \<^item> \<^verbatim>\<open>Retry\<close>, \<^verbatim>\<open>Rewrite\<close>, \<^verbatim>\<open>Forward\<close>: retries with back-off, the certificate header, path rewriting, gRPC
    timeouts and the forward handler with its deferred calls, over the state of the proxy (pools, heap,
    sessions, collectors and what was sent).
  \<^item> \<^verbatim>\<open>Http\<close>, \<^verbatim>\<open>Interpolate\<close>, \<^verbatim>\<open>Cel\<close>, \<^verbatim>\<open>Middlewares\<close>, \<^verbatim>\<open>Rate_Limit\<close>, \<^verbatim>\<open>Ext_Authz\<close>, \<^verbatim>\<open>Jwt\<close>, \<^verbatim>\<open>Access_Log\<close>,
    \<^verbatim>\<open>Ext_Proc\<close>: response writers and handlers, and each middleware as a function on handlers. The state that
    handlers share is a type parameter.
  \<^item> \<^verbatim>\<open>Metrics\<close>: the collector as a list of calls on metric vectors.
  \<^item> \<^verbatim>\<open>Routing\<close>: matching, the compilation of routes, the handler chain, the routing table and dispatch.
  \<^item> \<^verbatim>\<open>Listeners\<close>, \<^verbatim>\<open>Gateway\<close>: which servers a new configuration stops, keeps and starts, and the rebuild that hands a new table
    to the router, the health checker, outlier detection, the listeners and the metrics.
  \<^item> \<^verbatim>\<open>Stores\<close>: the in-memory store, the persistent store with encryption, and the replicated commands.
  \<^item> \<^verbatim>\<open>Controller\<close>, \<^verbatim>\<open>Work_Queue\<close>, \<^verbatim>\<open>Mapper\<close>, \<^verbatim>\<open>Dedup\<close>, \<^verbatim>\<open>Reconciler\<close>, \<^verbatim>\<open>Convergence\<close>, \<^verbatim>\<open>Sync\<close>: the controller. Its batcher as a
    step relation and the check of reference grants; the work queue with its shared items in a store; the mapping of
    Gateway API resources; the detector of overlaps; the reconciler as actions over the collections of the control plane,
    every call of which may be refused or lose its answer; and the cycle that composes them.

  \<^bold>\<open>What is shown.\<close> The breaker refines its specification, its active counts are restored by every request
  and its probes are bounded under all interleavings. Selection follows the weights and finds healthy
  members. Balancers visit evenly, and Maglev returns with an even table
  for a prime size. Ejection and health flags are characterised by the history of responses and probes. Retries
  deliver the first accepted answer within the back-off bounds. The rate limiter admits no more than its bucket.
  A client cannot forge the certificate header, nor can an external processor change a protected header, and only verified
  tokens pass token validation. Signature
  conversion and gRPC timeouts round-trip. Calls on metrics are well typed. A request goes to the first
  accepting route of the configuration, and a broken route leaves the rest of the table as it is. A rebuild applies a
  configuration to all parts of the proxy or to none, and a reconciliation leaves the configured servers. The persistent store
  refines the in-memory store, and replicas that apply the same log agree. In the controller,
  batched changes reach an active snapshot, the work queue is first in, first out, mapped entities refer only to each
  other, overlaps are reported exactly for shared traffic, applying a route converges to the mapped routes when
  the control plane answers, a destination booked for a route is never deleted whatever
  calls fail, references across namespaces need a grant, and the collection of orphans spares what is desired.

  \<^bold>\<open>Parameters.\<close> Code outside the repository is an argument: regular expressions, the CEL compiler, JSON and
  PEM decoding, cryptography, MD5, sorting (a sorted permutation), \<^verbatim>\<open>time.ParseDuration\<close>, random draws, clocks, the
  order of map iteration, Redis, and the services that the proxy calls. Theorems that need a law of such an
  argument state it, and their witnesses instantiate it. Floating point is real arithmetic with a rounding function
  in the rate limiter and a bit pattern where it is only stored.

  \<^bold>\<open>Bounds.\<close> No definition uses fuel. Loops are structural or have a termination proof, apart from the
  two loops of Maglev. Counters that can wrap keep their width; times and durations are integers of nanoseconds.

  \<^bold>\<open>Not modelled.\<close> Sockets, TLS handshakes, goroutine lifetimes and logging; connection upgrades, trailers and
  informational responses of the reverse proxy; the generated code of the API documentation and of the protocol
  buffers; the command line programs. The endpoints of the control plane API, secret resolution and the snapshot client
  are not translated; of the listeners, accepting connections and the dispatch to the metrics page are left out. Of the controller, configuration, informers, leader election, metrics and the contents of status
  messages are left out; the control plane is seen through the client's calls.
\<close>

end
